(* ===== verification/Prelude.thy ===== *)
theory Prelude
  imports Complex_Main "HOL-Library.Multiset" "HOL-Library.List_Lexorder"
    "HOL-Library.Char_ord" "HOL-Library.Product_Lexorder" "HOL-Library.Monad_Syntax"
begin

text \<open>
  What the components share: the numbers and strings of the Go code, the value \<open>+Inf\<close>, the
  effect "this expression may panic", Go maps built by a loop, and generic facts on lists.

  \<^item> \<^verbatim>\<open>float64\<close> is a rational number, computed exactly: rounding, overflow and NaN are not
    modelled. \<open>math.Inf(1)\<close>, which the code uses as a proper value, is the element
    \<open>PInf\<close> of \<open>'a ext\<close>. The two optimisation results (the partition program and the
    path program) are proved for any linearly ordered cost type with a monotone addition, so
    they do not rest on exactness.
  \<^item> \<^verbatim>\<open>int\<close> is \<open>int\<close>; lengths and loop counters are \<open>nat\<close>.
  \<^item> \<^verbatim>\<open>string\<close> is a list of bytes, ordered lexicographically by byte value, as Go compares
    strings.
  \<^item> A computation that may hit an out-of-range index is \<open>'a go\<close>, with \<open>None\<close> the panic.
\<close>

section \<open>Collections of rewrite rules\<close>

named_theorems plan_consts \<open>the planner's tuning constants\<close>
named_theorems mem_simps \<open>memory and bandwidth definitions\<close>

section \<open>Numbers with +Inf\<close>

type_synonym float64 = rat

datatype 'a ext = Fin 'a | PInf

instantiation ext :: (linorder) linorder
begin

fun less_eq_ext :: "'a ext \<Rightarrow> 'a ext \<Rightarrow> bool" where
  "less_eq_ext _ PInf = True"
| "less_eq_ext PInf (Fin _) = False"
| "less_eq_ext (Fin a) (Fin b) = (a \<le> b)"

definition less_ext :: "'a ext \<Rightarrow> 'a ext \<Rightarrow> bool" where
  "less_ext x y = (x \<le> y \<and> \<not> y \<le> (x :: 'a ext))"

instance
proof
  fix x y z :: "'a ext"
  show "(x < y) = (x \<le> y \<and> \<not> y \<le> x)" by (rule less_ext_def)
  show "x \<le> x" by (cases x) auto
  show "x \<le> y \<Longrightarrow> y \<le> z \<Longrightarrow> x \<le> z" by (cases x; cases y; cases z) auto
  show "x \<le> y \<Longrightarrow> y \<le> x \<Longrightarrow> x = y" by (cases x; cases y) auto
  show "x \<le> y \<or> y \<le> x" by (cases x; cases y) auto
qed

end

lemma ext_less_simps [simp]:
  "\<not> PInf < (x :: 'a::linorder ext)"
  "Fin a < PInf"
  "(Fin a < Fin b) = (a < (b :: 'a::linorder))"
  by (cases x) (auto simp: less_ext_def)

lemma PInf_le_iff [simp]: "PInf \<le> x \<longleftrightarrow> x = PInf"
  by (cases x) auto

lemma less_PInf_iff: "x < PInf \<longleftrightarrow> (\<exists>a. x = Fin a)"
  by (cases x) auto

lemma max_ext_simps [simp]:
  "max PInf x = PInf" "max x PInf = PInf" "max (Fin a) (Fin b) = Fin (max a b)"
  by (auto simp: max_def)

lemma max_eq_Fin_iff: "max x y = Fin c \<longleftrightarrow> (\<exists>a b. x = Fin a \<and> y = Fin b \<and> c = max a b)"
  by (cases x; cases y) auto

section \<open>Panics\<close>

type_synonym 'a go = "'a option"

section \<open>Go maps filled by a loop\<close>

text \<open>\<^verbatim>\<open>m := map[K]V{}; for _, x := range xs { m[key(x)] = val(x) }\<close>: a later element wins.\<close>

definition map_by :: "('x \<Rightarrow> 'k) \<Rightarrow> ('x \<Rightarrow> 'v) \<Rightarrow> 'x list \<Rightarrow> 'k \<rightharpoonup> 'v" where
  "map_by key val xs = foldl (\<lambda>m x. m(key x \<mapsto> val x)) Map.empty xs"

lemma map_by_snoc: "map_by key val (xs @ [x]) = (map_by key val xs)(key x \<mapsto> val x)"
  by (simp add: map_by_def)

lemma map_by_Nil [simp]: "map_by key val [] = Map.empty"
  by (simp add: map_by_def)

lemma dom_map_by [simp]: "dom (map_by key val xs) = key ` set xs"
  by (induction xs rule: rev_induct) (simp, simp only: map_by_snoc dom_fun_upd, simp)

lemma map_by_SomeD: "map_by key val xs k = Some v \<Longrightarrow> \<exists>x \<in> set xs. key x = k \<and> val x = v"
  by (induction xs rule: rev_induct) (auto simp: map_by_snoc split: if_splits)

lemma map_by_distinct:
  "distinct (map key xs) \<Longrightarrow> x \<in> set xs \<Longrightarrow> map_by key val xs (key x) = Some (val x)"
  by (induction xs rule: rev_induct) (auto simp: map_by_snoc image_iff)

section \<open>Lists\<close>

lemma sort_key_canonical:
  assumes "mset xs = mset ys" and "inj_on f (set xs)"
  shows "sort_key f xs = sort_key f ys"
proof (rule properties_for_sort_key)
  show "mset (sort_key f ys) = mset xs" using assms(1) by simp
  show "sorted (map f (sort_key f ys))" by simp
next
  fix k assume "k \<in> set (sort_key f ys)"
  then have k: "k \<in> set xs" using mset_eq_setD [OF assms(1)] by simp
  have *: "filter (\<lambda>x. f k = f x) zs = replicate (count (mset zs) k) k" if "set zs = set xs" for zs
  proof -
    have "filter (\<lambda>x. f k = f x) zs = filter ((=) k) zs"
      using assms(2) k that by (intro filter_cong) (auto simp: inj_on_def)
    then show ?thesis by (simp add: replicate_count_mset_eq_filter_eq)
  qed
  show "filter (\<lambda>x. f k = f x) (sort_key f ys) = filter (\<lambda>x. f k = f x) xs"
    using *[of "sort_key f ys"] *[of xs] assms(1) mset_eq_setD [OF assms(1)] by simp
qed

end
