(* ===== verification/PlanTypes.thy ===== *)
theory PlanTypes
  imports Prelude
begin

text \<open>
  The planner's domain types, from \<^verbatim>\<open>src/go/planner/plan/types.go\<close>: one record per struct, one
  datatype per enumeration. Field names that occur in several structs carry the struct's name
  (\<open>nodeID\<close>, \<open>modelID\<close>, \<open>qName\<close>, \<open>aNodeID\<close>).

  The human-readable texts the planner produces with \<^verbatim>\<open>fmt.Sprintf\<close> (the reason of an error, the
  lines of an explanation) are values of the datatypes \<open>reason\<close> and \<open>expl_line\<close>: one constructor per
  format string, with the formatted values as its arguments.
\<close>

section \<open>Enumerations\<close>

datatype AttentionType =
  AttentionUnspecified | AttentionMHA | AttentionGQA | AttentionMLA | AttentionLinear

fun AttentionType_String :: "AttentionType \<Rightarrow> string" where
  "AttentionType_String AttentionMHA = ''MHA''"
| "AttentionType_String AttentionGQA = ''GQA''"
| "AttentionType_String AttentionMLA = ''MLA''"
| "AttentionType_String AttentionLinear = ''LINEAR''"
| "AttentionType_String AttentionUnspecified = ''UNSPECIFIED''"

datatype Mode = ModeAuto | ModePropose | ModeManual

fun Mode_String :: "Mode \<Rightarrow> string" where
  "Mode_String ModePropose = ''PROPOSE''"
| "Mode_String ModeManual = ''MANUAL''"
| "Mode_String ModeAuto = ''AUTO''"

datatype Role = RoleUnspecified | RoleHost | RoleWorker

fun Role_String :: "Role \<Rightarrow> string" where
  "Role_String RoleHost = ''HOST''"
| "Role_String RoleWorker = ''WORKER''"
| "Role_String RoleUnspecified = ''UNSPECIFIED''"

section \<open>Fleet and model\<close>

record LayerRange =
  Start :: int
  End :: int

record Node =
  nodeID :: string
  RAMTotalGB :: float64
  RAMAvailableGB :: float64
  VRAMGB :: float64
  UnifiedMemory :: bool
  MemBandwidthGBs :: float64
  Backends :: "string list"
  FP4Native :: bool
  EngineVersions :: "string \<rightharpoonup> string"
  DiskFreeGB :: float64
  KVSSDOffload :: bool
  PrefixCachingFactor :: float64

text \<open>The zero value \<^verbatim>\<open>Node{}\<close>, also what a lookup of an absent key in a \<^verbatim>\<open>map[string]Node\<close> gives.\<close>

definition zeroNode :: Node where
  "zeroNode = \<lparr>nodeID = '''', RAMTotalGB = 0, RAMAvailableGB = 0, VRAMGB = 0,
     UnifiedMemory = False, MemBandwidthGBs = 0, Backends = [], FP4Native = False,
     EngineVersions = Map.empty, DiskFreeGB = 0, KVSSDOffload = False, PrefixCachingFactor = 0\<rparr>"

record Link =
  From :: string
  To :: string
  RTTms :: float64
  BandwidthGBs :: float64

record Quantization =
  qName :: string
  SizeGB :: float64
  RequiresFP4 :: bool
  Quality :: float64
  EmulatedFP4 :: bool

record DraftInfo =
  Available :: bool
  draftType :: string
  TailLayers :: int

record ModelSpec =
  modelID :: string
  IsMoE :: bool
  Layers :: int
  ParamsTotalB :: float64
  ParamsActiveB :: float64
  HiddenSize :: int
  NKVHeads :: int
  HeadDim :: int
  attentionType :: AttentionType
  ContextMax :: int
  Quantizations :: "Quantization list"
  Draft :: DraftInfo
  KVCompressionRatio :: float64

text \<open>\<^verbatim>\<open>Pinned\<close> is a Go map; the code iterates over it, so it is kept as the list of its entries.\<close>

record Constraints =
  Pinned :: "(LayerRange \<times> string) list"
  IncludeNodes :: "string list"
  ExcludeNodes :: "string list"
  ForceNodeCount :: "int option"
  ForceQuant :: "string option"
  ForceHost :: "string option"
  QualityWeightBias :: float64
  mode :: Mode
  ReplicaCount :: int
  AllowedNodeIDs :: "string list"

section \<open>Plans\<close>

record Assignment =
  aNodeID :: string
  aRole :: Role
  LayerStart :: int
  LayerEnd :: int
  aDraft :: bool

record PerfEstimate =
  DecodeTokSMin :: float64
  DecodeTokSMax :: float64
  PrefillTokSMin :: float64
  PrefillTokSMax :: float64
  HeadroomGB :: float64

datatype expl_line =
  SelectedQuantization string float64
| FitsOnSingleNode string
| SingleNodeBudget float64 float64 float64 float64 float64 float64
| RunningEmulatedFP4
| ForceHostIgnored string string
| SplitAcrossNodes nat
| BottleneckStage "float64 ext" float64
| NodeShard string Role int int float64 float64
| PinNodeNotInSubset int int string
| PinMovedShard int int string int int string
| PinNotApplied int int string
| PhaseDOrdering bool string nat
| ForceHostHonoured string
| ForceHostNotInSubset string string
| DraftOnHost string int string
| DraftOnTail string int string int int
| DegradeNotify string

datatype DeploymentPlan = DeploymentPlan
  (PlanID: string)
  (ModelID: string)
  (QuantizationName: string)
  (Assignments: "Assignment list")
  (PipelineOrder: "string list")
  (Estimated: PerfEstimate)
  (Cost: float64)
  (Explanation: "expl_line list")
  (FailoverAlt: "string \<Rightarrow> DeploymentPlan option option")

text \<open>Assignments to single fields of a plan.\<close>

primrec set_Assignments :: "(Assignment list \<Rightarrow> Assignment list) \<Rightarrow> DeploymentPlan \<Rightarrow> DeploymentPlan" where
  "set_Assignments f (DeploymentPlan i m q as po es c ex fo) = DeploymentPlan i m q (f as) po es c ex fo"

primrec append_Explanation :: "expl_line list \<Rightarrow> DeploymentPlan \<Rightarrow> DeploymentPlan" where
  "append_Explanation ns (DeploymentPlan i m q as po es c ex fo) = DeploymentPlan i m q as po es c (ex @ ns) fo"

primrec set_FailoverAlt ::
  "string \<Rightarrow> DeploymentPlan option \<Rightarrow> DeploymentPlan \<Rightarrow> DeploymentPlan" where
  "set_FailoverAlt k v (DeploymentPlan i m q as po es c ex fo) =
     DeploymentPlan i m q as po es c ex (fo(k \<mapsto> v))"

lemma set_Assignments_sel [simp]:
  "PlanID (set_Assignments f p) = PlanID p" "ModelID (set_Assignments f p) = ModelID p"
  "QuantizationName (set_Assignments f p) = QuantizationName p"
  "Assignments (set_Assignments f p) = f (Assignments p)"
  "PipelineOrder (set_Assignments f p) = PipelineOrder p" "Cost (set_Assignments f p) = Cost p"
  "Estimated (set_Assignments f p) = Estimated p"
  "Explanation (set_Assignments f p) = Explanation p"
  "FailoverAlt (set_Assignments f p) = FailoverAlt p"
  by (cases p; simp)+

lemma append_Explanation_sel [simp]:
  "PlanID (append_Explanation ns p) = PlanID p" "ModelID (append_Explanation ns p) = ModelID p"
  "QuantizationName (append_Explanation ns p) = QuantizationName p"
  "Assignments (append_Explanation ns p) = Assignments p"
  "PipelineOrder (append_Explanation ns p) = PipelineOrder p"
  "Cost (append_Explanation ns p) = Cost p" "Estimated (append_Explanation ns p) = Estimated p"
  "Explanation (append_Explanation ns p) = Explanation p @ ns"
  "FailoverAlt (append_Explanation ns p) = FailoverAlt p"
  by (cases p; simp)+

lemma set_FailoverAlt_sel [simp]:
  "PlanID (set_FailoverAlt k v p) = PlanID p" "ModelID (set_FailoverAlt k v p) = ModelID p"
  "QuantizationName (set_FailoverAlt k v p) = QuantizationName p"
  "Assignments (set_FailoverAlt k v p) = Assignments p"
  "PipelineOrder (set_FailoverAlt k v p) = PipelineOrder p"
  "Cost (set_FailoverAlt k v p) = Cost p" "Estimated (set_FailoverAlt k v p) = Estimated p"
  "Explanation (set_FailoverAlt k v p) = Explanation p"
  "FailoverAlt (set_FailoverAlt k v p) = (FailoverAlt p)(k \<mapsto> v)"
  by (cases p; simp)+

section \<open>Errors\<close>

datatype culprit = CulpritPinAndCount | CulpritPin | CulpritCount int | CulpritPlan

datatype reason =
  NoNodesAfterFilter
| NoNodesInTeamPool nat
| ForceHostNotInPool string
| ModelDeclaresNoLayers string
| ModelDeclaresNoQuantizations string
| ForcedQuantNotOffered string string
| ForcedQuantDoesNotFit string
| ModelTooLarge string
| DoesNotFitUsefulMemory string string nat
| NoFeasiblePartition string string nat
| UnknownNode string
| MemoryViolated culprit int int string float64 float64 bool
| NoNodesAvailable
| FleetTooSmall nat int nat

record PlanError =
  Reason :: reason
  DeficitGB :: float64
  Suggestions :: "string list"

text \<open>
  Every error value the planner returns: the context's own error, a \<^verbatim>\<open>*PlanError\<close>, or the three
  \<^verbatim>\<open>fmt.Errorf\<close> wrappers of \<^verbatim>\<open>PlanReplicaSet\<close>.
\<close>

datatype plan_err =
  CtxErr
| PlanErr PlanError
| BadReplicaCount int
| ModelDoesNotFitFleet plan_err
| ReplicaFailed nat plan_err

end
