(* ===== verification/Capacity.thy ===== *)
theory Capacity
  imports PlanTypes
begin

text \<open>
  The sizing functions of \<^verbatim>\<open>src/go/planner/plan/plan.go\<close>: how much memory a node offers, how much a
  KV cache needs, and the performance estimate built on them.
\<close>

section \<open>Tuning constants\<close>

definition overheadOSRuntimeGB :: float64 where [plan_consts]: "overheadOSRuntimeGB = 2"
definition bytesFP16 :: float64 where [plan_consts]: "bytesFP16 = 2"
definition defaultHeadroomFraction :: float64 where [plan_consts]: "defaultHeadroomFraction = 10 / 100"
definition referenceMemBandwidthGBs :: float64 where [plan_consts]: "referenceMemBandwidthGBs = 100"
definition memBandwidthUtilFraction :: float64 where [plan_consts]: "memBandwidthUtilFraction = 70 / 100"
definition expectedAcceptedTokens :: float64 where [plan_consts]: "expectedAcceptedTokens = 45 / 10"
definition perfBandFraction :: float64 where [plan_consts]: "perfBandFraction = 30 / 100"
definition prefillComputeMultiple :: float64 where [plan_consts]: "prefillComputeMultiple = 8"
definition kvSsdOffloadFactor :: float64 where [plan_consts]: "kvSsdOffloadFactor = 50 / 100"
definition kvSsdOffloadMaxMultiplier :: float64 where [plan_consts]: "kvSsdOffloadMaxMultiplier = 2"
definition kvSsdReadBandwidthGBs :: float64 where [plan_consts]: "kvSsdReadBandwidthGBs = 6"

section \<open>KV cache\<close>

definition kvFactor :: "ModelSpec \<Rightarrow> float64" where
  "kvFactor model =
     (if KVCompressionRatio model > 0 \<and> KVCompressionRatio model \<le> 1 then KVCompressionRatio model
      else case attentionType model of
          AttentionMHA \<Rightarrow> 1
        | AttentionGQA \<Rightarrow> 1
        | AttentionMLA \<Rightarrow> 10 / 100
        | AttentionLinear \<Rightarrow> 1 / 100
        | AttentionUnspecified \<Rightarrow> 1)"

definition estimateKVCache :: "ModelSpec \<Rightarrow> int \<Rightarrow> float64" where
  "estimateKVCache model context =
     (if context \<le> 0 \<or> Layers model \<le> 0 \<or> NKVHeads model \<le> 0 \<or> HeadDim model \<le> 0 then 0
      else let base = 2 * of_int (Layers model) * of_int (NKVHeads model) * of_int (HeadDim model)
                        * of_int context * bytesFP16
           in base * kvFactor model / 10 ^ 9)"

definition kvCachePerNode :: "ModelSpec \<Rightarrow> int \<Rightarrow> int \<Rightarrow> float64" where
  "kvCachePerNode model layersOnNode context =
     (if Layers model \<le> 0 then 0
      else estimateKVCache model context * (of_int layersOnNode / of_int (Layers model)))"

definition kvCacheInMemory :: "ModelSpec \<Rightarrow> int \<Rightarrow> float64 \<Rightarrow> float64" where
  "kvCacheInMemory model contextLen prefixCachingFactor =
     (let full = estimateKVCache model contextLen
      in if prefixCachingFactor \<le> 0 \<or> prefixCachingFactor \<ge> 1 then full
         else full * (1 - prefixCachingFactor))"

section \<open>Memory and bandwidth of a node\<close>

definition minFloat :: "float64 \<Rightarrow> float64 \<Rightarrow> float64" where
  "minFloat a b = (if a < b then a else b)"

definition usefulMemory :: "Node \<Rightarrow> float64" where
  "usefulMemory n =
     (if UnifiedMemory n then RAMAvailableGB n
      else if VRAMGB n > 0 then minFloat (RAMAvailableGB n) (VRAMGB n)
      else RAMAvailableGB n)"

text \<open>The base of the SSD cap: VRAM where there is any, else the available RAM.\<close>

definition capBase :: "Node \<Rightarrow> float64" where
  "capBase n = (if VRAMGB n \<le> 0 then RAMAvailableGB n else VRAMGB n)"

definition usefulMemoryForFit :: "Node \<Rightarrow> float64" where
  "usefulMemoryForFit n =
     (let base = usefulMemory n
      in if \<not> KVSSDOffload n \<or> DiskFreeGB n \<le> 0 then base
         else let ssdContrib = kvSsdOffloadFactor * DiskFreeGB n;
                  maxContrib = kvSsdOffloadMaxMultiplier * capBase n - base;
                  ssdContrib = (if ssdContrib > maxContrib then maxContrib else ssdContrib)
              in if ssdContrib > 0 then base + ssdContrib else base)"

definition normalizeBandwidth :: "float64 \<Rightarrow> float64" where
  "normalizeBandwidth gbs = (if gbs \<le> 0 then 1 else gbs / referenceMemBandwidthGBs)"

definition usefulCapacity :: "Node \<Rightarrow> float64" where
  "usefulCapacity n = usefulMemory n * normalizeBandwidth (MemBandwidthGBs n)"

fun bestNodeLoop :: "Node \<Rightarrow> float64 \<Rightarrow> Node list \<Rightarrow> Node" where
  "bestNodeLoop best bestCap [] = best"
| "bestNodeLoop best bestCap (n # ns) =
     (let c = usefulCapacity n
      in if c > bestCap then bestNodeLoop n c ns else bestNodeLoop best bestCap ns)"

text \<open>\<^verbatim>\<open>nodes[0]\<close> panics on an empty slice.\<close>

fun bestNodeByCapacity :: "Node list \<Rightarrow> Node go" where
  "bestNodeByCapacity [] = None"
| "bestNodeByCapacity (n # ns) = Some (bestNodeLoop n (usefulCapacity n) ns)"

fun anyFP4 :: "Node list \<Rightarrow> bool" where
  "anyFP4 [] = False"
| "anyFP4 (n # ns) = (if FP4Native n then True else anyFP4 ns)"

fun lookupQuant :: "Quantization list \<Rightarrow> string \<Rightarrow> Quantization option" where
  "lookupQuant [] name = None"
| "lookupQuant (q # qs) name = (if qName q = name then Some q else lookupQuant qs name)"

definition sanitizeID :: "string \<Rightarrow> string" where
  "sanitizeID s = map (\<lambda>c. if c \<in> {CHR ''/'', CHR '' '', CHR '':''} then CHR ''-'' else c) s"

definition newPlanID :: "string \<Rightarrow> string \<Rightarrow> string" where
  "newPlanID mID nID = ''plan-'' @ sanitizeID mID @ ''-'' @ sanitizeID nID"

section \<open>Performance estimate\<close>

definition estimatePerformance :: "float64 \<Rightarrow> float64 \<Rightarrow> ModelSpec \<Rightarrow> Node \<Rightarrow> PerfEstimate" where
  "estimatePerformance bottleneckSecPerTok headroom model n =
     (let decode = (if bottleneckSecPerTok > 0 \<and> memBandwidthUtilFraction > 0
                    then 1 / (bottleneckSecPerTok / memBandwidthUtilFraction) else 0);
          decode = (if Available (Draft model) then decode * expectedAcceptedTokens else decode);
          prefill = decode * prefillComputeMultiple;
          prefill = (if PrefixCachingFactor n > 0 \<and> PrefixCachingFactor n < 1
                     then prefill / (1 - PrefixCachingFactor n) else prefill);
          effectiveHeadroom =
            (if KVSSDOffload n \<and> DiskFreeGB n > 0
             then let ssdContrib = kvSsdOffloadFactor * DiskFreeGB n;
                      maxSSD = kvSsdOffloadMaxMultiplier * capBase n;
                      ssdContrib = (if ssdContrib > maxSSD then maxSSD else ssdContrib)
                  in headroom + ssdContrib
             else headroom)
      in \<lparr>DecodeTokSMin = decode * (1 - perfBandFraction), DecodeTokSMax = decode * (1 + perfBandFraction),
          PrefillTokSMin = prefill * (1 - perfBandFraction), PrefillTokSMax = prefill * (1 + perfBandFraction),
          HeadroomGB = effectiveHeadroom\<rparr>)"

section \<open>Facts about sizes\<close>

lemma kvFactor_bounds: "0 < kvFactor model" "kvFactor model \<le> 1"
  by (auto simp: kvFactor_def split: AttentionType.splits)

lemma estimateKVCache_nonneg [simp]: "0 \<le> estimateKVCache model context"
  using kvFactor_bounds(1) [of model] by (simp add: estimateKVCache_def plan_consts)

lemma kvCachePerNode_nonneg: "0 \<le> n \<Longrightarrow> 0 \<le> kvCachePerNode model n context"
  by (simp add: kvCachePerNode_def)

lemma kvCachePerNode_mono: "a \<le> b \<Longrightarrow> kvCachePerNode model a context \<le> kvCachePerNode model b context"
  by (auto simp: kvCachePerNode_def intro!: mult_left_mono divide_right_mono)

lemma kvCachePerNode_add:
  "kvCachePerNode model (a + b) context = kvCachePerNode model a context + kvCachePerNode model b context"
  by (simp add: kvCachePerNode_def add_divide_distrib distrib_left)

lemma kvCachePerNode_all: "0 < Layers model \<Longrightarrow> kvCachePerNode model (Layers model) context = estimateKVCache model context"
  by (simp add: kvCachePerNode_def)

lemma kvCacheInMemory_le: "kvCacheInMemory model context f \<le> estimateKVCache model context"
proof -
  have "e * (1 - f) \<le> e" if "0 < f" "0 \<le> e" for e f :: float64
    using that mult_left_mono [of "1 - f" 1 e] by simp
  then show ?thesis by (simp add: kvCacheInMemory_def Let_def not_le)
qed

lemma usefulMemory_le_RAM: "usefulMemory n \<le> RAMAvailableGB n"
  by (simp add: usefulMemory_def minFloat_def)

lemma usefulMemoryForFit_ge: "usefulMemory n \<le> usefulMemoryForFit n"
  by (simp add: usefulMemoryForFit_def Let_def)

lemma usefulMemoryForFit_cap: "usefulMemoryForFit n \<le> max (usefulMemory n) (2 * capBase n)"
  by (simp add: usefulMemoryForFit_def Let_def plan_consts)

lemma lookupQuant_SomeD: "lookupQuant qs name = Some q \<Longrightarrow> q \<in> set qs \<and> qName q = name"
  by (induction qs) (auto split: if_splits)

lemma anyFP4_iff: "anyFP4 ns \<longleftrightarrow> (\<exists>n \<in> set ns. FP4Native n)"
  by (induction ns) auto

end
