(* ===== verification/Examples.thy ===== *)
theory Examples
  imports Capacity
begin

text \<open>
  A small concrete fleet and model: the inputs at which the hypotheses of the planner's theorems are
  shown to be satisfiable.
\<close>

definition exNode :: "string \<Rightarrow> float64 \<Rightarrow> Node" where
  "exNode i ram = zeroNode\<lparr>nodeID := i, RAMTotalGB := ram, RAMAvailableGB := ram, MemBandwidthGBs := 100\<rparr>"

definition exLink :: "string \<Rightarrow> string \<Rightarrow> float64 \<Rightarrow> Link" where
  "exLink a b rtt = \<lparr>From = a, To = b, RTTms = rtt, BandwidthGBs = 1\<rparr>"

definition exQuant :: "string \<Rightarrow> float64 \<Rightarrow> Quantization" where
  "exQuant name sz = \<lparr>qName = name, SizeGB = sz, RequiresFP4 = False, Quality = 9 / 10, EmulatedFP4 = False\<rparr>"

definition exModel :: ModelSpec where
  "exModel = \<lparr>modelID = ''m'', IsMoE = False, Layers = 4, ParamsTotalB = 10, ParamsActiveB = 10,
     HiddenSize = 1000, NKVHeads = 8, HeadDim = 125, attentionType = AttentionGQA, ContextMax = 1000,
     Quantizations = [exQuant ''q8'' 20, exQuant ''q4'' 8],
     Draft = \<lparr>Available = True, draftType = ''mtp'', TailLayers = 1\<rparr>, KVCompressionRatio = 0\<rparr>"

definition noConstraints :: Constraints where
  "noConstraints = \<lparr>Pinned = [], IncludeNodes = [], ExcludeNodes = [], ForceNodeCount = None,
     ForceQuant = None, ForceHost = None, QualityWeightBias = 0, mode = ModeAuto, ReplicaCount = 0,
     AllowedNodeIDs = []\<rparr>"

lemmas example_defs = exNode_def exLink_def exQuant_def exModel_def noConstraints_def zeroNode_def

end
