(* ===== verification/Partition.thy ===== *)
theory Partition
  imports Capacity Examples
begin

text \<open>
  Phase C of the planner, from \<^verbatim>\<open>src/go/planner/plan/partition.go\<close>: the stage-time model and
  the dynamic program \<open>dpPartition\<close> that splits the layer chain into contiguous shards.

  The tables \<^verbatim>\<open>dp\<close> and \<^verbatim>\<open>cut\<close> are functions of their two indices, updated pointwise; the loops
  keep the source's order, its \<^verbatim>\<open>continue\<close> and its \<^verbatim>\<open>break\<close>. The reference is the set of all
  strictly increasing lists of cut points: the program returns one of least bottleneck, and
  fails exactly when none is feasible. The proof is carried out in the locale \<open>stage_model\<close>,
  whose only law is the one the source's \<^verbatim>\<open>break\<close> relies on.
\<close>

section \<open>Links\<close>

definition activationBytes :: "ModelSpec \<Rightarrow> float64" where
  "activationBytes model = of_int (HiddenSize model) * bytesFP16"

fun lookupLink :: "Link list \<Rightarrow> string \<Rightarrow> string \<Rightarrow> Link option" where
  "lookupLink [] f t = None"
| "lookupLink (l # ls) f t = (if From l = f \<and> To l = t then Some l else lookupLink ls f t)"

type_synonym LinkIndex = "string \<times> string \<rightharpoonup> Link"

definition buildLinkIndex :: "Link list \<Rightarrow> LinkIndex" where
  "buildLinkIndex links = map_by (\<lambda>l. (From l, To l)) (\<lambda>l. l) links"

definition LinkIndex_lookup :: "LinkIndex \<Rightarrow> string \<Rightarrow> string \<Rightarrow> Link option" where
  "LinkIndex_lookup idx f t = idx (f, t)"

section \<open>The stage-time model\<close>

definition effectiveBandwidth :: "Node \<Rightarrow> float64 \<Rightarrow> float64 \<Rightarrow> float64" where
  "effectiveBandwidth n shardWeightBytes shardKVBytes =
     (let vramBW = (if MemBandwidthGBs n \<le> 0 then referenceMemBandwidthGBs else MemBandwidthGBs n);
          vramBytes = VRAMGB n * 10 ^ 9;
          totalBytes = shardWeightBytes + shardKVBytes
      in if \<not> KVSSDOffload n \<or> vramBytes \<le> 0 \<or> totalBytes \<le> vramBytes then vramBW
         else let ssdBytes = min (totalBytes - vramBytes) shardKVBytes;
                  vramServed = totalBytes - ssdBytes;
                  vramFrac = vramServed / totalBytes;
                  ssdFrac = ssdBytes / totalBytes
              in 1 / (vramFrac / vramBW + ssdFrac / kvSsdReadBandwidthGBs))"

definition commTime :: "ModelSpec \<Rightarrow> Link option \<Rightarrow> float64" where
  "commTime model link =
     (case link of
        None \<Rightarrow> 0
      | Some l \<Rightarrow>
          let t = RTTms l / 1000
          in if BandwidthGBs l > 0 then t + activationBytes model / (BandwidthGBs l * 10 ^ 9) else t)"

definition computeTime :: "Node \<Rightarrow> ModelSpec \<Rightarrow> Quantization \<Rightarrow> int \<Rightarrow> int \<Rightarrow> float64" where
  "computeTime n model quant i j =
     (if Layers model \<le> 0 then 0
      else let nLayers = of_int (j - i);
               activeFraction = (if ParamsTotalB model > 0 \<and> ParamsActiveB model > 0
                                 then ParamsActiveB model / ParamsTotalB model else 1);
               activeWeightBytes = SizeGB quant * 10 ^ 9 * activeFraction * nLayers / of_int (Layers model);
               shardWeightBytes = SizeGB quant * 10 ^ 9 * nLayers / of_int (Layers model);
               shardKVBytes = kvCachePerNode model (j - i) (ContextMax model) * 10 ^ 9;
               bw = effectiveBandwidth n shardWeightBytes shardKVBytes
           in activeWeightBytes / (bw * 10 ^ 9))"

definition stageMemNeed :: "ModelSpec \<Rightarrow> Quantization \<Rightarrow> int \<Rightarrow> int \<Rightarrow> int \<Rightarrow> float64" where
  "stageMemNeed model quant i j context =
     (if Layers model \<le> 0 then 0
      else let nLayers = j - i;
               weight = SizeGB quant * of_int nLayers / of_int (Layers model);
               kv = kvCachePerNode model nLayers context
           in weight + kv + overheadOSRuntimeGB)"

definition stageFits :: "Node \<Rightarrow> ModelSpec \<Rightarrow> Quantization \<Rightarrow> int \<Rightarrow> int \<Rightarrow> int \<Rightarrow> bool" where
  "stageFits n model quant i j context \<longleftrightarrow>
     stageMemNeed model quant i j context \<le> usefulMemoryForFit n * (1 - defaultHeadroomFraction)"

text \<open>Stages are numbered from 1; \<open>order ! (m - 1)\<close> serves stage \<open>m\<close>. Every caller passes
  \<open>1 \<le> m \<le> length order\<close>.\<close>

definition stageTimeAt ::
  "Node list \<Rightarrow> nat \<Rightarrow> nat \<Rightarrow> nat \<Rightarrow> Link list \<Rightarrow> ModelSpec \<Rightarrow> Quantization \<Rightarrow> int \<Rightarrow> float64 ext" where
  "stageTimeAt order m i j links model quant context =
     (let node = order ! (m - 1)
      in if \<not> stageFits node model quant (int i) (int j) context then PInf
         else let ct = (if m \<ge> 2
                        then commTime model (lookupLink links (nodeID (order ! (m - 2))) (nodeID (order ! (m - 1))))
                        else 0)
              in Fin (computeTime node model quant (int i) (int j) + ct))"

definition stageTimeAtIdx ::
  "Node list \<Rightarrow> nat \<Rightarrow> nat \<Rightarrow> nat \<Rightarrow> LinkIndex \<Rightarrow> ModelSpec \<Rightarrow> Quantization \<Rightarrow> int \<Rightarrow> float64 ext" where
  "stageTimeAtIdx order m i j idx model quant context =
     (let node = order ! (m - 1)
      in if \<not> stageFits node model quant (int i) (int j) context then PInf
         else let ct = (if m \<ge> 2
                        then commTime model (LinkIndex_lookup idx (nodeID (order ! (m - 2))) (nodeID (order ! (m - 1))))
                        else 0)
              in Fin (computeTime node model quant (int i) (int j) + ct))"

section \<open>The dynamic program\<close>

type_synonym 'a dp_state = "(nat \<Rightarrow> nat \<Rightarrow> 'a ext) \<times> (nat \<Rightarrow> nat \<Rightarrow> int)"

definition dpInit :: "'a::zero dp_state" where
  "dpInit = ((\<lambda>i m. if i = 0 \<and> m = 0 then Fin 0 else PInf), (\<lambda>i m. - 1))"

text \<open>The loop over \<open>j\<close>, with the \<^verbatim>\<open>break\<close> at the first shard that does not fit.\<close>

fun dpInner :: "(nat \<Rightarrow> nat \<Rightarrow> nat \<Rightarrow> 'a::linorder ext) \<Rightarrow> nat \<Rightarrow> nat \<Rightarrow> nat list \<Rightarrow> 'a dp_state \<Rightarrow> 'a dp_state" where
  "dpInner stage m i [] (dp, cutT) = (dp, cutT)"
| "dpInner stage m i (j # js) (dp, cutT) =
     (let st = stage m i j
      in if st = PInf then (dp, cutT)
         else let bottleneck = max (dp i (m - 1)) st
              in if bottleneck < dp j m
                 then dpInner stage m i js (dp(j := (dp j)(m := bottleneck)), cutT(j := (cutT j)(m := int i)))
                 else dpInner stage m i js (dp, cutT))"

text \<open>The loop over \<open>i\<close>, which skips the unreachable rows.\<close>

fun dpMiddle :: "(nat \<Rightarrow> nat \<Rightarrow> nat \<Rightarrow> 'a::linorder ext) \<Rightarrow> nat \<Rightarrow> nat \<Rightarrow> nat list \<Rightarrow> 'a dp_state \<Rightarrow> 'a dp_state" where
  "dpMiddle stage L m [] s = s"
| "dpMiddle stage L m (i # is) s =
     (if fst s i (m - 1) = PInf then dpMiddle stage L m is s
      else dpMiddle stage L m is (dpInner stage m i [i + 1..<L + 1] s))"

fun dpOuter :: "(nat \<Rightarrow> nat \<Rightarrow> nat \<Rightarrow> 'a::linorder ext) \<Rightarrow> nat \<Rightarrow> nat list \<Rightarrow> 'a dp_state \<Rightarrow> 'a dp_state" where
  "dpOuter stage L [] s = s"
| "dpOuter stage L (m # ms) s = dpOuter stage L ms (dpMiddle stage L m [0..<L + 1] s)"

text \<open>The final scan for the cheapest number of stages.\<close>

fun dpBest :: "(nat \<Rightarrow> nat \<Rightarrow> 'a::linorder ext) \<Rightarrow> nat \<Rightarrow> nat list \<Rightarrow> int \<times> 'a ext \<Rightarrow> int \<times> 'a ext" where
  "dpBest dp L [] b = b"
| "dpBest dp L (m # ms) (bestM, best) =
     (if dp L m < best then dpBest dp L ms (int m, dp L m) else dpBest dp L ms (bestM, best))"

text \<open>
  The walk of \<open>reconstructCuts\<close>: \<open>cutWalk cutT L m j\<close> is the slice \<^verbatim>\<open>starts[0..m]\<close> when the loop
  has reached stage \<open>m\<close> with the value \<open>j\<close>. Reading \<^verbatim>\<open>cut[j]\<close> panics outside \<open>0..L\<close>.
\<close>

fun cutWalk :: "(nat \<Rightarrow> nat \<Rightarrow> int) \<Rightarrow> nat \<Rightarrow> nat \<Rightarrow> int \<Rightarrow> int list go" where
  "cutWalk cutT L 0 j = Some [j]"
| "cutWalk cutT L (Suc m) j =
     (if 0 \<le> j \<and> j \<le> int L
      then map_option (\<lambda>starts. starts @ [j]) (cutWalk cutT L m (cutT (nat j) (Suc m)))
      else None)"

definition shardOf :: "Node list \<Rightarrow> int list \<Rightarrow> nat \<Rightarrow> Assignment list" where
  "shardOf order starts m =
     (let start = starts ! (m - 1); end = starts ! m
      in if end \<le> start then []
         else [\<lparr>aNodeID = nodeID (order ! (m - 1)), aRole = (if m = 1 then RoleHost else RoleWorker),
                LayerStart = start, LayerEnd = end - 1, aDraft = False\<rparr>])"

definition reconstructCuts :: "(nat \<Rightarrow> nat \<Rightarrow> int) \<Rightarrow> nat \<Rightarrow> nat \<Rightarrow> Node list \<Rightarrow> Assignment list go" where
  "reconstructCuts cutT L usedM order =
     map_option (\<lambda>starts. concat (map (shardOf order starts) [1..<usedM + 1])) (cutWalk cutT L usedM (int L))"

text \<open>The tables have \<^verbatim>\<open>L+1\<close> rows; with a negative \<^verbatim>\<open>L\<close> their allocation, or the write to
  \<^verbatim>\<open>dp[0][0]\<close>, panics.\<close>

definition dpPartition ::
  "Node list \<Rightarrow> Link list \<Rightarrow> ModelSpec \<Rightarrow> Quantization \<Rightarrow> int \<Rightarrow> (Assignment list \<times> float64 ext) go" where
  "dpPartition order links model quant context =
     (if Layers model < 0 then None
      else let L = nat (Layers model);
          M = length order;
          idx = buildLinkIndex links;
          (dp, cutT) = dpOuter (\<lambda>m i j. stageTimeAtIdx order m i j idx model quant context) L [1..<M + 1] dpInit;
          (bestM, best) = dpBest dp L [1..<M + 1] (- 1, PInf)
      in if bestM = - 1 \<or> best = PInf then Some ([], PInf)
         else map_option (\<lambda>as. (as, best)) (reconstructCuts cutT L (nat bestM) order))"

section \<open>Reference: all contiguous partitions\<close>

text \<open>
  A partition of the layers \<open>0 ..< L\<close> into stages is the list of the stages' end points, strictly
  increasing from 0 to \<open>L\<close>; its bottleneck is the greatest stage time (at least 0, the value of
  \<^verbatim>\<open>dp[0][0]\<close>). \<open>shards\<close> are the assignments a cut list stands for, \<open>covers\<close> says that a list of
  assignments is a contiguous cover.
\<close>

fun cutsFrom :: "nat \<Rightarrow> nat list \<Rightarrow> nat \<Rightarrow> bool" where
  "cutsFrom i [] L \<longleftrightarrow> i = L"
| "cutsFrom i (c # cs) L \<longleftrightarrow> i < c \<and> cutsFrom c cs L"

definition is_cuts :: "nat list \<Rightarrow> nat \<Rightarrow> bool" where
  "is_cuts cs L \<longleftrightarrow> cutsFrom 0 cs L"

fun bottleneckFrom :: "(nat \<Rightarrow> nat \<Rightarrow> nat \<Rightarrow> 'a::linorder ext) \<Rightarrow> 'a ext \<Rightarrow> nat \<Rightarrow> nat \<Rightarrow> nat list \<Rightarrow> 'a ext" where
  "bottleneckFrom stage b m i [] = b"
| "bottleneckFrom stage b m i (c # cs) = bottleneckFrom stage (max b (stage m i c)) (Suc m) c cs"

definition bottleneck :: "(nat \<Rightarrow> nat \<Rightarrow> nat \<Rightarrow> 'a::{linorder,zero} ext) \<Rightarrow> nat list \<Rightarrow> 'a ext" where
  "bottleneck stage cs = bottleneckFrom stage (Fin 0) 1 0 cs"

definition shards :: "Node list \<Rightarrow> nat list \<Rightarrow> Assignment list" where
  "shards order cs = map (\<lambda>k. \<lparr>aNodeID = nodeID (order ! k), aRole = (if k = 0 then RoleHost else RoleWorker),
     LayerStart = int ((0 # cs) ! k), LayerEnd = int (cs ! k) - 1, aDraft = False\<rparr>) [0..<length cs]"

fun covers :: "int \<Rightarrow> int \<Rightarrow> Assignment list \<Rightarrow> bool" where
  "covers s e [] \<longleftrightarrow> s = e"
| "covers s e (a # as) \<longleftrightarrow> LayerStart a = s \<and> s \<le> LayerEnd a \<and> covers (LayerEnd a + 1) e as"

text \<open>The stage times the dynamic program runs on.\<close>

abbreviation stageTimes :: "Node list \<Rightarrow> Link list \<Rightarrow> ModelSpec \<Rightarrow> Quantization \<Rightarrow> int \<Rightarrow> nat \<Rightarrow> nat \<Rightarrow> nat \<Rightarrow> float64 ext" where
  "stageTimes order links model quant ctxLen \<equiv>
     (\<lambda>m i j. stageTimeAtIdx order m i j (buildLinkIndex links) model quant ctxLen)"

definition stageOf :: "Node list \<times> LinkIndex \<times> ModelSpec \<times> Quantization \<times> int \<Rightarrow> nat \<Rightarrow> nat \<Rightarrow> nat \<Rightarrow> float64 ext" where
  "stageOf = (\<lambda>(order, idx, model, quant, ctxLen) m i j. stageTimeAtIdx order m i j idx model quant ctxLen)"

text \<open>
  What the loops maintain: \<open>relaxRow\<close> is the effect of one row without the \<^verbatim>\<open>break\<close>; \<open>column\<close> says
  that column \<open>m + 1\<close> is the minimum over the rows \<open>< k\<close> of column \<open>m\<close>, with \<^verbatim>\<open>cut\<close> pointing
  at a row that attains it; \<open>tables\<close> says so of all columns.
\<close>

definition column :: "(nat \<Rightarrow> nat \<Rightarrow> nat \<Rightarrow> 'a::linorder ext) \<Rightarrow> nat \<Rightarrow> nat \<Rightarrow> nat \<Rightarrow> 'a dp_state \<Rightarrow> bool" where
  "column stage L k m s \<longleftrightarrow>
     (\<forall>x \<le> L. (\<forall>i < x. i < k \<longrightarrow> fst s x (Suc m) \<le> max (fst s i m) (stage (Suc m) i x)) \<and>
        (fst s x (Suc m) \<noteq> PInf \<longrightarrow>
           (\<exists>i < x. snd s x (Suc m) = int i \<and> fst s x (Suc m) = max (fst s i m) (stage (Suc m) i x))))"

definition relaxRow :: "(nat \<Rightarrow> nat \<Rightarrow> nat \<Rightarrow> 'a::linorder ext) \<Rightarrow> nat \<Rightarrow> nat \<Rightarrow> nat \<Rightarrow> 'a dp_state \<Rightarrow> 'a dp_state" where
  "relaxRow stage L m i s =
     ((\<lambda>x c. if c = Suc m \<and> i < x \<and> x \<le> L then min (fst s x c) (max (fst s i m) (stage c i x)) else fst s x c),
      (\<lambda>x c. if c = Suc m \<and> i < x \<and> x \<le> L \<and> max (fst s i m) (stage c i x) < fst s x c then int i
             else snd s x c))"

definition tables :: "(nat \<Rightarrow> nat \<Rightarrow> nat \<Rightarrow> 'a::{linorder,zero} ext) \<Rightarrow> nat \<Rightarrow> nat \<Rightarrow> 'a dp_state \<Rightarrow> bool" where
  "tables stage L M s \<longleftrightarrow>
     (\<forall>x. fst s x 0 = (if x = 0 then Fin 0 else PInf)) \<and> (\<forall>m < M. column stage L (Suc L) m s)"

section \<open>Correctness of the dynamic program\<close>

lemma bottleneckFrom_snoc:
  "bottleneckFrom stage b m i (cs @ [c]) =
     max (bottleneckFrom stage b m i cs) (stage (m + length cs) (last (i # cs)) c)"
  by (induction cs arbitrary: b m i) auto

lemma bottleneck_simps [simp]:
  "bottleneck stage [] = Fin 0"
  "bottleneck stage (cs @ [c]) = max (bottleneck stage cs) (stage (Suc (length cs)) (last (0 # cs)) c)"
  by (simp_all add: bottleneck_def bottleneckFrom_snoc)

lemma cutsFrom_snoc:
  "cutsFrom i (cs @ [c]) L \<longleftrightarrow> c = L \<and> cutsFrom i cs (last (i # cs)) \<and> last (i # cs) < c"
  by (induction cs arbitrary: i) auto

lemma is_cuts_simps [simp]:
  "is_cuts [] L \<longleftrightarrow> L = 0"
  "is_cuts (cs @ [c]) L \<longleftrightarrow> c = L \<and> is_cuts cs (last (0 # cs)) \<and> last (0 # cs) < c"
  by (auto simp: is_cuts_def cutsFrom_snoc)

lemma is_cuts_length_Suc: "is_cuts cs i \<Longrightarrow> length cs = Suc m \<Longrightarrow>
   \<exists>cs' i'. cs = cs' @ [i] \<and> length cs' = m \<and> is_cuts cs' i' \<and> i' = last (0 # cs') \<and> i' < i"
  by (cases cs rule: rev_cases) auto

lemma relaxRow_frame:
  "c \<noteq> Suc m \<Longrightarrow> fst (relaxRow stage L m i s) x c = fst s x c"
  "c \<noteq> Suc m \<Longrightarrow> snd (relaxRow stage L m i s) x c = snd s x c"
  by (auto simp: relaxRow_def)

lemma column_relaxRow:
  "column stage L k m s \<Longrightarrow> column stage L (Suc k) m (relaxRow stage L m k s)"
  unfolding column_def
proof (intro allI impI conjI)
  fix x i
  assume col: "\<forall>x\<le>L. (\<forall>i<x. i < k \<longrightarrow> fst s x (Suc m) \<le> max (fst s i m) (stage (Suc m) i x)) \<and>
      (fst s x (Suc m) \<noteq> PInf \<longrightarrow>
         (\<exists>i<x. snd s x (Suc m) = int i \<and> fst s x (Suc m) = max (fst s i m) (stage (Suc m) i x)))"
    and x: "x \<le> L"
  show "fst (relaxRow stage L m k s) x (Suc m) \<le> max (fst (relaxRow stage L m k s) i m) (stage (Suc m) i x)"
    if "i < x" "i < Suc k"
  proof (cases "i = k")
    case True
    with that x show ?thesis by (simp add: relaxRow_def)
  next
    case False
    with that x col have "fst s x (Suc m) \<le> max (fst s i m) (stage (Suc m) i x)" by simp
    then show ?thesis by (auto simp: relaxRow_def intro: min.coboundedI1)
  qed
  show "\<exists>i<x. snd (relaxRow stage L m k s) x (Suc m) = int i \<and>
      fst (relaxRow stage L m k s) x (Suc m) = max (fst (relaxRow stage L m k s) i m) (stage (Suc m) i x)"
    if "fst (relaxRow stage L m k s) x (Suc m) \<noteq> PInf"
  proof (cases "k < x \<and> max (fst s k m) (stage (Suc m) k x) < fst s x (Suc m)")
    case True
    with x show ?thesis by (intro exI [of _ k]) (simp add: relaxRow_def min.absorb2 less_imp_le del: max_less_iff_conj)
  next
    case False
    then have "fst (relaxRow stage L m k s) x (Suc m) = fst s x (Suc m) \<and>
        snd (relaxRow stage L m k s) x (Suc m) = snd s x (Suc m)"
      by (auto simp: relaxRow_def min.absorb1 not_less simp del: max_less_iff_conj)
    with that x col show ?thesis by (auto simp: relaxRow_frame)
  qed
qed

lemma tables_complete:
  "tables stage L M s \<Longrightarrow> is_cuts cs x \<Longrightarrow> x \<le> L \<Longrightarrow> length cs \<le> M \<Longrightarrow> fst s x (length cs) \<le> bottleneck stage cs"
proof (induction cs arbitrary: x rule: rev_induct)
  case Nil
  then show ?case by (simp add: tables_def)
next
  case (snoc c cs)
  let ?i = "last (0 # cs)"
  have i: "is_cuts cs ?i" "?i < x" "?i \<le> L" "c = x" using snoc.prems by auto
  have "column stage L (Suc L) (length cs) s" using snoc.prems by (simp add: tables_def)
  then have "fst s x (Suc (length cs)) \<le> max (fst s ?i (length cs)) (stage (Suc (length cs)) ?i x)"
    using i snoc.prems(3) by (auto simp: column_def simp del: last.simps)
  moreover have "fst s ?i (length cs) \<le> bottleneck stage cs"
    using snoc.IH [OF snoc.prems(1) i(1,3)] snoc.prems(4) by simp
  ultimately show ?case
    using i(4) by (auto intro: order.trans max.mono simp del: last.simps)
qed

lemma tables_sound:
  "tables stage L M s \<Longrightarrow> x \<le> L \<Longrightarrow> m \<le> M \<Longrightarrow> fst s x m \<noteq> PInf \<Longrightarrow>
   \<exists>cs. is_cuts cs x \<and> length cs = m \<and> bottleneck stage cs = fst s x m \<and>
        cutWalk (snd s) L m (int x) = Some (map int (0 # cs))"
proof (induction m arbitrary: x)
  case 0
  then show ?case by (intro exI [of _ "[]"]) (auto simp: tables_def split: if_splits)
next
  case (Suc m)
  then have "column stage L (Suc L) m s" by (simp add: tables_def)
  then obtain i where i: "i < x" "snd s x (Suc m) = int i"
      "fst s x (Suc m) = max (fst s i m) (stage (Suc m) i x)"
    using Suc.prems by (auto simp: column_def)
  have "fst s i m \<noteq> PInf" using i(3) Suc.prems(4) by auto
  with Suc.prems i(1) obtain cs where cs: "is_cuts cs i" "length cs = m" "bottleneck stage cs = fst s i m"
      "cutWalk (snd s) L m (int i) = Some (map int (0 # cs))"
    using Suc.IH [of i] by auto
  have "last (0 # cs) = i" using cs(1) by (cases cs rule: rev_cases) auto
  with i cs Suc.prems show ?case
    by (intro exI [of _ "cs @ [x]"]) (auto simp del: last.simps)
qed

lemma dpBest_cases:
  "dpBest dp L ms (m0, b0) = (bestM, best) \<Longrightarrow>
   best \<le> b0 \<and> (\<forall>m \<in> set ms. best \<le> dp L m) \<and>
   ((bestM, best) = (m0, b0) \<or> (\<exists>m \<in> set ms. bestM = int m \<and> best = dp L m \<and> best < b0))"
proof (induction ms arbitrary: m0 b0)
  case Nil
  then show ?case by simp
next
  case (Cons m ms)
  then show ?case by (fastforce split: if_splits)
qed

locale stage_model =
  fixes stage :: "'p \<Rightarrow> nat \<Rightarrow> nat \<Rightarrow> nat \<Rightarrow> 'a::{linorder,zero} ext"
    and valid :: "'p \<Rightarrow> bool"
  assumes stage_overflow: "valid p \<Longrightarrow> stage p m i j = PInf \<Longrightarrow> j \<le> j' \<Longrightarrow> stage p m i j' = PInf"
begin

text \<open>The \<^verbatim>\<open>break\<close> is invisible: the loop relaxes every entry of the row.\<close>

lemma dpInner_eq:
  assumes "valid p" and "sorted_wrt (<) js"
  shows "dpInner (stage p) (Suc m) i js (dp, cutT) =
     ((\<lambda>x c. if c = Suc m \<and> x \<in> set js then min (dp x c) (max (dp i m) (stage p c i x)) else dp x c),
      (\<lambda>x c. if c = Suc m \<and> x \<in> set js \<and> max (dp i m) (stage p c i x) < dp x c then int i else cutT x c))"
  using assms(2)
proof (induction js arbitrary: dp cutT)
  case Nil
  then show ?case by simp
next
  case (Cons j js)
  show ?case
  proof (cases "stage p (Suc m) i j = PInf")
    case True
    then have "stage p (Suc m) i x = PInf" if "x \<in> set (j # js)" for x
      using stage_overflow [OF assms(1)] Cons.prems that by (auto intro: less_imp_le)
    with True show ?thesis by (auto simp: fun_eq_iff min_def)
  next
    case False
    have js: "sorted_wrt (<) js" "j \<notin> set js" using Cons.prems by auto
    show ?thesis
    proof (cases "max (dp i m) (stage p (Suc m) i j) < dp j (Suc m)")
      case True
      with False js show ?thesis by (auto simp: Let_def Cons.IH fun_eq_iff)
    next
      case ge: False
      then have "dp j (Suc m) = min (dp j (Suc m)) (max (dp i m) (stage p (Suc m) i j))"
        by (simp only: not_less min.absorb1)
      with False js ge show ?thesis by (auto simp: Let_def Cons.IH fun_eq_iff)
    qed
  qed
qed

lemma dpInner_row:
  "valid p \<Longrightarrow> dpInner (stage p) (Suc m) i [Suc i..<Suc L] s = relaxRow (stage p) L m i s"
  by (cases s, simp only: dpInner_eq sorted_wrt_upt)
    (auto simp: fun_eq_iff relaxRow_def simp del: upt_Suc)

lemma dpMiddle_Cons:
  assumes "valid p"
  shows "dpMiddle (stage p) L (Suc m) (i # is) s = dpMiddle (stage p) L (Suc m) is (relaxRow (stage p) L m i s)"
proof (cases "fst s i m = PInf")
  case True
  then have "relaxRow (stage p) L m i s = s" by (auto simp: relaxRow_def fun_eq_iff min_def prod_eq_iff)
  with True show ?thesis by simp
next
  case False
  then show ?thesis by (simp add: dpInner_row [OF assms(1)] del: upt_Suc)
qed

lemma dpMiddle_column:
  assumes "valid p"
  shows "k \<le> Suc L \<Longrightarrow> column (stage p) L k m s \<Longrightarrow>
    column (stage p) L (Suc L) m (dpMiddle (stage p) L (Suc m) [k..<Suc L] s) \<and>
    (\<forall>x c. c \<noteq> Suc m \<longrightarrow> fst (dpMiddle (stage p) L (Suc m) [k..<Suc L] s) x c = fst s x c
                 \<and> snd (dpMiddle (stage p) L (Suc m) [k..<Suc L] s) x c = snd s x c)"
proof (induction "Suc L - k" arbitrary: k s)
  case 0
  then show ?case by simp
next
  case (Suc d)
  have d: "d = Suc L - Suc k" "Suc k \<le> Suc L" "k < Suc L" using Suc.hyps(2) by auto
  show ?case
    using Suc.hyps(1) [OF d(1,2) column_relaxRow [OF Suc.prems(2)]]
    by (simp add: upt_conv_Cons [OF d(3)] dpMiddle_Cons [OF assms] relaxRow_frame del: upt_Suc dpMiddle.simps)
qed

lemma dpOuter_tables:
  assumes "valid p"
  shows "k \<le> M \<Longrightarrow> tables (stage p) L k s \<Longrightarrow> (\<forall>x. \<forall>m > k. fst s x m = PInf) \<Longrightarrow>
    tables (stage p) L M (dpOuter (stage p) L [Suc k..<Suc M] s)"
proof (induction "M - k" arbitrary: k s)
  case 0
  then show ?case by simp
next
  case (Suc d)
  let ?s' = "dpMiddle (stage p) L (Suc k) [0..<Suc L] s"
  have "column (stage p) L 0 k s" using Suc.prems(3) by (simp add: column_def)
  then have col: "column (stage p) L (Suc L) k ?s'"
    and fr: "\<And>x c. c \<noteq> Suc k \<Longrightarrow> fst ?s' x c = fst s x c \<and> snd ?s' x c = snd s x c"
    using dpMiddle_column [OF assms, of 0 L k s] by simp_all
  have "column (stage p) L (Suc L) m ?s'" if "m < Suc k" for m
  proof (cases "m = k")
    case True
    with col show ?thesis by simp
  next
    case False
    then have "column (stage p) L (Suc L) m s" using that Suc.prems(2) by (simp add: tables_def)
    then show ?thesis using False that fr by (simp add: column_def)
  qed
  then have "tables (stage p) L (Suc k) ?s'" using Suc.prems(2) fr by (simp add: tables_def)
  moreover have "\<forall>x. \<forall>m > Suc k. fst ?s' x m = PInf" using Suc.prems(3) fr by simp
  moreover have d: "d = M - Suc k" "Suc k \<le> M" using Suc.hyps(2) by auto
  ultimately have "tables (stage p) L M (dpOuter (stage p) L [Suc (Suc k)..<Suc M] ?s')"
    using Suc.hyps(1) by blast
  then show ?case using d(2) by (simp add: upt_conv_Cons [of "Suc k"] del: upt_Suc)
qed

lemma dpInit_tables: "valid p \<Longrightarrow> tables (stage p) L M (dpOuter (stage p) L [Suc 0..<Suc M] dpInit)"
  by (rule dpOuter_tables) (auto simp: tables_def dpInit_def)

text \<open>The table and the final scan together find a cut list of least bottleneck, or show that there is none.\<close>

lemma dp_optimal:
  assumes "valid p" and s: "s = dpOuter (stage p) L [Suc 0..<Suc M] dpInit"
    and best: "dpBest (fst s) L [Suc 0..<Suc M] (- 1, PInf) = (bestM, best)"
  shows "(best = PInf \<and> (\<forall>cs. is_cuts cs L \<longrightarrow> cs \<noteq> [] \<longrightarrow> length cs \<le> M \<longrightarrow> bottleneck (stage p) cs = PInf)) \<or>
    (\<exists>cs. bestM = int (length cs) \<and> cs \<noteq> [] \<and> length cs \<le> M \<and> is_cuts cs L \<and> best \<noteq> PInf \<and>
       bottleneck (stage p) cs = best \<and> cutWalk (snd s) L (length cs) (int L) = Some (map int (0 # cs)) \<and>
       (\<forall>cs'. is_cuts cs' L \<longrightarrow> cs' \<noteq> [] \<longrightarrow> length cs' \<le> M \<longrightarrow> best \<le> bottleneck (stage p) cs'))"
proof -
  have t: "tables (stage p) L M s" using dpInit_tables [OF assms(1)] s by simp
  note b = dpBest_cases [OF best]
  have lb: "best \<le> bottleneck (stage p) cs" if "is_cuts cs L" "cs \<noteq> []" "length cs \<le> M" for cs
  proof -
    have "length cs \<in> set [Suc 0..<Suc M]" using that by (cases cs) (auto simp del: upt_Suc)
    with b have "best \<le> fst s L (length cs)" by blast
    also have "\<dots> \<le> bottleneck (stage p) cs" using tables_complete [OF t] that by simp
    finally show ?thesis .
  qed
  show ?thesis
  proof (cases "best = PInf")
    case True
    with lb show ?thesis by auto
  next
    case False
    with b obtain m where m: "m \<in> set [Suc 0..<Suc M]" "bestM = int m" "best = fst s L m" by auto
    with False obtain cs where "is_cuts cs L" "length cs = m" "bottleneck (stage p) cs = best"
        "cutWalk (snd s) L m (int L) = Some (map int (0 # cs))"
      using tables_sound [OF t, of L m] by (auto simp del: upt_Suc)
    moreover from this m have "cs \<noteq> []" by (auto simp del: upt_Suc)
    ultimately show ?thesis using lb m False by (auto simp del: upt_Suc)
  qed
qed

end

section \<open>The planner's stage times satisfy the law\<close>

lemma stageMemNeed_mono:
  "0 \<le> SizeGB quant \<Longrightarrow> j \<le> j' \<Longrightarrow> stageMemNeed model quant i j ctxLen \<le> stageMemNeed model quant i j' ctxLen"
  using kvCachePerNode_mono [of "j - i" "j' - i" model ctxLen]
  by (auto simp: stageMemNeed_def Let_def intro!: add_mono divide_right_mono mult_left_mono)

lemma stageFits_antimono:
  "0 \<le> SizeGB quant \<Longrightarrow> j \<le> j' \<Longrightarrow> stageFits n model quant i j' ctxLen \<Longrightarrow> stageFits n model quant i j ctxLen"
  unfolding stageFits_def using stageMemNeed_mono by (blast intro: order.trans)

lemma stageTimeAtIdx_PInf:
  "stageTimeAtIdx order m i j idx model quant ctxLen = PInf \<longleftrightarrow>
     \<not> stageFits (order ! (m - 1)) model quant (int i) (int j) ctxLen"
  by (simp add: stageTimeAtIdx_def Let_def)

text \<open>The source's comment at the \<^verbatim>\<open>break\<close>, as the law of the interface.\<close>

interpretation pdp: stage_model stageOf "\<lambda>(order, idx, model, quant, ctxLen). 0 \<le> SizeGB quant"
  by unfold_locales
    (clarsimp simp: stageOf_def stageTimeAtIdx_PInf, meson of_nat_mono stageFits_antimono)

lemma cutsFrom_nth: "cutsFrom i cs L \<Longrightarrow> k < length cs \<Longrightarrow> (i # cs) ! k < cs ! k"
  by (induction cs arbitrary: i k) (auto simp: nth_Cons split: nat.splits)

lemma is_cuts_nth: "is_cuts cs L \<Longrightarrow> k < length cs \<Longrightarrow> (0 # cs) ! k < cs ! k"
  unfolding is_cuts_def by (rule cutsFrom_nth)

lemma is_cuts_last: "is_cuts cs L \<Longrightarrow> last (0 # cs) = L"
  by (cases cs rule: rev_cases) auto

lemma concat_singletons: "(\<And>x. x \<in> set xs \<Longrightarrow> f x = [g x]) \<Longrightarrow> concat (map f xs) = map g xs"
  by (induction xs) auto

lemma reconstructCuts_shards:
  assumes "is_cuts cs L" and "cutWalk cutT L (length cs) (int L) = Some (map int (0 # cs))"
  shows "reconstructCuts cutT L (length cs) order = Some (shards order cs)"
proof -
  have "shardOf order (map int (0 # cs)) m =
      [\<lparr>aNodeID = nodeID (order ! (m - 1)), aRole = (if m - 1 = 0 then RoleHost else RoleWorker),
        LayerStart = int ((0 # cs) ! (m - 1)), LayerEnd = int (cs ! (m - 1)) - 1, aDraft = False\<rparr>]"
    if m: "m \<in> set [1..<length cs + 1]" for m
  proof -
    from m have "1 \<le> m" "m \<le> length cs" by auto
    then obtain k where k: "m = Suc k" "k < length cs" by (metis Suc_le_D One_nat_def Suc_le_lessD)
    with is_cuts_nth [OF assms(1) k(2)] show ?thesis
      by (simp add: shardOf_def Let_def nth_map del: list.map)
  qed
  then have "concat (map (shardOf order (map int (0 # cs))) [1..<length cs + 1]) =
      map (\<lambda>m. \<lparr>aNodeID = nodeID (order ! (m - 1)), aRole = (if m - 1 = 0 then RoleHost else RoleWorker),
        LayerStart = int ((0 # cs) ! (m - 1)), LayerEnd = int (cs ! (m - 1)) - 1, aDraft = False\<rparr>) [1..<length cs + 1]"
    by (intro concat_singletons)
  also have "\<dots> = shards order cs"
  proof -
    have "[1..<length cs + 1] = map Suc [0..<length cs]" by (simp add: map_Suc_upt)
    then show ?thesis by (simp only: map_map comp_def diff_Suc_1 shards_def)
  qed
  finally show ?thesis using assms(2) by (simp add: reconstructCuts_def del: upt_Suc)
qed

lemma dpPartition_result:
  assumes "0 \<le> SizeGB quant" and "0 \<le> Layers model" and st_def: "st = stageTimes order links model quant ctxLen"
  shows "(dpPartition order links model quant ctxLen = Some ([], PInf) \<and>
      (\<forall>cs. is_cuts cs (nat (Layers model)) \<longrightarrow> cs \<noteq> [] \<longrightarrow> length cs \<le> length order \<longrightarrow> bottleneck st cs = PInf)) \<or>
    (\<exists>cs b. dpPartition order links model quant ctxLen = Some (shards order cs, Fin b) \<and>
      is_cuts cs (nat (Layers model)) \<and> cs \<noteq> [] \<and> length cs \<le> length order \<and> bottleneck st cs = Fin b \<and>
      (\<forall>cs'. is_cuts cs' (nat (Layers model)) \<longrightarrow> cs' \<noteq> [] \<longrightarrow> length cs' \<le> length order \<longrightarrow> Fin b \<le> bottleneck st cs'))"
proof -
  let ?L = "nat (Layers model)" and ?M = "length order"
  let ?p = "(order, buildLinkIndex links, model, quant, ctxLen)"
  have st: "stageOf ?p = st" by (simp add: st_def stageOf_def)
  obtain s where s: "s = dpOuter st ?L [Suc 0..<Suc ?M] dpInit" by simp
  obtain bestM best where best: "dpBest (fst s) ?L [Suc 0..<Suc ?M] (- 1, PInf) = (bestM, best)" by fastforce
  have dp: "dpPartition order links model quant ctxLen =
      (if bestM = - 1 \<or> best = PInf then Some ([], PInf)
       else map_option (\<lambda>as. (as, best)) (reconstructCuts (snd s) ?L (nat bestM) order))"
    using s best assms(2) by (simp add: dpPartition_def st_def Let_def case_prod_unfold del: upt_Suc)
  have valid: "case ?p of (order, idx, model, quant, ctxLen) \<Rightarrow> 0 \<le> SizeGB quant" using assms(1) by simp
  from pdp.dp_optimal [of ?p, unfolded st, OF valid s best] show ?thesis
  proof (elim disjE exE conjE)
    assume "best = PInf" "\<forall>cs. is_cuts cs ?L \<longrightarrow> cs \<noteq> [] \<longrightarrow> length cs \<le> ?M \<longrightarrow> bottleneck st cs = PInf"
    then show ?thesis by (simp add: dp)
  next
    fix cs
    assume cs: "bestM = int (length cs)" "cs \<noteq> []" "length cs \<le> ?M" "is_cuts cs ?L" "best \<noteq> PInf"
      "bottleneck st cs = best" "cutWalk (snd s) ?L (length cs) (int ?L) = Some (map int (0 # cs))"
      "\<forall>cs'. is_cuts cs' ?L \<longrightarrow> cs' \<noteq> [] \<longrightarrow> length cs' \<le> ?M \<longrightarrow> best \<le> bottleneck st cs'"
    then obtain b where b: "best = Fin b" by (cases best) auto
    with cs(1,5) have "dpPartition order links model quant ctxLen = Some (shards order cs, Fin b)"
      using reconstructCuts_shards [OF cs(4,7), of order] by (simp add: dp)
    then show ?thesis using cs(2-4,6,8) unfolding b by blast
  qed
qed

lemma covers_snoc:
  "covers s e (as @ [a]) \<longleftrightarrow> covers s (LayerStart a) as \<and> LayerStart a \<le> LayerEnd a \<and> LayerEnd a + 1 = e"
  by (induction as arbitrary: s) auto

lemma shards_snoc:
  "shards order (cs @ [c]) = shards order cs @ [\<lparr>aNodeID = nodeID (order ! length cs),
     aRole = (if cs = [] then RoleHost else RoleWorker), LayerStart = int (last (0 # cs)), LayerEnd = int c - 1, aDraft = False\<rparr>]"
proof -
  have last: "((0 # cs) @ [c]) ! length cs = last (0 # cs)"
    by (simp add: nth_append last_conv_nth del: append_Cons)
  have inner: "((0 # cs) @ [c]) ! k = (0 # cs) ! k" "(cs @ [c]) ! k = cs ! k" if "k < length cs" for k
    using that by (simp_all add: nth_append del: append_Cons)
  show ?thesis
    using last inner by (simp add: shards_def)
qed

lemma shards_covers: "is_cuts cs L \<Longrightarrow> covers 0 (int L) (shards order cs)"
proof (induction cs arbitrary: L rule: rev_induct)
  case Nil
  then show ?case by (simp add: shards_def)
next
  case (snoc c cs)
  then have "is_cuts cs (last (0 # cs))" "last (0 # cs) < c" "c = L" by auto
  with snoc.IH [of "last (0 # cs)"] show ?case by (simp add: shards_snoc covers_snoc del: last.simps)
qed

section \<open>Memory, links and bandwidth\<close>

lemma bottleneckFrom_finite:
  "bottleneckFrom stage b m i cs \<noteq> PInf \<Longrightarrow>
     b \<noteq> PInf \<and> (\<forall>k < length cs. stage (m + k) ((i # cs) ! k) (cs ! k) \<noteq> PInf)"
proof (induction cs arbitrary: b m i)
  case Nil
  then show ?case by simp
next
  case (Cons c cs)
  then have "max b (stage m i c) \<noteq> PInf" "\<forall>k < length cs. stage (Suc m + k) ((c # cs) ! k) (cs ! k) \<noteq> PInf"
    using Cons.IH [of "max b (stage m i c)" "Suc m" c] by auto
  then show ?case by (auto simp: nth_Cons split: nat.splits)
qed

lemma bottleneck_stages_fit:
  assumes "bottleneck (stageTimes order links model quant ctxLen) cs = Fin b" and "k < length cs"
  shows "stageFits (order ! k) model quant (int ((0 # cs) ! k)) (int (cs ! k)) ctxLen"
proof -
  have "stageTimes order links model quant ctxLen (1 + k) ((0 # cs) ! k) (cs ! k) \<noteq> PInf"
    using bottleneckFrom_finite [of "stageTimes order links model quant ctxLen" "Fin 0" 1 0 cs] assms
    by (simp add: bottleneck_def)
  then show ?thesis by (simp add: stageTimeAtIdx_PInf)
qed

lemma lookupLink_map_of: "lookupLink links f t = map_of (map (\<lambda>l. ((From l, To l), l)) links) (f, t)"
  by (induction links) auto

lemma lookupLink_SomeD: "lookupLink links f t = Some l \<Longrightarrow> l \<in> set links \<and> From l = f \<and> To l = t"
  by (induction links) (auto split: if_splits)

lemma lookupLink_None_iff: "lookupLink links f t = None \<longleftrightarrow> (\<forall>l \<in> set links. \<not> (From l = f \<and> To l = t))"
  by (induction links) auto

lemma LinkIndex_lookup_eq:
  assumes "distinct (map (\<lambda>l. (From l, To l)) links)"
  shows "LinkIndex_lookup (buildLinkIndex links) f t = lookupLink links f t"
proof (cases "lookupLink links f t")
  case None
  then have "(f, t) \<notin> dom (buildLinkIndex links)"
    unfolding buildLinkIndex_def dom_map_by by (auto simp: lookupLink_None_iff)
  with None show ?thesis by (simp add: LinkIndex_lookup_def domIff)
next
  case (Some l)
  then have "l \<in> set links" "(From l, To l) = (f, t)" by (auto dest: lookupLink_SomeD)
  then have "buildLinkIndex links (f, t) = Some l"
    using map_by_distinct [OF assms, of l "\<lambda>l. l"] by (simp add: buildLinkIndex_def)
  with Some show ?thesis by (simp add: LinkIndex_lookup_def)
qed

lemma harmonic_between:
  fixes a b u v :: rat
  assumes "0 < a" "0 < b" "0 \<le> u" "0 \<le> v" "u + v = 1"
  shows "min a b \<le> 1 / (u / a + v / b)" "1 / (u / a + v / b) \<le> max a b"
proof -
  have pos: "0 < u / a + v / b"
  proof (cases "u = 0")
    case True
    with assms show ?thesis by simp
  next
    case False
    with assms show ?thesis by (intro add_pos_nonneg) auto
  qed
  have "u / a + v / b \<le> u / min a b + v / min a b"
    using assms by (intro add_mono divide_left_mono) (auto simp: min_def)
  also have "\<dots> = 1 / min a b" using assms(5) by (simp flip: add_divide_distrib)
  finally show "min a b \<le> 1 / (u / a + v / b)"
    using pos assms(1,2) by (simp add: field_simps min_def split: if_splits)
  have "1 / max a b = u / max a b + v / max a b" using assms(5) by (simp flip: add_divide_distrib)
  also have "\<dots> \<le> u / a + v / b"
    using assms by (intro add_mono divide_left_mono) (auto simp: max_def)
  finally show "1 / (u / a + v / b) \<le> max a b"
    using pos assms(1,2) by (simp add: field_simps max_def split: if_splits)
qed

lemma effectiveBandwidth_between:
  fixes n defines "bw \<equiv> (if MemBandwidthGBs n \<le> 0 then referenceMemBandwidthGBs else MemBandwidthGBs n)"
  assumes "0 \<le> w" and "0 \<le> kv"
  shows "min bw kvSsdReadBandwidthGBs \<le> effectiveBandwidth n w kv"
    and "effectiveBandwidth n w kv \<le> max bw kvSsdReadBandwidthGBs"
proof -
  have bw: "0 < bw" by (simp add: bw_def plan_consts)
  let ?ssd = "min (w + kv - VRAMGB n * 10 ^ 9) kv"
  let ?u = "(w + kv - ?ssd) / (w + kv)" and ?v = "?ssd / (w + kv)"
  have eq: "effectiveBandwidth n w kv =
      (if \<not> KVSSDOffload n \<or> VRAMGB n * 10 ^ 9 \<le> 0 \<or> w + kv \<le> VRAMGB n * 10 ^ 9 then bw
       else 1 / (?u / bw + ?v / kvSsdReadBandwidthGBs))"
    by (simp only: effectiveBandwidth_def Let_def bw_def)
  have "min bw kvSsdReadBandwidthGBs \<le> effectiveBandwidth n w kv \<and>
      effectiveBandwidth n w kv \<le> max bw kvSsdReadBandwidthGBs"
  proof (cases "\<not> KVSSDOffload n \<or> VRAMGB n * 10 ^ 9 \<le> 0 \<or> w + kv \<le> VRAMGB n * 10 ^ 9")
    case True
    then show ?thesis unfolding eq by simp
  next
    case False
    then have vram: "0 < VRAMGB n * 10 ^ 9" "VRAMGB n * 10 ^ 9 < w + kv" by (auto simp only: not_le de_Morgan_disj)
    then have pos: "0 < w + kv" by linarith
    have "?u + ?v = 1" using pos by (simp flip: add_divide_distrib)
    moreover have "0 \<le> ?u" "0 \<le> ?v" using pos vram assms(2,3) by (auto simp: min_def)
    ultimately show ?thesis
      using harmonic_between [OF bw, of kvSsdReadBandwidthGBs ?u ?v] False
      unfolding eq by (simp add: kvSsdReadBandwidthGBs_def)
  qed
  then show "min bw kvSsdReadBandwidthGBs \<le> effectiveBandwidth n w kv"
    and "effectiveBandwidth n w kv \<le> max bw kvSsdReadBandwidthGBs" by auto
qed

section \<open>Properties\<close>

text \<open>C2: phase C is optimal. When \<open>dpPartition\<close> returns a finite bottleneck \<open>b\<close>, its assignments are the
  shards of a list of cut points that covers the layer chain with at most one stage per node, their
  bottleneck is \<open>b\<close>, and no other contiguous partition over any prefix of the pipeline order has a smaller
  one.\<close>

theorem dpPartition_optimal:
  assumes "0 \<le> SizeGB quant" and "dpPartition order links model quant ctxLen = Some (as, Fin b)"
  shows "\<exists>cs. as = shards order cs \<and> is_cuts cs (nat (Layers model)) \<and> cs \<noteq> [] \<and> length cs \<le> length order \<and>
    bottleneck (stageTimes order links model quant ctxLen) cs = Fin b \<and>
    (\<forall>cs'. is_cuts cs' (nat (Layers model)) \<and> cs' \<noteq> [] \<and> length cs' \<le> length order \<longrightarrow>
       Fin b \<le> bottleneck (stageTimes order links model quant ctxLen) cs')"
proof -
  have "0 \<le> Layers model" using assms(2) by (auto simp: dpPartition_def split: if_splits)
  then show ?thesis using dpPartition_result [OF assms(1) _ refl, of model order links ctxLen] assms(2) by auto
qed

theorem dpPartition_optimal_witness:
  "\<exists>cs. shards [exNode ''a'' 20, exNode ''b'' 12] [3, 4] = shards [exNode ''a'' 20, exNode ''b'' 12] cs \<and>
    is_cuts cs 4 \<and> bottleneck (stageTimes [exNode ''a'' 20, exNode ''b'' 12] [exLink ''a'' ''b'' 1] exModel (exQuant ''q8'' 20) 1000) cs
      = Fin (3 / 20)"
proof -
  have size: "0 \<le> SizeGB (exQuant ''q8'' 20)" by (simp add: exQuant_def)
  have run: "dpPartition [exNode ''a'' 20, exNode ''b'' 12] [exLink ''a'' ''b'' 1] exModel (exQuant ''q8'' 20) 1000 =
      Some (shards [exNode ''a'' 20, exNode ''b'' 12] [3, 4], Fin (3 / 20))"
    by code_simp
  have "nat (Layers exModel) = 4" by (simp add: exModel_def)
  with dpPartition_optimal [OF size run] show ?thesis by auto
qed

text \<open>phase C never reads a table out of range, and it reports "infeasible" exactly when no contiguous
  partition over a prefix of the order fits the nodes' memory.\<close>

theorem dpPartition_total_and_complete:
  assumes "0 \<le> SizeGB quant" "0 \<le> Layers model"
  shows "\<exists>as b. dpPartition order links model quant ctxLen = Some (as, b) \<and>
    (b = PInf \<longleftrightarrow> (\<forall>cs. is_cuts cs (nat (Layers model)) \<and> cs \<noteq> [] \<and> length cs \<le> length order \<longrightarrow>
       bottleneck (stageTimes order links model quant ctxLen) cs = PInf)) \<and> (b = PInf \<longrightarrow> as = [])"
  using dpPartition_result [OF assms refl, of order links ctxLen] by fastforce

theorem dpPartition_total_and_complete_witness:
  "dpPartition [exNode ''a'' 6] [] exModel (exQuant ''q8'' 20) 1000 = Some ([], PInf) \<and>
   bottleneck (stageTimes [exNode ''a'' 6] [] exModel (exQuant ''q8'' 20) 1000) [4] = PInf"
proof -
  have size: "0 \<le> SizeGB (exQuant ''q8'' 20)" by (simp add: exQuant_def)
  have run: "dpPartition [exNode ''a'' 6] [] exModel (exQuant ''q8'' 20) 1000 = Some ([], PInf)" by code_simp
  have "nat (Layers exModel) = 4" by (simp add: exModel_def)
  moreover have "0 \<le> Layers exModel" by (simp add: exModel_def)
  ultimately show ?thesis using dpPartition_total_and_complete [OF size, of exModel "[exNode ''a'' 6]" "[]" 1000] run
    by (auto simp: is_cuts_def)
qed

text \<open>the indexed stage time the dynamic program uses is the stage time of the linear scan over the links,
  provided no directed link is listed twice.\<close>

theorem stageTimeAtIdx_eq_stageTimeAt:
  assumes "distinct (map (\<lambda>l. (From l, To l)) links)"
  shows "stageTimeAtIdx order m i j (buildLinkIndex links) model quant ctxLen = stageTimeAt order m i j links model quant ctxLen"
  by (simp only: stageTimeAtIdx_def stageTimeAt_def LinkIndex_lookup_eq [OF assms])

theorem stageTimeAtIdx_eq_stageTimeAt_witness:
  "stageTimeAtIdx [exNode ''a'' 20, exNode ''b'' 20] 2 3 4 (buildLinkIndex [exLink ''a'' ''b'' 1]) exModel (exQuant ''q8'' 20) 1000
     = stageTimeAt [exNode ''a'' 20, exNode ''b'' 20] 2 3 4 [exLink ''a'' ''b'' 1] exModel (exQuant ''q8'' 20) 1000"
  by (rule stageTimeAtIdx_eq_stageTimeAt) simp

text \<open>With a link listed twice the two lookups differ: the index keeps the last entry, the scan takes the first.\<close>

lemma duplicate_links_differ:
  "LinkIndex_lookup (buildLinkIndex [exLink ''a'' ''b'' 1, exLink ''a'' ''b'' 9]) ''a'' ''b'' = Some (exLink ''a'' ''b'' 9)"
  "lookupLink [exLink ''a'' ''b'' 1, exLink ''a'' ''b'' 9] ''a'' ''b'' = Some (exLink ''a'' ''b'' 1)"
  by (simp_all add: LinkIndex_lookup_def buildLinkIndex_def map_by_def exLink_def)

text \<open>with non-negative shard sizes, the effective bandwidth lies between the slower and the faster of the
  node's memory and the SSD; in particular it is positive and no stage time divides by zero.\<close>

theorem effectiveBandwidth_bounds:
  assumes "0 \<le> w" and "0 \<le> kv"
  shows "0 < effectiveBandwidth n w kv \<and>
    min (if MemBandwidthGBs n \<le> 0 then referenceMemBandwidthGBs else MemBandwidthGBs n) kvSsdReadBandwidthGBs
      \<le> effectiveBandwidth n w kv \<and>
    effectiveBandwidth n w kv
      \<le> max (if MemBandwidthGBs n \<le> 0 then referenceMemBandwidthGBs else MemBandwidthGBs n) kvSsdReadBandwidthGBs"
proof -
  have "0 < min (if MemBandwidthGBs n \<le> 0 then referenceMemBandwidthGBs else MemBandwidthGBs n) kvSsdReadBandwidthGBs"
    by (simp add: plan_consts)
  with effectiveBandwidth_between [OF assms, of n] show ?thesis by linarith
qed

theorem effectiveBandwidth_bounds_witness:
  "0 < effectiveBandwidth ((exNode ''a'' 20)\<lparr>VRAMGB := 10, KVSSDOffload := True\<rparr>) (8 * 10 ^ 9) (4 * 10 ^ 9)"
  using effectiveBandwidth_bounds [of "8 * 10 ^ 9" "4 * 10 ^ 9" "(exNode ''a'' 20)\<lparr>VRAMGB := 10, KVSSDOffload := True\<rparr>"] by simp

end
