(* ===== verification/Ordering.thy ===== *)
theory Ordering
  imports Partition
begin

text \<open>
  Phase D of the planner, from \<^verbatim>\<open>src/go/planner/plan/ordering.go\<close>: the order of the pipeline is a
  Hamiltonian path from the host over the directed edge costs, found exactly by Held-Karp for
  small fleets and by nearest-neighbour and 2-opt above the threshold.

  A node set is a bit mask, a natural number: \<open>bit mask j\<close> is \<^verbatim>\<open>mask&(1<<j) != 0\<close>, \<open>set_bit k mask\<close>
  is \<^verbatim>\<open>mask | (1<<k)\<close> and \<open>flip_bit j mask\<close> is \<^verbatim>\<open>mask ^ (1<<j)\<close>.
\<close>

section \<open>Constants and configuration\<close>

definition HeldKarpMaxNodes :: int where [plan_consts]: "HeldKarpMaxNodes = 10"
definition orderingThresholdMax :: int where [plan_consts]: "orderingThresholdMax = 20"
definition missingLinkPenaltyMs :: float64 where [plan_consts]: "missingLinkPenaltyMs = 10 ^ 6"
definition twoOptMaxPasses :: nat where [plan_consts]: "twoOptMaxPasses = 64"
definition twoOptImproveEps :: float64 where [plan_consts]: "twoOptImproveEps = 1 / 10 ^ 9"
definition coOptMaxRounds :: nat where [plan_consts]: "coOptMaxRounds = 3"

text \<open>\<^verbatim>\<open>strconv.Atoi\<close> on a 64-bit platform: an optional sign, at least one decimal digit, in range.\<close>

fun decimal :: "nat \<Rightarrow> string \<Rightarrow> nat option" where
  "decimal n [] = Some n"
| "decimal n (c # cs) =
     (if of_char c \<ge> (48::nat) \<and> of_char c \<le> (57::nat) then decimal (n * 10 + (of_char c - 48)) cs else None)"

definition Atoi :: "string \<Rightarrow> int option" where
  "Atoi s =
     (case s of
        [] \<Rightarrow> None
      | c # cs \<Rightarrow>
          let neg = (c = CHR ''-''); ds = (if c = CHR ''-'' \<or> c = CHR ''+'' then cs else s)
          in if ds = [] then None
             else case decimal 0 ds of
                 None \<Rightarrow> None
               | Some n \<Rightarrow> let v = (if neg then - int n else int n)
                           in if - (2 ^ 63) \<le> v \<and> v < 2 ^ 63 then Some v else None)"

text \<open>\<open>v\<close> is what \<^verbatim>\<open>os.Getenv(key)\<close> returns, the empty string where the variable is unset.\<close>

definition getEnvInt :: "string \<Rightarrow> int \<Rightarrow> int" where
  "getEnvInt v dflt =
     (if v = '''' then dflt
      else case Atoi v of
          None \<Rightarrow> dflt
        | Some n \<Rightarrow> if n < 1 \<or> n > orderingThresholdMax then dflt else n)"

definition orderingThreshold :: "string \<Rightarrow> int" where
  "orderingThreshold env = getEnvInt env HeldKarpMaxNodes"

section \<open>Edge costs\<close>

definition bytesPerMs :: "float64 \<Rightarrow> float64" where
  "bytesPerMs bandwidthGBs = (if bandwidthGBs \<le> 0 then 0 else bandwidthGBs * 10 ^ 9 / 1000)"

definition edgeCost :: "string \<Rightarrow> string \<Rightarrow> ModelSpec \<Rightarrow> Link list \<Rightarrow> float64" where
  "edgeCost a b model links =
     (case lookupLink links a b of
        None \<Rightarrow> missingLinkPenaltyMs
      | Some link \<Rightarrow>
          let bpm = bytesPerMs (BandwidthGBs link)
          in if bpm > 0 then RTTms link + activationBytes model / bpm else RTTms link)"

fun orderCostFrom :: "float64 \<Rightarrow> Node list \<Rightarrow> ModelSpec \<Rightarrow> Link list \<Rightarrow> float64" where
  "orderCostFrom tot (a # b # ns) model links =
     orderCostFrom (tot + edgeCost (nodeID a) (nodeID b) model links) (b # ns) model links"
| "orderCostFrom tot _ model links = tot"

definition orderCost :: "Node list \<Rightarrow> ModelSpec \<Rightarrow> Link list \<Rightarrow> float64" where
  "orderCost order model links = orderCostFrom 0 order model links"

fun sameOrder :: "Node list \<Rightarrow> Node list \<Rightarrow> bool" where
  "sameOrder [] [] = True"
| "sameOrder (a # as) (b # bs) = (nodeID a = nodeID b \<and> sameOrder as bs)"
| "sameOrder _ _ = False"

section \<open>The host\<close>

fun findHost :: "nat \<Rightarrow> Node list \<Rightarrow> string \<Rightarrow> nat option" where
  "findHost i [] h = None"
| "findHost i (n # ns) h = (if nodeID n = h then Some i else findHost (Suc i) ns h)"

fun mostCapable :: "nat \<Rightarrow> Node list \<Rightarrow> nat \<times> float64 \<Rightarrow> nat" where
  "mostCapable i [] (best, bestCap) = best"
| "mostCapable i (n # ns) (best, bestCap) =
     (let cap = usefulCapacity n
      in if cap > bestCap then mostCapable (Suc i) ns (i, cap) else mostCapable (Suc i) ns (best, bestCap))"

text \<open>\<^verbatim>\<open>nodes[0]\<close> panics on an empty slice.\<close>

definition chooseHostIndex :: "Node list \<Rightarrow> Constraints \<Rightarrow> nat go" where
  "chooseHostIndex nodes c =
     (case Option.bind (ForceHost c) (findHost 0 nodes) of
        Some i \<Rightarrow> Some i
      | None \<Rightarrow>
          (case nodes of
             [] \<Rightarrow> None
           | n # ns \<Rightarrow> Some (mostCapable 1 ns (0, usefulCapacity n))))"

section \<open>Held-Karp\<close>

type_synonym 'a hk_state = "(nat \<Rightarrow> nat \<Rightarrow> 'a ext) \<times> (nat \<Rightarrow> nat \<Rightarrow> int)"

fun extPlus :: "'a::plus ext \<Rightarrow> 'a \<Rightarrow> 'a ext" where
  "extPlus (Fin a) c = Fin (a + c)"
| "extPlus PInf c = PInf"

definition hkInit :: "'a::zero hk_state" where
  "hkInit = ((\<lambda>m j. if m = 1 \<and> j = 0 then Fin 0 else PInf), (\<lambda>m j. - 1))"

fun hkInner :: "(nat \<Rightarrow> nat \<Rightarrow> 'a::{linorder,plus}) \<Rightarrow> nat \<Rightarrow> nat \<Rightarrow> nat list \<Rightarrow> 'a hk_state \<Rightarrow> 'a hk_state" where
  "hkInner cost msk j [] (dp, parent) = (dp, parent)"
| "hkInner cost msk j (k # ks) (dp, parent) =
     (if bit msk k then hkInner cost msk j ks (dp, parent)
      else let nm = set_bit k msk; c = extPlus (dp msk j) (cost j k)
           in if c < dp nm k
              then hkInner cost msk j ks (dp(nm := (dp nm)(k := c)), parent(nm := (parent nm)(k := int j)))
              else hkInner cost msk j ks (dp, parent))"

fun hkMiddle :: "(nat \<Rightarrow> nat \<Rightarrow> 'a::{linorder,plus}) \<Rightarrow> nat \<Rightarrow> nat \<Rightarrow> nat list \<Rightarrow> 'a hk_state \<Rightarrow> 'a hk_state" where
  "hkMiddle cost n msk [] s = s"
| "hkMiddle cost n msk (j # js) s =
     (if \<not> bit msk j \<or> fst s msk j = PInf then hkMiddle cost n msk js s
      else hkMiddle cost n msk js (hkInner cost msk j [0..<n] s))"

fun hkOuter :: "(nat \<Rightarrow> nat \<Rightarrow> 'a::{linorder,plus}) \<Rightarrow> nat \<Rightarrow> nat list \<Rightarrow> 'a hk_state \<Rightarrow> 'a hk_state" where
  "hkOuter cost n [] s = s"
| "hkOuter cost n (msk # msks) s =
     (if \<not> bit msk 0 then hkOuter cost n msks s
      else hkOuter cost n msks (hkMiddle cost n msk [0..<n] s))"

fun hkBest :: "(nat \<Rightarrow> 'a::linorder ext) \<Rightarrow> nat list \<Rightarrow> nat \<times> 'a ext \<Rightarrow> nat" where
  "hkBest row [] (bestEnd, best) = bestEnd"
| "hkBest row (j # js) (bestEnd, best) =
     (if row j < best then hkBest row js (j, row j) else hkBest row js (bestEnd, best))"

text \<open>\<open>hkWalk parent n pos msk j\<close> is \<^verbatim>\<open>idxOrder[0..pos-1]\<close>; reading \<^verbatim>\<open>parent[mask][j]\<close> panics
  outside \<open>0 ..< n\<close>.\<close>

fun hkWalk :: "(nat \<Rightarrow> nat \<Rightarrow> int) \<Rightarrow> nat \<Rightarrow> nat \<Rightarrow> nat \<Rightarrow> int \<Rightarrow> nat list go" where
  "hkWalk parent n 0 msk j = Some []"
| "hkWalk parent n (Suc pos) msk j =
     (if 0 \<le> j \<and> j < int n
      then map_option (\<lambda>idx. idx @ [nat j]) (hkWalk parent n pos (flip_bit (nat j) msk) (parent msk (nat j)))
      else None)"

definition hkCost :: "Node list \<Rightarrow> ModelSpec \<Rightarrow> Link list \<Rightarrow> nat \<Rightarrow> nat \<Rightarrow> float64" where
  "hkCost nodes model links i j =
     (if i \<noteq> j then edgeCost (nodeID (nodes ! i)) (nodeID (nodes ! j)) model links else 0)"

section \<open>Nearest neighbour and 2-opt\<close>

fun nnPick :: "(nat \<Rightarrow> float64) \<Rightarrow> bool list \<Rightarrow> nat list \<Rightarrow> int \<times> float64 ext \<Rightarrow> int" where
  "nnPick c visited [] (nxt, bestC) = nxt"
| "nnPick c visited (k # ks) (nxt, bestC) =
     (if visited ! k then nnPick c visited ks (nxt, bestC)
      else if Fin (c k) < bestC then nnPick c visited ks (int k, Fin (c k))
      else nnPick c visited ks (nxt, bestC))"

text \<open>The loop runs while \<^verbatim>\<open>len(route) < n\<close>; its third argument is \<^verbatim>\<open>n - len(route)\<close>.
  \<^verbatim>\<open>visited[next]\<close> panics when no unvisited node was found.\<close>

fun nnLoop :: "(nat \<Rightarrow> nat \<Rightarrow> float64) \<Rightarrow> nat \<Rightarrow> nat \<Rightarrow> bool list \<Rightarrow> nat \<Rightarrow> nat list go" where
  "nnLoop c n 0 visited cur = Some []"
| "nnLoop c n (Suc left) visited cur =
     (let nxt = nnPick (c cur) visited [0..<n] (- 1, PInf)
      in if nxt < 0 then None
         else map_option (\<lambda>r. nat nxt # r) (nnLoop c n left (visited[nat nxt := True]) (nat nxt)))"

definition nearestNeighborOrder :: "Node list \<Rightarrow> ModelSpec \<Rightarrow> Link list \<Rightarrow> Node list go" where
  "nearestNeighborOrder nodes model links =
     (let n = length nodes
      in if n = 0 then None
         else map_option (\<lambda>r. map ((!) nodes) (0 # r))
                (nnLoop (\<lambda>i k. edgeCost (nodeID (nodes ! i)) (nodeID (nodes ! k)) model links)
                   n (n - 1) ((replicate n False)[0 := True]) 0))"

text \<open>The reversal loop \<^verbatim>\<open>for l, r := i, k; l < r; l, r = l+1, r-1\<close> of swaps.\<close>

fun reverseSegment :: "'a list \<Rightarrow> nat \<Rightarrow> nat \<Rightarrow> 'a list" where
  "reverseSegment cand l r =
     (if l < r then reverseSegment (cand[l := cand ! r, r := cand ! l]) (l + 1) (r - 1) else cand)"

declare reverseSegment.simps [simp del]

text \<open>The pairs the two loops of a pass visit, \<^verbatim>\<open>for i := 1; i < n-1\<close> and \<^verbatim>\<open>for k := i + 1; k < n\<close>.\<close>

definition segments :: "nat \<Rightarrow> (nat \<times> nat) list" where
  "segments n = [(i, k). i \<leftarrow> [1..<n - 1], k \<leftarrow> [i + 1..<n]]"

fun twoOptSweep :: "ModelSpec \<Rightarrow> Link list \<Rightarrow> (nat \<times> nat) list \<Rightarrow> Node list \<times> float64 \<times> bool \<Rightarrow> Node list \<times> float64 \<times> bool" where
  "twoOptSweep model links [] s = s"
| "twoOptSweep model links ((i, k) # iks) (best, bestCost, improved) =
     (let cand = reverseSegment best i k; c = orderCost cand model links
      in if c < bestCost - twoOptImproveEps then twoOptSweep model links iks (cand, c, True)
         else twoOptSweep model links iks (best, bestCost, improved))"

fun twoOptPasses :: "nat \<Rightarrow> ModelSpec \<Rightarrow> Link list \<Rightarrow> Node list \<Rightarrow> float64 \<Rightarrow> Node list" where
  "twoOptPasses 0 model links best bestCost = best"
| "twoOptPasses (Suc passes) model links best bestCost =
     (let n = length best;
          (best', bestCost', improved) =
            twoOptSweep model links (segments n) (best, bestCost, False)
      in if improved then twoOptPasses passes model links best' bestCost' else best')"

definition twoOptImprove :: "Node list \<Rightarrow> ModelSpec \<Rightarrow> Link list \<Rightarrow> Node list" where
  "twoOptImprove route model links =
     (if length route < 4 then route
      else twoOptPasses twoOptMaxPasses model links route (orderCost route model links))"

definition nearestNeighbor2Opt :: "Node list \<Rightarrow> ModelSpec \<Rightarrow> Link list \<Rightarrow> Node list go" where
  "nearestNeighbor2Opt nodes model links =
     map_option (\<lambda>route. twoOptImprove route model links) (nearestNeighborOrder nodes model links)"

section \<open>The ordering\<close>

definition heldKarpPath :: "Node list \<Rightarrow> ModelSpec \<Rightarrow> Link list \<Rightarrow> Node list go" where
  "heldKarpPath nodes model links =
     (let n = length nodes
      in if int n > orderingThresholdMax then nearestNeighbor2Opt nodes model links
         else if n = 0 then None
         else let (dp, parent) = hkOuter (hkCost nodes model links) n [0..<2 ^ n] hkInit;
                  full = 2 ^ n - 1;
                  bestEnd = hkBest (dp full) [1..<n] (0, dp full 0)
              in map_option (map ((!) nodes)) (hkWalk parent n n full (int bestEnd)))"

text \<open>\<^verbatim>\<open>sort.Slice\<close> leaves the order of equal keys open; the model sorts stably. On distinct identifiers
  there is only one sorted order.\<close>

definition orderNodes :: "int \<Rightarrow> Node list \<Rightarrow> ModelSpec \<Rightarrow> Link list \<Rightarrow> Constraints \<Rightarrow> Node list go" where
  "orderNodes thr nodes model links c =
     (let n = length nodes
      in if n \<le> 1 then Some nodes
         else let ordered = sort_key nodeID nodes
              in Option.bind (chooseHostIndex ordered c) (\<lambda>hostIdx.
                   let swapped = ordered[0 := ordered ! hostIdx, hostIdx := ordered ! 0]
                   in if int n \<le> thr then heldKarpPath swapped model links
                      else nearestNeighbor2Opt swapped model links))"

section \<open>Reference: paths from the host\<close>

text \<open>The triple loop is a fold of single edge relaxations; a path from the host is a list of distinct
  indices below \<open>n\<close> starting at 0, and the table is compared with the cost of such paths.\<close>

fun relaxEdge :: "(nat \<Rightarrow> nat \<Rightarrow> 'a::{linorder,plus}) \<Rightarrow> 'a hk_state \<Rightarrow> nat \<times> nat \<times> nat \<Rightarrow> 'a hk_state" where
  "relaxEdge cost (dp, parent) (m, j, k) =
     (if bit m 0 \<and> bit m j \<and> \<not> bit m k \<and> extPlus (dp m j) (cost j k) < dp (set_bit k m) k
      then (dp(set_bit k m := (dp (set_bit k m))(k := extPlus (dp m j) (cost j k))),
            parent(set_bit k m := (parent (set_bit k m))(k := int j)))
      else (dp, parent))"

definition hkEdges :: "nat \<Rightarrow> nat list \<Rightarrow> (nat \<times> nat \<times> nat) list" where
  "hkEdges n msks = [(m, j, k). m \<leftarrow> msks, j \<leftarrow> [0..<n], k \<leftarrow> [0..<n]]"

fun pathCostFrom :: "(nat \<Rightarrow> nat \<Rightarrow> 'a::plus) \<Rightarrow> 'a \<Rightarrow> nat list \<Rightarrow> 'a" where
  "pathCostFrom cost tot (a # b # p) = pathCostFrom cost (tot + cost a b) (b # p)"
| "pathCostFrom cost tot _ = tot"

definition pathCost :: "(nat \<Rightarrow> nat \<Rightarrow> 'a::{plus,zero}) \<Rightarrow> nat list \<Rightarrow> 'a" where
  "pathCost cost p = pathCostFrom cost 0 p"

definition hostPath :: "nat \<Rightarrow> nat list \<Rightarrow> bool" where
  "hostPath n p \<longleftrightarrow> p \<noteq> [] \<and> hd p = 0 \<and> distinct p \<and> set p \<subseteq> {..<n}"

definition maskOf :: "nat list \<Rightarrow> nat" where
  "maskOf p = foldl (\<lambda>m k. set_bit k m) 0 p"

definition hkInv :: "(nat \<Rightarrow> nat \<Rightarrow> 'a::{linorder,plus,zero}) \<Rightarrow> (nat \<times> nat \<times> nat) set \<Rightarrow> 'a hk_state \<Rightarrow> bool" where
  "hkInv cost E s \<longleftrightarrow> fst s 1 0 = Fin 0 \<and>
     (\<forall>(m, j, k) \<in> E. bit m 0 \<longrightarrow> bit m j \<longrightarrow> \<not> bit m k \<longrightarrow> fst s (set_bit k m) k \<le> extPlus (fst s m j) (cost j k)) \<and>
     (\<forall>S j. fst s S j \<noteq> PInf \<longrightarrow> (S = 1 \<and> j = 0) \<or>
        (\<exists>m i. (m, i, j) \<in> E \<and> bit m 0 \<and> bit m i \<and> \<not> bit m j \<and> S = set_bit j m \<and> snd s S j = int i \<and>
           fst s S j = extPlus (fst s m i) (cost i j)))"

text \<open>A node that \<^verbatim>\<open>chooseHostIndex\<close> may pick, two routes over the same nodes from the same host, and
  a route that no reversal of a segment behind the host improves.\<close>

definition hostOf :: "Node list \<Rightarrow> Constraints \<Rightarrow> Node \<Rightarrow> bool" where
  "hostOf nodes c n \<longleftrightarrow> n \<in> set nodes \<and>
     (case ForceHost c of
        Some h \<Rightarrow> if h \<in> nodeID ` set nodes then nodeID n = h else \<forall>m \<in> set nodes. usefulCapacity m \<le> usefulCapacity n
      | None \<Rightarrow> \<forall>m \<in> set nodes. usefulCapacity m \<le> usefulCapacity n)"

definition sameRoute :: "Node list \<Rightarrow> Node list \<Rightarrow> bool" where
  "sameRoute r r' \<longleftrightarrow> mset r' = mset r \<and> hd r' = hd r"

definition twoOptLocal :: "ModelSpec \<Rightarrow> Link list \<Rightarrow> Node list \<Rightarrow> bool" where
  "twoOptLocal model links best \<longleftrightarrow>
     (\<forall>i k. 1 \<le> i \<and> i < k \<and> k < length best \<longrightarrow>
        orderCost best model links - twoOptImproveEps \<le> orderCost (reverseSegment best i k) model links)"

section \<open>Held-Karp finds a cheapest path\<close>

lemma set_bit_gt: "\<not> bit (m::nat) k \<Longrightarrow> m < set_bit k m"
  by (simp add: set_bit_eq)

lemma flip_set_bit: "\<not> bit (m::nat) k \<Longrightarrow> flip_bit k (set_bit k m) = m"
  by (rule bit_eqI) (auto simp: bit_simps)

lemma hkInner_edges:
  "bit m 0 \<Longrightarrow> bit m j \<Longrightarrow> hkInner cost m j ks s = foldl (relaxEdge cost) s (map (\<lambda>k. (m, j, k)) ks)"
  by (induction ks arbitrary: s) (auto simp: Let_def split: prod.splits)

lemma relaxEdge_skip:
  "\<not> bit m j \<or> \<not> bit m 0 \<or> fst s m j = PInf \<Longrightarrow> relaxEdge cost s (m, j, k) = s"
  by (cases s) auto

lemma relaxEdges_skip:
  "\<not> bit m j \<or> \<not> bit m 0 \<or> fst s m j = PInf \<Longrightarrow> foldl (relaxEdge cost) s (map (\<lambda>k. (m, j, k)) ks) = s"
  by (induction ks) (simp_all add: relaxEdge_skip)

lemma hkMiddle_edges:
  "bit m 0 \<Longrightarrow> hkMiddle cost n m js s = foldl (relaxEdge cost) s [(m, j, k). j \<leftarrow> js, k \<leftarrow> [0..<n]]"
proof (induction js arbitrary: s)
  case (Cons j js)
  then show ?case
    by (cases "\<not> bit m j \<or> fst s m j = PInf") (auto simp: relaxEdges_skip hkInner_edges)
qed simp

lemma relaxMask_skip:
  "\<not> bit m 0 \<Longrightarrow> foldl (relaxEdge cost) s [(m, j, k). j \<leftarrow> js, k \<leftarrow> ks] = s"
  by (induction js arbitrary: s) (simp_all add: relaxEdges_skip)

lemma hkOuter_edges: "hkOuter cost n msks s = foldl (relaxEdge cost) s (hkEdges n msks)"
  by (induction msks arbitrary: s) (simp_all add: hkEdges_def hkMiddle_edges relaxMask_skip)

lemma bit_maskOf [simp]: "bit (maskOf p) k \<longleftrightarrow> k \<in> set p"
  by (induction p rule: rev_induct) (auto simp: maskOf_def bit_simps)

lemma maskOf_snoc: "maskOf (p @ [k]) = set_bit k (maskOf p)"
  by (simp add: maskOf_def)

lemma maskOf_host: "maskOf [0] = 1"
  by (simp add: maskOf_def set_bit_0)

lemma maskOf_less:
  assumes "set p \<subseteq> {..<n}"
  shows "maskOf p < 2 ^ n"
proof -
  have "take_bit n (maskOf p) = maskOf p"
    using assms by (intro bit_eqI) (auto simp: bit_take_bit_iff)
  then show ?thesis by (metis take_bit_nat_less_exp)
qed

lemma maskOf_full:
  assumes "set p = {..<n}"
  shows "maskOf p = 2 ^ n - 1"
proof -
  have "maskOf p = mask n"
    using assms by (intro bit_eqI) (simp add: bit_mask_iff)
  then show ?thesis by (simp add: mask_eq_exp_minus_1)
qed

lemma pathCostFrom_snoc:
  "p \<noteq> [] \<Longrightarrow> pathCostFrom cost tot (p @ [k]) = pathCostFrom cost tot p + cost (last p) k"
  by (induction cost tot p rule: pathCostFrom.induct) auto

lemma hkInv_step:
  assumes inv: "hkInv cost E s" and m: "\<And>m' j' k'. (m', j', k') \<in> E \<Longrightarrow> m' \<le> m"
  shows "hkInv cost (insert (m, j, k) E) (relaxEdge cost s (m, j, k))"
proof -
  obtain dp parent where s: "s = (dp, parent)" by (cases s)
  show ?thesis
  proof (cases "bit m 0 \<and> bit m j \<and> \<not> bit m k \<and> extPlus (dp m j) (cost j k) < dp (set_bit k m) k")
    case False
    then have "relaxEdge cost s (m, j, k) = s" by (auto simp: s)
    moreover have "bit m 0 \<longrightarrow> bit m j \<longrightarrow> \<not> bit m k \<longrightarrow> fst s (set_bit k m) k \<le> extPlus (fst s m j) (cost j k)"
      using False by (auto simp: s not_less)
    ultimately show ?thesis using inv unfolding hkInv_def by (simp only: ball_simps) blast
  next
    case True
    let ?S = "set_bit k m" and ?v = "extPlus (dp m j) (cost j k)"
    have S: "m < ?S" using True by (simp add: set_bit_gt)
    have other: "m' \<noteq> ?S" if "(m', j', k') \<in> insert (m, j, k) E" for m' j' k'
      using that m [of m' j' k'] S by auto
    have S1: "?S \<noteq> 1"
    proof
      assume "?S = 1"
      then have "bit (1::nat) k" by (metis bit_set_bit_iff possible_bit_nat)
      then have "k = 0" by (simp add: bit_Suc_0_iff)
      with True show False by blast
    qed
    have r: "relaxEdge cost s (m, j, k) = (dp(?S := (dp ?S)(k := ?v)), parent(?S := (parent ?S)(k := int j)))"
      using True by (simp add: s)
    have le: "(dp(?S := (dp ?S)(k := ?v))) T x \<le> dp T x" for T x using True by auto
    show ?thesis
      unfolding hkInv_def r fst_conv snd_conv
    proof (intro conjI allI impI ballI)
      show "(dp(?S := (dp ?S)(k := ?v))) 1 0 = Fin 0" using inv S1 by (auto simp: hkInv_def s)
    next
      fix e assume e: "e \<in> insert (m, j, k) E"
      obtain m' j' k' where e': "e = (m', j', k')" by (cases e)
      have "bit m' 0 \<longrightarrow> bit m' j' \<longrightarrow> \<not> bit m' k' \<longrightarrow>
          (dp(?S := (dp ?S)(k := ?v))) (set_bit k' m') k' \<le> extPlus (dp m' j') (cost j' k')"
      proof (cases "e = (m, j, k)")
        case True
        then show ?thesis by (simp add: e')
      next
        case False
        with e e' inv have "bit m' 0 \<longrightarrow> bit m' j' \<longrightarrow> \<not> bit m' k' \<longrightarrow>
            dp (set_bit k' m') k' \<le> extPlus (dp m' j') (cost j' k')"
          by (auto simp: hkInv_def s)
        with le show ?thesis by (meson order.trans)
      qed
      then show "case e of (m', j', k') \<Rightarrow> bit m' 0 \<longrightarrow> bit m' j' \<longrightarrow> \<not> bit m' k' \<longrightarrow>
          (dp(?S := (dp ?S)(k := ?v))) (set_bit k' m') k' \<le> extPlus ((dp(?S := (dp ?S)(k := ?v))) m' j') (cost j' k')"
        using other [of m' j' k'] e e' by simp
    next
      fix T x assume fin: "(dp(?S := (dp ?S)(k := ?v))) T x \<noteq> PInf"
      show "T = 1 \<and> x = 0 \<or>
        (\<exists>m' i. (m', i, x) \<in> insert (m, j, k) E \<and> bit m' 0 \<and> bit m' i \<and> \<not> bit m' x \<and> T = set_bit x m' \<and>
           (parent(?S := (parent ?S)(k := int j))) T x = int i \<and>
           (dp(?S := (dp ?S)(k := ?v))) T x = extPlus ((dp(?S := (dp ?S)(k := ?v))) m' i) (cost i x))"
      proof (cases "T = ?S \<and> x = k")
        case new: True
        then show ?thesis using True S by (intro disjI2 exI [of _ m] exI [of _ j]) auto
      next
        case old: False
        then have same: "(dp(?S := (dp ?S)(k := ?v))) T x = dp T x"
            "(parent(?S := (parent ?S)(k := int j))) T x = parent T x" by auto
        with fin inv have "T = 1 \<and> x = 0 \<or> (\<exists>m' i. (m', i, x) \<in> E \<and> bit m' 0 \<and> bit m' i \<and> \<not> bit m' x \<and>
            T = set_bit x m' \<and> parent T x = int i \<and> dp T x = extPlus (dp m' i) (cost i x))"
          by (simp add: hkInv_def s)
        then show ?thesis unfolding same using other by (metis fun_upd_other insertI2)
      qed
    qed
  qed
qed

lemma hkInv_fold:
  "hkInv cost E s \<Longrightarrow> sorted (map fst es) \<Longrightarrow> \<forall>(m', j', k') \<in> E. \<forall>e \<in> set es. m' \<le> fst e \<Longrightarrow>
   hkInv cost (E \<union> set es) (foldl (relaxEdge cost) s es)"
proof (induction es arbitrary: E s)
  case (Cons e es)
  obtain m j k where e: "e = (m, j, k)" by (cases e)
  have "hkInv cost (insert (m, j, k) E) (relaxEdge cost s (m, j, k))"
    using Cons.prems by (intro hkInv_step) (auto simp: e)
  then have "hkInv cost (insert (m, j, k) E \<union> set es) (foldl (relaxEdge cost) (relaxEdge cost s (m, j, k)) es)"
    using Cons.prems by (intro Cons.IH) (auto simp: e)
  then show ?case by (simp add: e)
qed simp

lemma hkInv_init: "hkInv cost {} hkInit"
  by (auto simp: hkInv_def hkInit_def)

lemma set_hkEdges [simp]: "set (hkEdges n msks) = set msks \<times> {..<n} \<times> {..<n}"
  by (auto simp: hkEdges_def image_iff)

lemma sorted_const: "(\<And>x. x \<in> set xs \<Longrightarrow> x = c) \<Longrightarrow> sorted xs"
  by (induction xs) auto

lemma sorted_hkEdges: "sorted msks \<Longrightarrow> sorted (map fst (hkEdges n msks))"
proof (induction msks)
  case (Cons m msks)
  let ?row = "[(m, j, k). j \<leftarrow> [0..<n], k \<leftarrow> [0..<n]]"
  have eq: "hkEdges n (m # msks) = ?row @ hkEdges n msks" by (simp add: hkEdges_def)
  have row: "x = m" if "x \<in> set (map fst ?row)" for x using that by auto
  then have "sorted (map fst ?row)" by (rule sorted_const)
  moreover have "sorted (map fst (hkEdges n msks))" using Cons by simp
  moreover have "x \<le> y" if "x \<in> set (map fst ?row)" "y \<in> set (map fst (hkEdges n msks))" for x y
  proof -
    have "x = m" using that(1) by (rule row)
    moreover have "y \<in> set msks" using that(2) by (auto split: if_splits)
    ultimately show ?thesis using Cons.prems by simp
  qed
  ultimately show ?case unfolding eq map_append sorted_append by blast
qed (simp add: hkEdges_def)


locale path_cost =
  fixes cost :: "nat \<Rightarrow> nat \<Rightarrow> 'a::{linorder,plus,zero}"
  assumes cost_mono: "a \<le> b \<Longrightarrow> a + cost i j \<le> b + cost i j"
begin

lemma extPlus_mono: "x \<le> y \<Longrightarrow> extPlus x (cost i j) \<le> extPlus y (cost i j)"
  by (cases x; cases y) (auto simp: cost_mono)

lemma table_le_path:
  assumes inv: "hkInv cost ({..<2 ^ n} \<times> {..<n} \<times> {..<n}) s"
  shows "hostPath n p \<Longrightarrow> fst s (maskOf p) (last p) \<le> Fin (pathCost cost p)"
proof (induction p rule: rev_induct)
  case (snoc k q)
  show ?case
  proof (cases "q = []")
    case True
    with snoc.prems inv show ?thesis by (simp add: hostPath_def hkInv_def maskOf_host pathCost_def)
  next
    case False
    with snoc.prems have q: "hostPath n q" "k < n" "k \<notin> set q" "0 \<in> set q" "last q < n"
      using hd_in_set [of q] last_in_set [of q] by (auto simp: hostPath_def simp del: hd_in_set last_in_set)
    have "maskOf q < 2 ^ n" using q(1) by (simp add: maskOf_less hostPath_def)
    with inv q False have "fst s (set_bit k (maskOf q)) k \<le> extPlus (fst s (maskOf q) (last q)) (cost (last q) k)"
      by (auto simp: hkInv_def)
    also have "\<dots> \<le> extPlus (Fin (pathCost cost q)) (cost (last q) k)"
      by (intro extPlus_mono snoc.IH q)
    finally show ?thesis using False by (simp add: maskOf_snoc pathCost_def pathCostFrom_snoc)
  qed
qed (simp add: hostPath_def)

lemma table_walk:
  assumes inv: "hkInv cost ({..<2 ^ n} \<times> {..<n} \<times> {..<n}) s" and n: "0 < n"
  shows "fst s S j \<noteq> PInf \<Longrightarrow> \<exists>p. hostPath n p \<and> maskOf p = S \<and> last p = j \<and>
     fst s S j = Fin (pathCost cost p) \<and> hkWalk (snd s) n (length p) S (int j) = Some p"
proof (induction S arbitrary: j rule: less_induct)
  case (less S)
  with inv consider "S = 1" "j = 0"
    | m i where "i < n" "j < n" "bit m i" "\<not> bit m j" "S = set_bit j m" "snd s S j = int i"
        "fst s S j = extPlus (fst s m i) (cost i j)"
    unfolding hkInv_def by blast
  then show ?case
  proof cases
    case 1
    with inv n show ?thesis
      by (intro exI [of _ "[0]"]) (simp add: hkInv_def hostPath_def maskOf_host pathCost_def)
  next
    case 2
    have "fst s m i \<noteq> PInf" using 2(7) less.prems by auto
    then obtain p where p: "hostPath n p" "maskOf p = m" "last p = i" "fst s m i = Fin (pathCost cost p)"
        "hkWalk (snd s) n (length p) m (int i) = Some p"
      using less.IH [of m i] 2 set_bit_gt by auto
    then have "p \<noteq> []" "j \<notin> set p" using 2(4) by (auto simp: hostPath_def)
    with 2 p show ?thesis
      by (intro exI [of _ "p @ [j]"])
        (auto simp: hostPath_def maskOf_snoc pathCost_def pathCostFrom_snoc flip_set_bit)
  qed
qed

end

lemma hkBest_le:
  "hkBest row js (e, row e) = r \<Longrightarrow> r \<in> insert e (set js) \<and> (\<forall>j \<in> insert e (set js). row r \<le> row j)"
proof (induction js arbitrary: e)
  case (Cons j js)
  show ?case
  proof (cases "row j < row e")
    case True
    then show ?thesis using Cons.IH [of j] Cons.prems by auto
  next
    case False
    then show ?thesis using Cons.IH [of e] Cons.prems by auto
  qed
qed simp

context path_cost
begin

lemma heldKarp_optimal:
  assumes n: "0 < n" and s: "s = hkOuter cost n [0..<2 ^ n] hkInit"
  shows "\<exists>p. hkWalk (snd s) n n (2 ^ n - 1) (int (hkBest (fst s (2 ^ n - 1)) [1..<n] (0, fst s (2 ^ n - 1) 0))) = Some p \<and>
     hostPath n p \<and> set p = {..<n} \<and>
     (\<forall>q. hostPath n q \<longrightarrow> set q = {..<n} \<longrightarrow> pathCost cost p \<le> pathCost cost q)"
proof -
  have inv: "hkInv cost ({..<2 ^ n} \<times> {..<n} \<times> {..<n}) s"
    using hkInv_fold [OF hkInv_init, of "hkEdges n [0..<2 ^ n]" cost]
    by (simp add: s hkOuter_edges sorted_hkEdges lessThan_atLeast0)
  let ?full = "2 ^ n - 1 :: nat"
  define e where "e = hkBest (fst s ?full) [1..<n] (0, fst s ?full 0)"
  have e: "e < n" "fst s ?full e \<le> fst s ?full j" if "j < n" for j
    using hkBest_le [OF e_def [symmetric]] n that by (cases "j = 0"; auto)+
  have le: "fst s ?full e \<le> Fin (pathCost cost q)" if "hostPath n q" "set q = {..<n}" for q
  proof -
    have "maskOf q = ?full" using that(2) by (rule maskOf_full)
    then have "fst s ?full (last q) \<le> Fin (pathCost cost q)" using table_le_path [OF inv that(1)] by simp
    moreover have "last q \<in> set q" using that(1) by (simp add: hostPath_def)
    then have "last q < n" using that(2) by simp
    ultimately show ?thesis using e(2) by (blast intro: order_trans)
  qed
  have "hostPath n [0..<n]" using n by (auto simp: hostPath_def)
  from le [OF this] have "fst s ?full e \<noteq> PInf" by (auto simp: lessThan_atLeast0)
  from table_walk [OF inv n this] obtain p where p: "hostPath n p" "maskOf p = ?full"
      "fst s ?full e = Fin (pathCost cost p)" "hkWalk (snd s) n (length p) ?full (int e) = Some p" by auto
  have "maskOf p = maskOf [0..<n]" unfolding p(2) by (rule maskOf_full [symmetric]) auto
  then have "k \<in> set p \<longleftrightarrow> k \<in> set [0..<n]" for k by (metis bit_maskOf)
  then have set: "set p = {..<n}" by auto
  have "length p = n" using p(1) set by (metis hostPath_def distinct_card card_lessThan)
  moreover have "pathCost cost p \<le> pathCost cost q" if "hostPath n q" "set q = {..<n}" for q
    using le [OF that] unfolding p(3) by simp
  ultimately show ?thesis using p(1,4) set unfolding e_def by blast
qed

end

interpretation hk: path_cost "hkCost nodes model links" for nodes model links
  by unfold_locales simp

lemma mset_indices:
  "mset ys = mset xs \<Longrightarrow> \<exists>q. distinct q \<and> set q = {..<length xs} \<and> ys = map ((!) xs) q"
proof (induction ys arbitrary: xs)
  case (Cons y ys)
  then obtain as bs where xs: "xs = as @ y # bs" by (metis list.set_intros(1) set_mset_mset split_list)
  with Cons.prems have "mset ys = mset (as @ bs)" by simp
  then obtain q where q: "distinct q" "set q = {..<length (as @ bs)}" "ys = map ((!) (as @ bs)) q"
    using Cons.IH by blast
  let ?f = "\<lambda>i. if i < length as then i else Suc i"
  have inj: "inj_on ?f A" for A by (auto simp: inj_on_def)
  have range: "?f ` {..<length (as @ bs)} = {..<length xs} - {length as}"
  proof (intro equalityI subsetI)
    fix k assume "k \<in> {..<length xs} - {length as}"
    then show "k \<in> ?f ` {..<length (as @ bs)}"
      by (intro image_eqI [of _ _ "if k < length as then k else k - 1"]) (auto simp: xs)
  qed (auto simp: xs)
  have "map ((!) xs) (map ?f q) = ys" unfolding q(3) xs by (simp add: nth_append Suc_diff_le)
  then have "y # ys = map ((!) xs) (length as # map ?f q)" by (simp add: xs)
  moreover have "set (length as # map ?f q) = {..<length xs}"
    unfolding list.set set_map q(2) range by (simp add: xs insert_absorb)
  moreover have "distinct (length as # map ?f q)"
    by (simp add: distinct_map inj q(1)) auto
  ultimately show ?case by (intro exI [of _ "length as # map ?f q"] conjI)
qed simp

lemma orderCost_path:
  "distinct p \<Longrightarrow> orderCostFrom tot (map ((!) nodes) p) model links = pathCostFrom (hkCost nodes model links) tot p"
  by (induction p arbitrary: tot rule: induct_list012) (simp_all add: hkCost_def)

lemma mset_map_nth:
  assumes "distinct p" "set p = {..<length xs}"
  shows "mset (map ((!) xs) p) = mset xs"
proof -
  have "set p = set [0..<length xs]" unfolding assms(2) by (rule atLeast_upt)
  then have p: "mset p = mset [0..<length xs]" using assms(1) by (simp only: set_eq_iff_mset_eq_distinct distinct_upt)
  have "mset (map ((!) xs) p) = mset (map ((!) xs) [0..<length xs])" by (simp only: mset_map p)
  then show ?thesis by (simp only: map_nth)
qed

lemma heldKarpPath_small:
  assumes n: "nodes \<noteq> []" "int (length nodes) \<le> orderingThresholdMax"
  shows "\<exists>route. heldKarpPath nodes model links = Some route \<and> mset route = mset nodes \<and> hd route = hd nodes \<and>
     (\<forall>other. mset other = mset nodes \<longrightarrow> hd other = hd nodes \<longrightarrow>
        orderCost route model links \<le> orderCost other model links)"
proof -
  let ?cost = "hkCost nodes model links" and ?n = "length nodes"
  obtain p where p: "heldKarpPath nodes model links = Some (map ((!) nodes) p)" "hostPath ?n p" "set p = {..<?n}"
    "\<And>q. hostPath ?n q \<Longrightarrow> set q = {..<?n} \<Longrightarrow> pathCost ?cost p \<le> pathCost ?cost q"
    using hk.heldKarp_optimal [of ?n _ nodes model links, OF _ refl] n
    by (force simp: heldKarpPath_def Let_def case_prod_beta)
  have route: "hd (map ((!) nodes) p) = hd nodes" "distinct p"
    using p(2) n by (auto simp: hostPath_def hd_map hd_conv_nth)
  have "orderCost (map ((!) nodes) p) model links \<le> orderCost other model links"
    if other: "mset other = mset nodes" "hd other = hd nodes" for other
  proof -
    have ne: "other \<noteq> []" using other n by auto
    have "mset (tl other) = mset (tl nodes)" using other ne n by (cases other; cases nodes) auto
    from mset_indices [OF this] obtain q where q: "distinct q" "set q = {..<?n - 1}" "tl other = map ((!) (tl nodes)) q"
      by auto
    have eq: "other = map ((!) nodes) (0 # map Suc q)"
      using q(3) other(2) ne n by (cases other; cases nodes) auto
    have range: "set (0 # map Suc q) = {..<?n}"
      using q(2) n by (cases nodes) (auto simp: lessThan_Suc_eq_insert_0)
    then have path: "hostPath ?n (0 # map Suc q)" using q(1) by (simp add: hostPath_def distinct_map)
    show ?thesis unfolding orderCost_def eq
      using p(4) [OF path range] path route(2) by (simp only: orderCost_path hostPath_def pathCost_def)
  qed
  with p route mset_map_nth [OF route(2) p(3)] show ?thesis by blast
qed

section \<open>Nearest neighbour and 2-opt\<close>

lemma nnPick_spec:
  "(nnPick c visited ks (nxt, b) = nxt \<and> (\<forall>k \<in> set ks. visited ! k \<or> b \<le> Fin (c k))) \<or>
   (\<exists>k \<in> set ks. \<not> visited ! k \<and> nnPick c visited ks (nxt, b) = int k \<and> Fin (c k) < b \<and>
      (\<forall>k' \<in> set ks. visited ! k' \<or> c k \<le> c k'))"
proof (induction ks arbitrary: nxt b)
  case (Cons k ks)
  show ?case
  proof (cases "\<not> visited ! k \<and> Fin (c k) < b")
    case True
    have "Fin (c k') < b" if "c k' < c k" for k'
      using less_trans [of "Fin (c k')" "Fin (c k)" b] that True by simp
    then show ?thesis using True Cons.IH [of "int k" "Fin (c k)"] by (simp add: order.order_iff_strict) blast
  next
    case False
    have "c k' \<le> c k" if "Fin (c k') < b" "b \<le> Fin (c k)" for k'
      using less_le_trans [OF that] by simp
    moreover have "nnPick c visited (k # ks) (nxt, b) = nnPick c visited ks (nxt, b)" using False by auto
    moreover have "visited ! k \<or> b \<le> Fin (c k)" using False by (simp add: not_less)
    ultimately show ?thesis using Cons.IH [of nxt b] unfolding list.set by (metis insert_iff)
  qed
qed simp

lemma nnPick_nearest:
  assumes "k0 < n" "\<not> visited ! k0"
  obtains k where "k < n" "\<not> visited ! k" "nnPick c visited [0..<n] (- 1, PInf) = int k"
    "\<And>k'. k' < n \<Longrightarrow> \<not> visited ! k' \<Longrightarrow> c k \<le> c k'"
proof -
  from nnPick_spec [of c visited "[0..<n]" "- 1" PInf] assms
  obtain k where "k < n" "\<not> visited ! k" "nnPick c visited [0..<n] (- 1, PInf) = int k"
    "\<forall>k' \<in> set [0..<n]. visited ! k' \<or> c k \<le> c k'" by auto
  then show thesis by (intro that [of k]) auto
qed

lemma nnLoop_greedy:
  assumes "card {k. k < n \<and> \<not> visited ! k} = left" "length visited = n"
  shows "\<exists>r. nnLoop c n left visited cur = Some r \<and> distinct r \<and> set r = {k. k < n \<and> \<not> visited ! k}"
  using assms
proof (induction left arbitrary: visited cur)
  case (Suc left)
  let ?U = "{k. k < n \<and> \<not> visited ! k}"
  have "?U \<noteq> {}" using Suc.prems(1) by (metis card.empty nat.distinct(1))
  then obtain k0 where "k0 < n" "\<not> visited ! k0" by blast
  then obtain k where k: "k < n" "\<not> visited ! k" "nnPick (c cur) visited [0..<n] (- 1, PInf) = int k"
    by (rule nnPick_nearest [of _ n visited "c cur"])
  have U: "{k'. k' < n \<and> \<not> visited[k := True] ! k'} = ?U - {k}"
    using k(1) Suc.prems(2) by (auto simp: nth_list_update)
  have "card {k'. k' < n \<and> \<not> visited[k := True] ! k'} = left"
    unfolding U using Suc.prems(1) k by (subst card_Diff_singleton) auto
  with Suc.IH [of "visited[k := True]" k] Suc.prems(2) obtain r where
    "nnLoop c n left (visited[k := True]) k = Some r" "distinct r" "set r = ?U - {k}" unfolding U by auto
  with k show ?case by (intro exI [of _ "k # r"]) (auto simp: Let_def)
qed simp

lemma nearestNeighborOrder_perm:
  assumes "nodes \<noteq> []"
  obtains route where "nearestNeighborOrder nodes model links = Some route" "mset route = mset nodes" "hd route = hd nodes"
proof -
  let ?n = "length nodes"
  let ?v = "(replicate ?n False)[0 := True]"
  have U: "{k. k < ?n \<and> \<not> ?v ! k} = {1..<?n}" using assms by (auto simp: nth_list_update Suc_le_eq intro: Suc_leI gr0I)
  obtain r where r: "nnLoop (\<lambda>i k. edgeCost (nodeID (nodes ! i)) (nodeID (nodes ! k)) model links) ?n (?n - 1) ?v 0 = Some r"
      "distinct r" "set r = {1..<?n}"
    using nnLoop_greedy [of ?n ?v "?n - 1"] unfolding U by force
  have "insert 0 {1..<?n} = {..<?n}" using assms by auto
  then have "mset (map ((!) nodes) (0 # r)) = mset nodes" using r by (intro mset_map_nth) simp_all
  then show thesis using that [of "map ((!) nodes) (0 # r)"] r(1) assms
    by (simp add: nearestNeighborOrder_def Let_def hd_conv_nth)
qed

lemma reverseSegment_perm:
  "r < length xs \<Longrightarrow> mset (reverseSegment xs l r) = mset xs \<and> length (reverseSegment xs l r) = length xs"
proof (induction xs l r rule: reverseSegment.induct)
  case (1 cand l r)
  show ?case
  proof (cases "l < r")
    case True
    with 1 show ?thesis by (subst (1 2) reverseSegment.simps) (simp add: mset_swap)
  qed (simp add: reverseSegment.simps)
qed

lemma reverseSegment_nth:
  "r < length xs \<Longrightarrow> i < length xs \<Longrightarrow>
   reverseSegment xs l r ! i = (if l \<le> i \<and> i \<le> r then xs ! (l + r - i) else xs ! i)"
proof (induction xs l r rule: reverseSegment.induct)
  case (1 cand l r)
  show ?case
  proof (cases "l < r")
    case True
    with 1 have "reverseSegment cand l r ! i =
       (if l + 1 \<le> i \<and> i \<le> r - 1 then cand[l := cand ! r, r := cand ! l] ! (l + 1 + (r - 1) - i)
        else cand[l := cand ! r, r := cand ! l] ! i)"
      by (subst reverseSegment.simps) simp
    then show ?thesis using True 1 by (auto simp: nth_list_update)
  next
    case False
    then show ?thesis by (subst reverseSegment.simps) (auto intro: arg_cong [of _ _ "(!) cand"])
  qed
qed

lemma reverseSegment_hd:
  assumes "0 < l" "r < length xs"
  shows "hd (reverseSegment xs l r) = hd xs"
proof -
  have "reverseSegment xs l r ! 0 = xs ! 0" using assms by (subst reverseSegment_nth) auto
  moreover have "reverseSegment xs l r \<noteq> []" "xs \<noteq> []"
    using reverseSegment_perm [OF assms(2), of l] assms by auto
  ultimately show ?thesis by (simp add: hd_conv_nth)
qed

lemma set_segments: "set (segments n) = {(i, k). 1 \<le> i \<and> i < k \<and> k < n}"
proof (intro equalityI subsetI)
  fix ik assume "ik \<in> {(i, k). 1 \<le> i \<and> i < k \<and> k < n}"
  then obtain i k where "ik = (i, k)" "1 \<le> i" "i < k" "k < n" by auto
  then show "ik \<in> set (segments n)"
    by (simp add: segments_def) (auto intro!: bexI [of _ i])
qed (auto simp: segments_def)

lemma sameRoute_length: "sameRoute r r' \<Longrightarrow> length r' = length r"
  by (auto simp: sameRoute_def dest: mset_eq_length)

lemma sameRoute_trans: "sameRoute r r' \<Longrightarrow> sameRoute r' r'' \<Longrightarrow> sameRoute r r''"
  by (simp add: sameRoute_def)

lemma sameRoute_reverse: "0 < i \<Longrightarrow> k < length r \<Longrightarrow> sameRoute r (reverseSegment r i k)"
  by (simp add: sameRoute_def reverseSegment_perm reverseSegment_hd)

lemma twoOptImproveEps_pos: "0 < twoOptImproveEps"
  by (simp add: twoOptImproveEps_def)

lemma twoOptSweep_route:
  assumes "\<forall>(i, k) \<in> set iks. 0 < i \<and> k < length best"
    and "c = orderCost best model links"
    and "twoOptSweep model links iks (best, c, imp) = (best', c', imp')"
  shows "sameRoute best best' \<and> c' = orderCost best' model links \<and> c' \<le> c"
  using assms
proof (induction iks arbitrary: best c imp)
  case (Cons ik iks)
  obtain i k where ik: "ik = (i, k)" by (cases ik)
  let ?cand = "reverseSegment best i k" and ?c = "orderCost (reverseSegment best i k) model links"
  show ?case
  proof (cases "?c < c - twoOptImproveEps")
    case True
    have cand: "sameRoute best ?cand" using Cons.prems(1) by (intro sameRoute_reverse) (auto simp: ik)
    have "sameRoute ?cand best' \<and> c' = orderCost best' model links \<and> c' \<le> ?c"
      using Cons.prems True sameRoute_length [OF cand] by (intro Cons.IH [of ?cand ?c True]) (auto simp: ik Let_def)
    then show ?thesis using cand True twoOptImproveEps_pos by (auto intro: sameRoute_trans)
  next
    case False
    with Cons.prems show ?thesis by (intro Cons.IH [of best c imp]) (auto simp: ik Let_def)
  qed
qed (simp add: sameRoute_def)

lemma twoOptSweep_improved: "snd (snd (twoOptSweep model links iks (best, c, True)))"
  by (induction iks arbitrary: best c) (auto simp: Let_def)

lemma twoOptSweep_le: "fst (snd (twoOptSweep model links iks (best, c, imp))) \<le> c"
proof (induction iks arbitrary: best c imp)
  case (Cons ik iks)
  obtain i k where ik: "ik = (i, k)" by (cases ik)
  let ?cand = "reverseSegment best i k" and ?c = "orderCost (reverseSegment best i k) model links"
  show ?case using Cons.IH [of ?cand ?c True] Cons.IH [of best c imp] twoOptImproveEps_pos
    by (simp add: ik Let_def)
qed simp

lemma twoOptSweep_progress:
  "snd (snd (twoOptSweep model links iks (best, c, False))) \<Longrightarrow>
   fst (snd (twoOptSweep model links iks (best, c, False))) \<le> c - twoOptImproveEps"
proof (induction iks)
  case (Cons ik iks)
  obtain i k where ik: "ik = (i, k)" by (cases ik)
  let ?cand = "reverseSegment best i k" and ?c = "orderCost (reverseSegment best i k) model links"
  show ?case using Cons twoOptSweep_le [of model links iks ?cand ?c True]
    by (simp add: ik Let_def split: if_splits)
qed simp

lemma twoOptSweep_stable:
  "twoOptSweep model links iks (best, c, False) = (best', c', False) \<Longrightarrow>
   best' = best \<and> (\<forall>(i, k) \<in> set iks. c - twoOptImproveEps \<le> orderCost (reverseSegment best i k) model links)"
proof (induction iks)
  case (Cons ik iks)
  obtain i k where ik: "ik = (i, k)" by (cases ik)
  show ?case
  proof (cases "orderCost (reverseSegment best i k) model links < c - twoOptImproveEps")
    case True
    with Cons.prems show ?thesis
      using twoOptSweep_improved [of model links iks "reverseSegment best i k" "orderCost (reverseSegment best i k) model links"]
      by (simp add: ik Let_def)
  next
    case False
    with Cons show ?thesis by (simp add: ik Let_def not_less)
  qed
qed simp

text \<open>Either some pass left the route as it was, and then no reversal improves it by more than the
  tolerance, or every one of the passes made progress.\<close>

lemma twoOptPasses_route:
  assumes "c = orderCost best model links"
  shows "sameRoute best (twoOptPasses passes model links best c) \<and>
    (let r = twoOptPasses passes model links best c
     in (twoOptLocal model links r \<and> orderCost r model links \<le> c) \<or>
        orderCost r model links \<le> c - of_nat passes * twoOptImproveEps)"
  using assms
proof (induction passes arbitrary: best c)
  case (Suc passes)
  obtain best' c' imp where sweep: "twoOptSweep model links (segments (length best)) (best, c, False) = (best', c', imp)"
    by (cases "twoOptSweep model links (segments (length best)) (best, c, False)")
  have route: "sameRoute best best'" "c' = orderCost best' model links" "c' \<le> c"
    using twoOptSweep_route [OF _ Suc.prems sweep] by (auto simp: set_segments)
  have step: "twoOptPasses (Suc passes) model links best c = (if imp then twoOptPasses passes model links best' c' else best')"
    by (simp add: sweep Let_def)
  show ?case
  proof (cases imp)
    case False
    then have "best' = best" "twoOptLocal model links best"
      using twoOptSweep_stable [of model links "segments (length best)" best c best' c'] sweep Suc.prems
      by (auto simp: twoOptLocal_def set_segments)
    then show ?thesis unfolding step using False Suc.prems by (simp add: sameRoute_def)
  next
    case True
    then have "c' \<le> c - twoOptImproveEps"
      using twoOptSweep_progress [of model links "segments (length best)" best c] by (simp add: sweep)
    then show ?thesis unfolding step using Suc.IH [OF route(2)] route True
      by (auto simp: Let_def algebra_simps intro: sameRoute_trans)
  qed
qed (simp add: sameRoute_def Let_def)

lemma twoOptImprove_route:
  "sameRoute route (twoOptImprove route model links) \<and>
   orderCost (twoOptImprove route model links) model links \<le> orderCost route model links"
proof -
  have "0 \<le> of_nat twoOptMaxPasses * twoOptImproveEps" using twoOptImproveEps_pos by simp
  then show ?thesis
    using twoOptPasses_route [of "orderCost route model links" route model links twoOptMaxPasses]
    by (auto simp: twoOptImprove_def sameRoute_def Let_def)
qed

lemma nearestNeighbor2Opt_route:
  assumes "nodes \<noteq> []"
  shows "\<exists>nn route. nearestNeighborOrder nodes model links = Some nn \<and> nearestNeighbor2Opt nodes model links = Some route \<and>
    sameRoute nodes route \<and> orderCost route model links \<le> orderCost nn model links"
proof -
  obtain nn where "nearestNeighborOrder nodes model links = Some nn" "mset nn = mset nodes" "hd nn = hd nodes"
    using nearestNeighborOrder_perm [OF assms] .
  then show ?thesis using twoOptImprove_route [of nn model links]
    by (auto simp: nearestNeighbor2Opt_def sameRoute_def)
qed

lemma nearestNeighbor2Opt_local:
  assumes "nodes \<noteq> []"
  shows "\<exists>nn route. nearestNeighborOrder nodes model links = Some nn \<and>
     nearestNeighbor2Opt nodes model links = Some route \<and> mset route = mset nodes \<and> hd route = hd nodes \<and>
     orderCost route model links \<le> orderCost nn model links \<and>
     (4 \<le> length nodes \<longrightarrow> twoOptLocal model links route \<or>
      orderCost route model links \<le> orderCost nn model links - of_nat twoOptMaxPasses * twoOptImproveEps)"
proof -
  obtain nn where nn: "nearestNeighborOrder nodes model links = Some nn" "mset nn = mset nodes" "hd nn = hd nodes"
    using nearestNeighborOrder_perm [OF assms] .
  let ?r = "twoOptImprove nn model links"
  have "length nn = length nodes" using nn(2) by (rule mset_eq_length)
  then have "4 \<le> length nodes \<longrightarrow> twoOptLocal model links ?r \<or>
      orderCost ?r model links \<le> orderCost nn model links - of_nat twoOptMaxPasses * twoOptImproveEps"
    using twoOptPasses_route [of "orderCost nn model links" nn model links twoOptMaxPasses]
    by (auto simp: twoOptImprove_def Let_def)
  with nn twoOptImprove_route [of nn model links] show ?thesis
    by (auto simp: nearestNeighbor2Opt_def sameRoute_def)
qed

text \<open>On three nodes the guard \<^verbatim>\<open>n < 4\<close> skips the one reversal behind the host, although it keeps the
  host and can shorten the route.\<close>

lemma twoOptImprove_three_nodes:
  "let links = [exLink ''a'' ''b'' 1, exLink ''a'' ''c'' 2, exLink ''c'' ''b'' 1];
       route = [exNode ''a'' 8, exNode ''b'' 8, exNode ''c'' 8]
   in map nodeID (twoOptImprove route exModel links) = [''a'', ''b'', ''c''] \<and>
      orderCost (reverseSegment route 1 2) exModel links < orderCost route exModel links - twoOptImproveEps"
  by code_simp

section \<open>The host and the order\<close>

lemma findHost_None: "findHost i ns h = None \<longleftrightarrow> h \<notin> nodeID ` set ns"
  by (induction ns arbitrary: i) auto

lemma findHost_Some: "findHost i ns h = Some j \<Longrightarrow> i \<le> j \<and> j < i + length ns \<and> nodeID (ns ! (j - i)) = h"
proof (induction ns arbitrary: i)
  case (Cons n ns)
  show ?case
  proof (cases "nodeID n = h")
    case False
    with Cons.prems Cons.IH [of "Suc i"] have "Suc i \<le> j \<and> j < Suc i + length ns \<and> nodeID (ns ! (j - Suc i)) = h" by simp
    moreover from this have "j - i = Suc (j - Suc i)" by linarith
    ultimately show ?thesis by simp
  qed (use Cons.prems in simp)
qed simp

lemma mostCapable_max:
  assumes "best < length pre" "\<forall>n \<in> set pre. usefulCapacity n \<le> usefulCapacity ((pre @ ns) ! best)"
    "bestCap = usefulCapacity ((pre @ ns) ! best)" "mostCapable (length pre) ns (best, bestCap) = r"
  shows "r < length (pre @ ns) \<and> (\<forall>n \<in> set (pre @ ns). usefulCapacity n \<le> usefulCapacity ((pre @ ns) ! r))"
  using assms
proof (induction ns arbitrary: pre best bestCap)
  case (Cons n ns)
  have split: "pre @ n # ns = (pre @ [n]) @ ns" "length (pre @ [n]) = Suc (length pre)" by simp_all
  show ?case
  proof (cases "usefulCapacity n > bestCap")
    case True
    have "\<forall>x \<in> set (pre @ [n]). usefulCapacity x \<le> usefulCapacity (((pre @ [n]) @ ns) ! length pre)"
      using Cons.prems True by (auto simp: nth_append)
    with Cons.prems True show ?thesis unfolding split(1)
      by (intro Cons.IH [of "length pre" "pre @ [n]"]) (simp_all add: Let_def nth_append)
  next
    case False
    with Cons.prems show ?thesis unfolding split(1)
      by (intro Cons.IH [of best "pre @ [n]"]) (auto simp add: Let_def)
  qed
qed simp

lemma hostOf_set_cong: "set nodes = set nodes' \<Longrightarrow> hostOf nodes c n \<longleftrightarrow> hostOf nodes' c n"
  by (simp only: hostOf_def)

lemma chooseHostIndex_hostOf:
  assumes "nodes \<noteq> []"
  obtains i where "chooseHostIndex nodes c = Some i" "i < length nodes" "hostOf nodes c (nodes ! i)"
proof (cases "Option.bind (ForceHost c) (findHost 0 nodes)")
  case None
  obtain n ns where nodes: "nodes = n # ns" using assms by (cases nodes) auto
  define r where "r = mostCapable 1 ns (0, usefulCapacity n)"
  have "r < length ([n] @ ns) \<and> (\<forall>x \<in> set ([n] @ ns). usefulCapacity x \<le> usefulCapacity (([n] @ ns) ! r))"
    by (rule mostCapable_max [of 0 "[n]" ns "usefulCapacity n"]) (simp_all add: r_def)
  then have r: "r < length nodes" "\<forall>x \<in> set nodes. usefulCapacity x \<le> usefulCapacity (nodes ! r)"
    unfolding nodes by simp_all
  moreover have "chooseHostIndex nodes c = Some r" using None by (simp add: chooseHostIndex_def nodes r_def)
  moreover have "h \<notin> nodeID ` set nodes" if "ForceHost c = Some h" for h
    using None that by (simp add: findHost_None)
  then have "hostOf nodes c (nodes ! r)" using r by (simp add: hostOf_def split: option.split)
  ultimately show thesis by (intro that [of r])
next
  case (Some i)
  then obtain h where h: "ForceHost c = Some h" "findHost 0 nodes h = Some i" by (auto simp: bind_eq_Some_conv)
  from findHost_Some [OF h(2)] have i: "i < length nodes" "nodeID (nodes ! i) = h" by simp_all
  then have "hostOf nodes c (nodes ! i)" by (auto simp: hostOf_def h(1))
  moreover have "chooseHostIndex nodes c = Some i" using Some by (simp add: chooseHostIndex_def)
  ultimately show thesis using i(1) by (intro that [of i])
qed

lemma swap_host:
  assumes "h < length xs"
  shows "mset (xs[0 := xs ! h, h := xs ! 0]) = mset xs" "hd (xs[0 := xs ! h, h := xs ! 0]) = xs ! h"
proof -
  have ne: "xs \<noteq> []" using assms by auto
  show "mset (xs[0 := xs ! h, h := xs ! 0]) = mset xs" using assms ne by (intro mset_swap) auto
  have "xs[0 := xs ! h, h := xs ! 0] ! 0 = xs ! h" using assms ne by (simp add: nth_list_update)
  then show "hd (xs[0 := xs ! h, h := xs ! 0]) = xs ! h" using ne by (simp add: hd_conv_nth)
qed

lemma heldKarpPath_route:
  assumes "nodes \<noteq> []"
  shows "\<exists>route. heldKarpPath nodes model links = Some route \<and> sameRoute nodes route \<and>
     (int (length nodes) \<le> orderingThresholdMax \<longrightarrow>
        (\<forall>other. sameRoute nodes other \<longrightarrow> orderCost route model links \<le> orderCost other model links))"
proof (cases "int (length nodes) \<le> orderingThresholdMax")
  case True
  from heldKarpPath_small [OF assms this, of model links] show ?thesis by (auto simp: sameRoute_def)
next
  case False
  with nearestNeighbor2Opt_route [OF assms, of model links] show ?thesis by (auto simp: heldKarpPath_def Let_def)
qed

lemma orderNodes_route:
  assumes "2 \<le> length nodes"
  shows "\<exists>host route. orderNodes thr nodes model links c = Some route \<and> hostOf nodes c host \<and> hd route = host \<and>
     mset route = mset nodes \<and>
     (int (length nodes) \<le> min thr orderingThresholdMax \<longrightarrow>
        (\<forall>other. mset other = mset nodes \<longrightarrow> hd other = host \<longrightarrow>
           orderCost route model links \<le> orderCost other model links))"
proof -
  let ?o = "sort_key nodeID nodes"
  have ne: "?o \<noteq> []" using assms by (metis length_sort list.size(3) not_numeral_le_zero)
  obtain h where h: "chooseHostIndex ?o c = Some h" "h < length ?o" "hostOf ?o c (?o ! h)"
    using chooseHostIndex_hostOf [OF ne] .
  let ?s = "?o[0 := ?o ! h, h := ?o ! 0]"
  have s: "mset ?s = mset nodes" "hd ?s = ?o ! h" "?s \<noteq> []" "length ?s = length nodes"
    using swap_host [OF h(2)] ne by (simp_all del: length_sort) (simp_all)
  have host: "hostOf nodes c (?o ! h)" using h(3) hostOf_set_cong [of ?o nodes] by simp
  have step: "orderNodes thr nodes model links c =
      (if int (length nodes) \<le> thr then heldKarpPath ?s model links else nearestNeighbor2Opt ?s model links)"
    using assms h(1) by (simp add: orderNodes_def Let_def)
  obtain route where route: "orderNodes thr nodes model links c = Some route" "sameRoute ?s route"
      "int (length nodes) \<le> min thr orderingThresholdMax \<Longrightarrow> \<forall>other. sameRoute ?s other \<longrightarrow>
         orderCost route model links \<le> orderCost other model links"
    using heldKarpPath_route [OF s(3), of model links] nearestNeighbor2Opt_route [OF s(3), of model links]
    unfolding step s(4) by (cases "int (length nodes) \<le> thr") auto
  with s host show ?thesis unfolding sameRoute_def
    by (intro exI [of _ "?o ! h"] exI [of _ route]) simp
qed

lemma orderNodes_perm_eq:
  assumes "mset nodes = mset nodes'" "distinct (map nodeID nodes)"
  shows "2 \<le> length nodes \<Longrightarrow> orderNodes thr nodes model links c = orderNodes thr nodes' model links c"
proof -
  assume n: "2 \<le> length nodes"
  have "sort_key nodeID nodes = sort_key nodeID nodes'"
    using assms by (intro sort_key_canonical) (auto simp: distinct_map)
  moreover have "length nodes = length nodes'" using assms(1) by (rule mset_eq_length)
  ultimately show ?thesis using n by (simp add: orderNodes_def)
qed

lemma getEnvInt_range:
  assumes "1 \<le> dflt" "dflt \<le> orderingThresholdMax"
  shows "1 \<le> getEnvInt v dflt \<and> getEnvInt v dflt \<le> orderingThresholdMax"
  using assms by (auto simp: getEnvInt_def split: option.splits)

lemma orderNodes_fixpoint:
  assumes "distinct (map nodeID nodes)" "orderNodes thr nodes model links c = Some route"
  shows "orderNodes thr route model links c = Some route"
proof (cases "2 \<le> length nodes")
  case True
  with assms(2) have "mset route = mset nodes" using orderNodes_route [OF True, of thr model links c] by auto
  then show ?thesis using orderNodes_perm_eq [OF _ assms(1) True, of route] assms(2) by simp
qed (use assms(2) in \<open>auto simp: orderNodes_def\<close>)


section \<open>Properties of the ordering\<close>

text \<open>C3: up to the hard cap of twenty nodes, Held-Karp returns (no index panics) a permutation of the
  nodes that keeps the host first and whose total edge cost is minimal among all such permutations.\<close>

theorem heldKarpPath_optimal:
  assumes "nodes \<noteq> []" "int (length nodes) \<le> orderingThresholdMax"
  shows "\<exists>route. heldKarpPath nodes model links = Some route \<and> mset route = mset nodes \<and> hd route = hd nodes \<and>
     (\<forall>other. mset other = mset nodes \<longrightarrow> hd other = hd nodes \<longrightarrow>
        orderCost route model links \<le> orderCost other model links)"
  using assms by (rule heldKarpPath_small)

theorem heldKarpPath_optimal_witness:
  "\<exists>route. heldKarpPath [exNode ''a'' 8, exNode ''b'' 8, exNode ''c'' 8] exModel [exLink ''a'' ''c'' 1] = Some route \<and>
     orderCost route exModel [exLink ''a'' ''c'' 1] \<le>
       orderCost [exNode ''a'' 8, exNode ''c'' 8, exNode ''b'' 8] exModel [exLink ''a'' ''c'' 1]"
  using heldKarpPath_optimal [of "[exNode ''a'' 8, exNode ''b'' 8, exNode ''c'' 8]" exModel "[exLink ''a'' ''c'' 1]"]
  by (auto simp: orderingThresholdMax_def)

text \<open>on two or more nodes \<^verbatim>\<open>orderNodes\<close> returns a permutation of them whose first node is the
  host (the forced host when it is among the nodes, else a node of the largest capacity), and up to
  the threshold that permutation is the cheapest with that host.\<close>

theorem orderNodes_correct:
  assumes "2 \<le> length nodes"
  shows "\<exists>host route. orderNodes thr nodes model links c = Some route \<and> hostOf nodes c host \<and> hd route = host \<and>
     mset route = mset nodes \<and>
     (int (length nodes) \<le> min thr orderingThresholdMax \<longrightarrow>
        (\<forall>other. mset other = mset nodes \<longrightarrow> hd other = host \<longrightarrow>
           orderCost route model links \<le> orderCost other model links))"
  using assms by (rule orderNodes_route)

theorem orderNodes_correct_witness:
  "map_option (map nodeID) (orderNodes 10 [exNode ''b'' 8, exNode ''a'' 8] exModel [] noConstraints) = Some [''a'', ''b''] \<and>
   (\<exists>host route. orderNodes 10 [exNode ''b'' 8, exNode ''a'' 8] exModel [] noConstraints = Some route \<and>
      hostOf [exNode ''b'' 8, exNode ''a'' 8] noConstraints host \<and> hd route = host)"
proof (intro conjI)
  show "map_option (map nodeID) (orderNodes 10 [exNode ''b'' 8, exNode ''a'' 8] exModel [] noConstraints) = Some [''a'', ''b'']"
    by code_simp
  show "\<exists>host route. orderNodes 10 [exNode ''b'' 8, exNode ''a'' 8] exModel [] noConstraints = Some route \<and>
      hostOf [exNode ''b'' 8, exNode ''a'' 8] noConstraints host \<and> hd route = host"
    using orderNodes_correct [of "[exNode ''b'' 8, exNode ''a'' 8]" 10 exModel "[]" noConstraints] by auto
qed

text \<open>on distinct node identifiers the order depends only on the set of nodes, so ordering an
  ordered subset again returns it unchanged; this is why the co-optimisation loop of the planner
  reaches its fixed point.\<close>

theorem orderNodes_stable:
  assumes "distinct (map nodeID nodes)" "orderNodes thr nodes model links c = Some route"
  shows "orderNodes thr route model links c = Some route"
  using assms by (rule orderNodes_fixpoint)

theorem orderNodes_stable_witness:
  "\<exists>route. orderNodes 10 [exNode ''b'' 8, exNode ''a'' 8] exModel [] noConstraints = Some route \<and>
     orderNodes 10 route exModel [] noConstraints = Some route"
proof -
  obtain route where "orderNodes 10 [exNode ''b'' 8, exNode ''a'' 8] exModel [] noConstraints = Some route"
    using orderNodes_route [of "[exNode ''b'' 8, exNode ''a'' 8]" 10 exModel "[]" noConstraints] by auto
  with orderNodes_stable [OF _ this] show ?thesis by (auto simp: example_defs)
qed



text \<open>whatever the environment variable holds, the threshold lies between 1 and the hard cap, so
  the Held-Karp tables have at most \<open>2 ^ 20\<close> rows; a number in that range is taken as it is.\<close>

theorem orderingThreshold_range:
  "1 \<le> orderingThreshold env \<and> orderingThreshold env \<le> orderingThresholdMax \<and>
   orderingThreshold (''1'' @ ''2'') = 12 \<and> orderingThreshold ''21'' = HeldKarpMaxNodes"
proof (intro conjI)
  show "orderingThreshold (''1'' @ ''2'') = 12" by code_simp
  show "orderingThreshold ''21'' = HeldKarpMaxNodes" by code_simp
qed (use getEnvInt_range [of HeldKarpMaxNodes env] in \<open>simp_all add: orderingThreshold_def plan_consts\<close>)

end
