(* ===== verification/Selection.thy ===== *)
theory Selection
  imports Ordering
begin

text \<open>
  Which nodes and which quantization a plan may use: the operator filters and phase A of
  \<^verbatim>\<open>src/go/planner/plan/plan.go\<close> and phase B (\<^verbatim>\<open>candidateSubsets\<close>) of
  \<^verbatim>\<open>src/go/planner/plan/partition.go\<close>.
\<close>

section \<open>Operator filters\<close>

definition toSet :: "string list \<Rightarrow> string set" where
  "toSet xs = set xs"

definition applyNodeFilter :: "Node list \<Rightarrow> Constraints \<Rightarrow> Node list" where
  "applyNodeFilter nodes c =
     filter (\<lambda>n. nodeID n \<notin> toSet (ExcludeNodes c) \<and>
                 (IncludeNodes c = [] \<or> nodeID n \<in> toSet (IncludeNodes c))) nodes"

text \<open>The part of \<^verbatim>\<open>planInternal\<close> that restricts the fleet: include and exclude first, then the team's
  pool with its two errors.\<close>

definition restrictFleet :: "Node list \<Rightarrow> Constraints \<Rightarrow> plan_err + Node list" where
  "restrictFleet nodes c =
     (let nodes = applyNodeFilter nodes c
      in if nodes = []
         then Inl (PlanErr \<lparr>Reason = NoNodesAfterFilter, DeficitGB = 0,
                Suggestions = [''widen include_nodes'', ''remove some exclude_nodes'', ''register more nodes'']\<rparr>)
         else if AllowedNodeIDs c = [] then Inr nodes
         else let allowed = toSet (AllowedNodeIDs c);
                  nodes = filter (\<lambda>n. nodeID n \<in> allowed) nodes
              in if nodes = []
                 then Inl (PlanErr \<lparr>Reason = NoNodesInTeamPool (length (AllowedNodeIDs c)), DeficitGB = 0, Suggestions = []\<rparr>)
                 else case ForceHost c of
                     None \<Rightarrow> Inr nodes
                   | Some h \<Rightarrow>
                       if h \<noteq> '''' \<and> h \<notin> allowed
                       then Inl (PlanErr \<lparr>Reason = ForceHostNotInPool h, DeficitGB = 0, Suggestions = []\<rparr>)
                       else Inr nodes)"

fun minPCFLoop :: "float64 \<Rightarrow> Node list \<Rightarrow> float64" where
  "minPCFLoop minPCF [] = minPCF"
| "minPCFLoop minPCF (n # ns) =
     (if PrefixCachingFactor n > 0 \<and> (minPCF = 0 \<or> PrefixCachingFactor n < minPCF)
      then minPCFLoop (PrefixCachingFactor n) ns else minPCFLoop minPCF ns)"

section \<open>Phase A: the quantization\<close>

definition ramAggregate :: "Node list \<Rightarrow> float64" where
  "ramAggregate nodes = (\<Sum>n\<leftarrow>nodes. RAMAvailableGB n)"

fun firstFitting :: "(Quantization \<Rightarrow> bool) \<Rightarrow> Quantization list \<Rightarrow> Quantization option" where
  "firstFitting fits [] = None"
| "firstFitting fits (q # qs) = (if fits q then Some q else firstFitting fits qs)"

fun smallestQuant :: "Quantization \<Rightarrow> Quantization list \<Rightarrow> Quantization" where
  "smallestQuant smallest [] = smallest"
| "smallestQuant smallest (q # qs) =
     (if SizeGB q < SizeGB smallest then smallestQuant q qs else smallestQuant smallest qs)"

definition markEmulated :: "Node list \<Rightarrow> Quantization \<Rightarrow> Quantization" where
  "markEmulated nodes q = q\<lparr>EmulatedFP4 := (RequiresFP4 q \<and> \<not> anyFP4 nodes)\<rparr>"

text \<open>\<^verbatim>\<open>sort.SliceStable\<close> by decreasing quality is the stable sort by the negated quality.\<close>

definition selectQuantization ::
  "Node list \<Rightarrow> ModelSpec \<Rightarrow> float64 \<Rightarrow> Constraints \<Rightarrow> PlanError + Quantization" where
  "selectQuantization nodes model kv c =
     (if Quantizations model = []
      then Inl \<lparr>Reason = ModelDeclaresNoQuantizations (modelID model), DeficitGB = 0,
             Suggestions = [''provide at least one Quantization in the ModelSpec'']\<rparr>
      else let overhead = overheadOSRuntimeGB * of_nat (length nodes)
      in case ForceQuant c of
          Some name \<Rightarrow>
            (case lookupQuant (Quantizations model) name of
               None \<Rightarrow> Inl \<lparr>Reason = ForcedQuantNotOffered name (modelID model), DeficitGB = 0,
                         Suggestions = [''pick one of the model's declared quantizations'']\<rparr>
             | Some q \<Rightarrow>
                 let q = markEmulated nodes q
                 in if ramAggregate nodes < SizeGB q + kv + overhead
                    then Inl \<lparr>Reason = ForcedQuantDoesNotFit (qName q),
                           DeficitGB = (SizeGB q + kv + overhead) - ramAggregate nodes,
                           Suggestions = [''drop force_quant to let phase A choose'', ''add memory'']\<rparr>
                    else Inr q)
        | None \<Rightarrow>
            let ranked = sort_key (\<lambda>q. - Quality q) (Quantizations model)
            in case firstFitting (\<lambda>q. ramAggregate nodes \<ge> SizeGB q + kv + overhead) ranked of
                Some q \<Rightarrow> Inr (markEmulated nodes q)
              | None \<Rightarrow>
                  let smallest = smallestQuant (hd ranked) ranked
                  in Inl \<lparr>Reason = ModelTooLarge (modelID model),
                        DeficitGB = (SizeGB smallest + kv + overhead) - ramAggregate nodes,
                        Suggestions = [''add nodes or free memory'', ''reduce ContextMax to shrink the KV cache'',
                                       ''provide a smaller quantization'']\<rparr>)"

section \<open>Phase B: candidate subsets\<close>

definition planDelta :: nat where [plan_consts]: "planDelta = 2"

text \<open>The nodes by decreasing useful capacity, in the order of the fleet where it is equal.\<close>

definition rankNodes :: "Node list \<Rightarrow> Node list" where
  "rankNodes nodes = sort_key (\<lambda>n. - usefulCapacity n) nodes"

fun kMinLoop :: "float64 \<Rightarrow> nat \<Rightarrow> float64 \<Rightarrow> Node list \<Rightarrow> nat option" where
  "kMinLoop ramNeeded k aggMem [] = None"
| "kMinLoop ramNeeded k aggMem (n # ns) =
     (let aggMem = aggMem + usefulMemoryForFit n
      in if aggMem \<ge> ramNeeded + overheadOSRuntimeGB * of_nat k then Some k
         else kMinLoop ramNeeded (Suc k) aggMem ns)"

definition candidateSubsets ::
  "Node list \<Rightarrow> ModelSpec \<Rightarrow> Quantization \<Rightarrow> float64 \<Rightarrow> Constraints \<Rightarrow> Node list list" where
  "candidateSubsets nodes model quant kv c =
     (let ranked = rankNodes nodes
      in case ForceNodeCount c of
          Some k \<Rightarrow>
            let k = (if k < 1 then 1 else k);
                k = (if k > int (length ranked) then int (length ranked) else k)
            in [take (nat k) ranked]
        | None \<Rightarrow>
            (case kMinLoop (SizeGB quant + kv) 1 0 ranked of
               None \<Rightarrow> []
             | Some kMin \<Rightarrow> map (\<lambda>k. take k ranked) [kMin..<Suc (min (kMin + planDelta) (length ranked))]))"

section \<open>Reference notions\<close>

definition permitted :: "Constraints \<Rightarrow> Node \<Rightarrow> bool" where
  "permitted c n \<longleftrightarrow> nodeID n \<notin> set (ExcludeNodes c) \<and>
     (IncludeNodes c = [] \<or> nodeID n \<in> set (IncludeNodes c)) \<and>
     (AllowedNodeIDs c = [] \<or> nodeID n \<in> set (AllowedNodeIDs c))"

definition quantNeed :: "Node list \<Rightarrow> float64 \<Rightarrow> Quantization \<Rightarrow> float64" where
  "quantNeed nodes kv q = SizeGB q + kv + overheadOSRuntimeGB * of_nat (length nodes)"

definition fitsPrefix :: "float64 \<Rightarrow> Node list \<Rightarrow> nat \<Rightarrow> bool" where
  "fitsPrefix ramNeeded ns k \<longleftrightarrow>
     ramNeeded + overheadOSRuntimeGB * of_nat k \<le> (\<Sum>n\<leftarrow>take k ns. usefulMemoryForFit n)"

section \<open>Facts\<close>

lemma restrictFleet_Inr:
  assumes "restrictFleet nodes c = Inr ns"
  shows "ns = filter (permitted c) nodes" "ns \<noteq> []"
  using assms
  by (auto simp: restrictFleet_def applyNodeFilter_def toSet_def permitted_def Let_def conj_assoc
      intro!: filter_cong split: if_splits option.splits)

lemma restrictFleet_idem:
  assumes "restrictFleet nodes c = Inr ns"
  shows "restrictFleet ns c = Inr ns"
  using assms by (auto simp: restrictFleet_def applyNodeFilter_def toSet_def Let_def conj_ac
      split: if_splits option.splits)

lemma firstFitting_Some:
  "firstFitting fits qs = Some q \<Longrightarrow> \<exists>pre post. qs = pre @ q # post \<and> fits q \<and> (\<forall>x \<in> set pre. \<not> fits x)"
proof (induction qs)
  case (Cons x qs)
  show ?case
  proof (cases "fits x")
    case True
    with Cons.prems show ?thesis by (intro exI [of _ "[]"] exI [of _ qs]) auto
  next
    case False
    with Cons obtain pre post where "qs = pre @ q # post" "fits q" "\<forall>x \<in> set pre. \<not> fits x" by auto
    with False show ?thesis by (intro exI [of _ "x # pre"] exI [of _ post]) auto
  qed
qed simp

lemma firstFitting_None: "firstFitting fits qs = None \<longleftrightarrow> (\<forall>q \<in> set qs. \<not> fits q)"
  by (induction qs) auto

lemma firstFitting_ranked:
  fixes key :: "Quantization \<Rightarrow> float64"
  assumes "firstFitting fits (sort_key key qs) = Some q"
  shows "q \<in> set qs \<and> fits q \<and> (\<forall>x \<in> set qs. fits x \<longrightarrow> key q \<le> key x)"
proof -
  obtain pre post where split: "sort_key key qs = pre @ q # post" "fits q" "\<forall>x \<in> set pre. \<not> fits x"
    using firstFitting_Some [OF assms] by blast
  then have "sorted (map key (pre @ q # post))" by (metis sorted_sort_key)
  moreover have "set qs = set (pre @ q # post)" by (metis split(1) set_sort)
  ultimately show ?thesis using split(2,3) by (auto simp: sorted_append)
qed

lemma smallestQuant_min:
  "smallestQuant s qs \<in> insert s (set qs) \<and> (\<forall>q \<in> insert s (set qs). SizeGB (smallestQuant s qs) \<le> SizeGB q)"
proof (induction qs arbitrary: s)
  case (Cons q qs)
  show ?case using Cons.IH [of q] Cons.IH [of s] by (cases "SizeGB q < SizeGB s") (auto intro: order_trans less_imp_le)
qed simp

lemma kMinLoop_find:
  "kMinLoop need (Suc (length pre)) (\<Sum>n\<leftarrow>pre. usefulMemoryForFit n) ns =
   List.find (fitsPrefix need (pre @ ns)) [Suc (length pre)..<Suc (length (pre @ ns))]"
proof (induction ns arbitrary: pre)
  case (Cons n ns)
  have "[Suc (length pre)..<Suc (length (pre @ n # ns))] =
      Suc (length pre) # [Suc (length (pre @ [n]))..<Suc (length ((pre @ [n]) @ ns))]"
    by (subst upt_conv_Cons) auto
  then show ?case using Cons.IH [of "pre @ [n]"] by (simp add: fitsPrefix_def Let_def del: upt_Suc)
qed simp


lemma kMinLoop_eq: "kMinLoop need 1 0 ns = List.find (fitsPrefix need ns) [1..<Suc (length ns)]"
  using kMinLoop_find [of need "[]" ns] by (simp del: upt_Suc)

lemma find_upt_Some:
  "List.find P [a..<b] = Some k \<longleftrightarrow> a \<le> k \<and> k < b \<and> P k \<and> (\<forall>j. a \<le> j \<longrightarrow> j < k \<longrightarrow> \<not> P j)"
proof (induction "b - a" arbitrary: a)
  case (Suc d)
  then have "[a..<b] = a # [Suc a..<b]" by (subst upt_conv_Cons) auto
  with Suc show ?case by (auto simp: Suc_le_eq) (metis Suc_leI le_neq_implies_less not_le)+
qed auto

lemma find_upt_None: "List.find P [a..<b] = None \<longleftrightarrow> (\<forall>k. a \<le> k \<longrightarrow> k < b \<longrightarrow> \<not> P k)"
  by (auto simp: find_None_iff)

lemma selectQuantization_auto:
  assumes "ForceQuant c = None" "Quantizations model \<noteq> []"
  shows "case selectQuantization nodes model kv c of
      Inr q \<Rightarrow> \<exists>q0 \<in> set (Quantizations model). q = markEmulated nodes q0 \<and> quantNeed nodes kv q0 \<le> ramAggregate nodes \<and>
        (\<forall>q' \<in> set (Quantizations model). quantNeed nodes kv q' \<le> ramAggregate nodes \<longrightarrow> Quality q' \<le> Quality q0)
    | Inl e \<Rightarrow> Reason e = ModelTooLarge (modelID model) \<and> 0 < DeficitGB e \<and>
        (\<exists>q0 \<in> set (Quantizations model). DeficitGB e = quantNeed nodes kv q0 - ramAggregate nodes) \<and>
        (\<forall>q' \<in> set (Quantizations model). DeficitGB e \<le> quantNeed nodes kv q' - ramAggregate nodes)"
proof -
  let ?r = "sort_key (\<lambda>q. - Quality q) (Quantizations model)"
  let ?fits = "\<lambda>q. ramAggregate nodes \<ge> quantNeed nodes kv q"
  show ?thesis
  proof (cases "firstFitting ?fits ?r")
    case (Some q0)
    then have sel: "selectQuantization nodes model kv c = Inr (markEmulated nodes q0)"
      using assms by (simp add: selectQuantization_def quantNeed_def Let_def)
    from firstFitting_ranked [OF Some] show ?thesis unfolding sel by auto
  next
    case None
    let ?s = "smallestQuant (hd ?r) ?r"
    have "hd ?r \<in> set ?r" using assms(2) by (intro hd_in_set) (metis length_0_conv length_sort)
    with smallestQuant_min [of "hd ?r" ?r] have s: "?s \<in> set (Quantizations model)"
      "\<And>q. q \<in> set (Quantizations model) \<Longrightarrow> SizeGB ?s \<le> SizeGB q" by auto
    have sel: "selectQuantization nodes model kv c = Inl \<lparr>Reason = ModelTooLarge (modelID model),
        DeficitGB = quantNeed nodes kv ?s - ramAggregate nodes,
        Suggestions = [''add nodes or free memory'', ''reduce ContextMax to shrink the KV cache'',
                       ''provide a smaller quantization'']\<rparr>"
      using assms None by (simp add: selectQuantization_def quantNeed_def Let_def)
    have "\<not> ?fits ?s" using None s(1) by (simp add: firstFitting_None)
    then show ?thesis unfolding sel using s by (auto simp: quantNeed_def)
  qed
qed

lemma selectQuantization_member:
  assumes "selectQuantization nodes model kv c = Inr q"
  obtains q0 where "q0 \<in> set (Quantizations model)" "q = markEmulated nodes q0" "quantNeed nodes kv q0 \<le> ramAggregate nodes"
proof (cases "ForceQuant c")
  case None
  moreover have "Quantizations model \<noteq> []" using assms by (auto simp: selectQuantization_def)
  ultimately show thesis using selectQuantization_auto [of c model nodes kv] assms that by auto
next
  case (Some name)
  with assms obtain q0 where "lookupQuant (Quantizations model) name = Some q0" "q = markEmulated nodes q0"
      "\<not> ramAggregate nodes < SizeGB q + kv + overheadOSRuntimeGB * of_nat (length nodes)"
    by (auto simp: selectQuantization_def Let_def split: if_splits option.splits)
  then show thesis using lookupQuant_SomeD [of "Quantizations model" name q0]
    by (intro that [of q0]) (auto simp: quantNeed_def markEmulated_def)
qed

lemma rankNodes_simps [simp]:
  "length (rankNodes nodes) = length nodes" "set (rankNodes nodes) = set nodes" "mset (rankNodes nodes) = mset nodes"
  by (simp_all add: rankNodes_def)

lemma candidateSubsets_auto:
  assumes "ForceNodeCount c = None"
  shows "candidateSubsets nodes model quant kv c =
    (case List.find (fitsPrefix (SizeGB quant + kv) (rankNodes nodes)) [1..<Suc (length nodes)] of
       None \<Rightarrow> []
     | Some kMin \<Rightarrow> map (\<lambda>k. take k (rankNodes nodes)) [kMin..<Suc (min (kMin + planDelta) (length nodes))])"
  unfolding candidateSubsets_def kMinLoop_eq Let_def assms by (simp only: option.case rankNodes_simps)

lemma candidateSubsets_prefix:
  "s \<in> set (candidateSubsets nodes model quant kv c) \<Longrightarrow> \<exists>k. s = take k (rankNodes nodes)"
  by (auto simp: candidateSubsets_def Let_def intro: exI [of _ "length nodes"] split: option.splits)

lemma candidateSubsets_subset:
  "s \<in> set (candidateSubsets nodes model quant kv c) \<Longrightarrow> set s \<subseteq> set nodes"
  using candidateSubsets_prefix [of s nodes model quant kv c] by (auto dest!: in_set_takeD)

lemma candidateSubsets_distinct:
  assumes "s \<in> set (candidateSubsets nodes model quant kv c)" "distinct (map nodeID nodes)"
  shows "distinct (map nodeID s)"
proof -
  obtain k where s: "s = take k (rankNodes nodes)" using candidateSubsets_prefix [OF assms(1)] by blast
  have "mset (map nodeID (rankNodes nodes)) = mset (map nodeID nodes)" by simp
  then have "distinct (map nodeID (rankNodes nodes))" using assms(2) by (metis mset_eq_imp_distinct_iff)
  then show ?thesis by (simp add: s take_map [symmetric])
qed


section \<open>Properties of the selection\<close>

text \<open>C9: without a forced quantization, phase A returns a declared quantization that fits the
  aggregate memory and whose quality no other fitting one exceeds; it fails only when none fits, and
  then reports the smallest possible deficit, which is positive.\<close>

theorem selectQuantization_best:
  assumes "ForceQuant c = None" "Quantizations model \<noteq> []"
  shows "case selectQuantization nodes model kv c of
      Inr q \<Rightarrow> \<exists>q0 \<in> set (Quantizations model). q = markEmulated nodes q0 \<and> quantNeed nodes kv q0 \<le> ramAggregate nodes \<and>
        (\<forall>q' \<in> set (Quantizations model). quantNeed nodes kv q' \<le> ramAggregate nodes \<longrightarrow> Quality q' \<le> Quality q0)
    | Inl e \<Rightarrow> Reason e = ModelTooLarge (modelID model) \<and> 0 < DeficitGB e \<and>
        (\<exists>q0 \<in> set (Quantizations model). DeficitGB e = quantNeed nodes kv q0 - ramAggregate nodes) \<and>
        (\<forall>q' \<in> set (Quantizations model). DeficitGB e \<le> quantNeed nodes kv q' - ramAggregate nodes)"
  using assms by (rule selectQuantization_auto)

theorem selectQuantization_best_witness:
  "selectQuantization [exNode ''a'' 16] exModel 0 noConstraints = Inr (exQuant ''q4'' 8) \<and>
   (\<exists>q0 \<in> set (Quantizations exModel). quantNeed [exNode ''a'' 16] 0 q0 \<le> ramAggregate [exNode ''a'' 16])"
proof
  show sel: "selectQuantization [exNode ''a'' 16] exModel 0 noConstraints = Inr (exQuant ''q4'' 8)" by code_simp
  show "\<exists>q0 \<in> set (Quantizations exModel). quantNeed [exNode ''a'' 16] 0 q0 \<le> ramAggregate [exNode ''a'' 16]"
    using selectQuantization_best [where c = noConstraints and model = exModel and nodes = "[exNode ''a'' 16]" and kv = 0]
    unfolding sel by (auto simp: noConstraints_def exModel_def)
qed

text \<open>without a forced node count, phase B fails exactly when no prefix of the capacity ranking
  holds the model; otherwise its candidates are the prefixes of the ranking from the shortest that
  holds it up to \<open>planDelta\<close> nodes more, and the first candidate is that shortest prefix.\<close>

theorem candidateSubsets_kMin:
  assumes "ForceNodeCount c = None"
  shows "case candidateSubsets nodes model quant kv c of
      [] \<Rightarrow> \<forall>k. 1 \<le> k \<longrightarrow> k \<le> length nodes \<longrightarrow> \<not> fitsPrefix (SizeGB quant + kv) (rankNodes nodes) k
    | s # ss \<Rightarrow> \<exists>kMin. 1 \<le> kMin \<and> kMin \<le> length nodes \<and> fitsPrefix (SizeGB quant + kv) (rankNodes nodes) kMin \<and>
        (\<forall>k. 1 \<le> k \<longrightarrow> k < kMin \<longrightarrow> \<not> fitsPrefix (SizeGB quant + kv) (rankNodes nodes) k) \<and>
        s # ss = map (\<lambda>k. take k (rankNodes nodes)) [kMin..<Suc (min (kMin + planDelta) (length nodes))]"
proof (cases "List.find (fitsPrefix (SizeGB quant + kv) (rankNodes nodes)) [1..<Suc (length nodes)]")
  case None
  then have "candidateSubsets nodes model quant kv c = []" unfolding candidateSubsets_auto [OF assms] by simp
  with None show ?thesis by (simp only: find_upt_None list.case less_Suc_eq_le)
next
  case (Some kMin)
  then have k: "1 \<le> kMin" "kMin \<le> length nodes" "fitsPrefix (SizeGB quant + kv) (rankNodes nodes) kMin"
    "\<forall>j. 1 \<le> j \<longrightarrow> j < kMin \<longrightarrow> \<not> fitsPrefix (SizeGB quant + kv) (rankNodes nodes) j"
    by (auto simp only: find_upt_Some less_Suc_eq_le)
  have eq: "candidateSubsets nodes model quant kv c =
      map (\<lambda>k. take k (rankNodes nodes)) [kMin..<Suc (min (kMin + planDelta) (length nodes))]"
    unfolding candidateSubsets_auto [OF assms] Some by (simp only: option.case)
  have "candidateSubsets nodes model quant kv c \<noteq> []" unfolding eq using k(2) by simp
  then obtain s ss where cand: "candidateSubsets nodes model quant kv c = s # ss" by (meson neq_Nil_conv)
  show ?thesis unfolding cand list.case using k eq [unfolded cand] by (intro exI [of _ kMin] conjI)
qed

theorem candidateSubsets_kMin_witness:
  "map (map nodeID) (candidateSubsets [exNode ''a'' 8, exNode ''b'' 16] exModel (exQuant ''q8'' 18) 0 noConstraints) = [[''b'', ''a'']] \<and>
   (\<exists>kMin. 1 \<le> kMin \<and> fitsPrefix 18 (rankNodes [exNode ''a'' 8, exNode ''b'' 16]) kMin)"
proof
  show sub: "map (map nodeID) (candidateSubsets [exNode ''a'' 8, exNode ''b'' 16] exModel (exQuant ''q8'' 18) 0 noConstraints) =
      [[''b'', ''a'']]" by code_simp
  show "\<exists>kMin. 1 \<le> kMin \<and> fitsPrefix 18 (rankNodes [exNode ''a'' 8, exNode ''b'' 16]) kMin"
    using candidateSubsets_kMin [where c = noConstraints and nodes = "[exNode ''a'' 8, exNode ''b'' 16]" and model = exModel
        and quant = "exQuant ''q8'' 18" and kv = 0] sub
    by (auto simp: noConstraints_def exQuant_def split: list.splits)
qed

text \<open>The ranking is by memory times bandwidth, so a shorter candidate can be missed: here the second
  node alone holds the model, and phase B still proposes to split it over both.\<close>

lemma candidateSubsets_misses_single_node:
  "map (map nodeID) (candidateSubsets [(exNode ''fast'' 8)\<lparr>MemBandwidthGBs := 1000\<rparr>, exNode ''big'' 64]
      exModel (exQuant ''q8'' 20) 0 noConstraints) = [[''fast'', ''big'']] \<and>
   map (map nodeID) (candidateSubsets [exNode ''big'' 64] exModel (exQuant ''q8'' 20) 0 noConstraints) = [[''big'']]"
  by code_simp

text \<open>Nodes without prefix caching do not lower the factor the whole fleet is sized with.\<close>

lemma minPCF_skips_zero:
  "minPCFLoop 0 [exNode ''a'' 8, (exNode ''b'' 8)\<lparr>PrefixCachingFactor := 1 / 2\<rparr>] = 1 / 2"
  by code_simp

end
