(* ===== verification/MultiNode.thy ===== *)
theory MultiNode
  imports Selection
begin

text \<open>
  A plan for one candidate subset, from \<^verbatim>\<open>src/go/planner/plan/multinode.go\<close>, with the pinned ranges
  (\<^verbatim>\<open>applyPinnedRanges\<close>) of \<^verbatim>\<open>src/go/planner/plan/partition.go\<close>: the order of the nodes and the
  partition of the layers are computed in turn until the order no longer changes, pins move whole
  shards, and the result is scored.
\<close>

section \<open>Pinned ranges\<close>

text \<open>The inner loop mutates the first shard that contains the range; it returns the shards, the note and
  the flag \<^verbatim>\<open>applied\<close>.\<close>

fun pinShard :: "LayerRange \<Rightarrow> string \<Rightarrow> Assignment list \<Rightarrow> Assignment list \<times> expl_line list \<times> bool" where
  "pinShard r target [] = ([], [], False)"
| "pinShard r target (a # as) =
     (if LayerStart a \<le> Start r \<and> End r \<le> LayerEnd a
      then if aNodeID a \<noteq> target
           then (a\<lparr>aNodeID := target\<rparr> # as,
                 [PinMovedShard (Start r) (End r) target (LayerStart a) (LayerEnd a) (aNodeID a)], True)
           else (a # as, [], True)
      else let (as', notes, applied) = pinShard r target as in (a # as', notes, applied))"

fun pinLoop :: "string set \<Rightarrow> (LayerRange \<times> string) list \<Rightarrow> Assignment list \<times> expl_line list \<Rightarrow> Assignment list \<times> expl_line list" where
  "pinLoop inSubset [] s = s"
| "pinLoop inSubset ((r, target) # pins) (assignments, notes) =
     (if target \<notin> inSubset
      then pinLoop inSubset pins (assignments, notes @ [PinNodeNotInSubset (Start r) (End r) target])
      else let (assignments', new, applied) = pinShard r target assignments
           in pinLoop inSubset pins
                (assignments', notes @ new @ (if applied then [] else [PinNotApplied (Start r) (End r) target])))"

definition applyPinnedRanges ::
  "Assignment list \<Rightarrow> Node list \<Rightarrow> (LayerRange \<times> string) list \<Rightarrow> Assignment list \<times> expl_line list" where
  "applyPinnedRanges assignments order pinned =
     (if pinned = [] then (assignments, [])
      else pinLoop (nodeID ` set order) (sort_key (\<lambda>(r, _). (Start r, End r)) pinned) (assignments, []))"

section \<open>Scoring\<close>

definition costW1Hops :: float64 where [plan_consts]: "costW1Hops = 10"
definition costW2LinkCost :: float64 where [plan_consts]: "costW2LinkCost = 1"
definition costW3Imbalance :: float64 where [plan_consts]: "costW3Imbalance = 5"
definition costW4Quality :: float64 where [plan_consts]: "costW4Quality = 8"
definition costW5FP4 :: float64 where [plan_consts]: "costW5FP4 = 6"

text \<open>Reading an absent key of \<^verbatim>\<open>nodeByID\<close> gives the zero node.\<close>

definition nodeAt :: "(string \<rightharpoonup> Node) \<Rightarrow> string \<Rightarrow> Node" where
  "nodeAt nodeByID i = (case nodeByID i of None \<Rightarrow> zeroNode | Some n \<Rightarrow> n)"

definition stageTimesForPlan ::
  "Assignment list \<Rightarrow> (string \<rightharpoonup> Node) \<Rightarrow> ModelSpec \<Rightarrow> Quantization \<Rightarrow> Link list \<Rightarrow> float64 list" where
  "stageTimesForPlan assignments nodeByID model quant links =
     map (\<lambda>idx.
        let a = assignments ! idx; n = nodeAt nodeByID (aNodeID a);
            ct = (if idx \<ge> 1 then commTime model (lookupLink links (aNodeID (assignments ! (idx - 1))) (aNodeID a)) else 0)
        in computeTime n model quant (LayerStart a) (LayerEnd a + 1) + ct) [0..<length assignments]"

fun minHeadroomLoop ::
  "(string \<rightharpoonup> Node) \<Rightarrow> ModelSpec \<Rightarrow> Quantization \<Rightarrow> float64 ext \<Rightarrow> Assignment list \<Rightarrow> float64 ext" where
  "minHeadroomLoop nodeByID model quant m [] = m"
| "minHeadroomLoop nodeByID model quant m (a # as) =
     (let n = nodeAt nodeByID (aNodeID a);
          h = usefulMemory n - stageMemNeed model quant (LayerStart a) (LayerEnd a + 1) (ContextMax model)
      in if Fin h < m then minHeadroomLoop nodeByID model quant (Fin h) as
         else minHeadroomLoop nodeByID model quant m as)"

definition minStageHeadroom ::
  "Assignment list \<Rightarrow> (string \<rightharpoonup> Node) \<Rightarrow> ModelSpec \<Rightarrow> Quantization \<Rightarrow> float64" where
  "minStageHeadroom assignments nodeByID model quant =
     (case minHeadroomLoop nodeByID model quant PInf assignments of PInf \<Rightarrow> 0 | Fin m \<Rightarrow> m)"

definition variance :: "float64 list \<Rightarrow> float64" where
  "variance xs =
     (if length xs < 2 then 0
      else let mean = (\<Sum>x\<leftarrow>xs. x) / of_nat (length xs)
           in (\<Sum>x\<leftarrow>xs. (x - mean) * (x - mean)) / of_nat (length xs))"

fun linkCost :: "Link list \<Rightarrow> ModelSpec \<Rightarrow> float64 \<Rightarrow> string list \<Rightarrow> float64" where
  "linkCost links model tot (a # b # order) = linkCost links model (tot + commTime model (lookupLink links a b)) (b # order)"
| "linkCost links model tot _ = tot"

definition costFunction ::
  "string list \<Rightarrow> float64 list \<Rightarrow> Quantization \<Rightarrow> Link list \<Rightarrow> ModelSpec \<Rightarrow> Constraints \<Rightarrow> float64" where
  "costFunction order stTimes quant links model c =
     (let hops = int (length order) - 1; hops = (if hops < 0 then 0 else hops);
          imbalance = variance stTimes;
          qualityPenalty = 1 - Quality quant;
          fp4Penalty = (if EmulatedFP4 quant then 1 else 0);
          w4 = costW4Quality + QualityWeightBias c
      in costW1Hops * of_int hops + costW2LinkCost * linkCost links model 0 order +
         costW3Imbalance * imbalance + w4 * qualityPenalty + costW5FP4 * fp4Penalty)"

text \<open>With an infinite bottleneck \<^verbatim>\<open>1 / (bottleneck / MBU)\<close> is 0, as it is for a bottleneck of 0.\<close>

definition estimateMultiNode :: "float64 ext \<Rightarrow> float64 \<Rightarrow> ModelSpec \<Rightarrow> PerfEstimate" where
  "estimateMultiNode bneck headroom model =
     estimatePerformance (case bneck of Fin b \<Rightarrow> b | PInf \<Rightarrow> 0) headroom model zeroNode"

section \<open>The plan of a subset\<close>

text \<open>The co-optimisation loop; its first argument is \<^verbatim>\<open>coOptMaxRounds - rounds\<close>.\<close>

fun coOptimise ::
  "nat \<Rightarrow> int \<Rightarrow> ModelSpec \<Rightarrow> Quantization \<Rightarrow> Link list \<Rightarrow> Constraints \<Rightarrow>
   Node list \<times> (Assignment list \<times> float64 ext) \<times> nat \<Rightarrow> (Node list \<times> (Assignment list \<times> float64 ext) \<times> nat) go" where
  "coOptimise 0 thr model quant links c s = Some s"
| "coOptimise (Suc left) thr model quant links c (order, part, rounds) =
     Option.bind (orderNodes thr order model links c) (\<lambda>reordered.
       if sameOrder order reordered then Some (order, part, rounds)
       else Option.bind (dpPartition reordered links model quant (ContextMax model)) (\<lambda>part'.
              coOptimise left thr model quant links c (reordered, part', rounds + 1)))"

definition assemblePlan ::
  "int \<Rightarrow> Node list \<Rightarrow> Assignment list \<Rightarrow> float64 ext \<Rightarrow> nat \<Rightarrow> (string \<rightharpoonup> Node) \<Rightarrow> ModelSpec \<Rightarrow> Quantization \<Rightarrow>
   Link list \<Rightarrow> Constraints \<Rightarrow> DeploymentPlan" where
  "assemblePlan thr order assignments0 bneck rounds nodeByID model quant links c =
     (let (assignments, pinNotes) = applyPinnedRanges assignments0 order (Pinned c);
          pipelineOrder = map aNodeID assignments;
          stTimes = stageTimesForPlan assignments nodeByID model quant links;
          cost = costFunction pipelineOrder stTimes quant links model c;
          headroom = minStageHeadroom assignments nodeByID model quant;
          heuristic = (int (length order) > thr);
          host = hd pipelineOrder
      in DeploymentPlan (newPlanID (modelID model) host) (modelID model) (qName quant) assignments pipelineOrder
           (estimateMultiNode bneck headroom model) cost
           ([SelectedQuantization (qName quant) (Quality quant), SplitAcrossNodes (length assignments),
             BottleneckStage bneck headroom] @
            map (\<lambda>a. NodeShard (aNodeID a) (aRole a) (LayerStart a) (LayerEnd a)
                   (stageMemNeed model quant (LayerStart a) (LayerEnd a + 1) (ContextMax model))
                   (usefulMemory (nodeAt nodeByID (aNodeID a)))) assignments @
            (if EmulatedFP4 quant then [RunningEmulatedFP4] else []) @
            pinNotes @
            [PhaseDOrdering heuristic host rounds] @
            (case ForceHost c of
               None \<Rightarrow> []
             | Some h \<Rightarrow> if h = host then [ForceHostHonoured h] else [ForceHostNotInSubset h host]))
           Map.empty)"

definition multiNodePlan ::
  "int \<Rightarrow> Node list \<Rightarrow> (string \<rightharpoonup> Node) \<Rightarrow> ModelSpec \<Rightarrow> Quantization \<Rightarrow> Link list \<Rightarrow> Constraints \<Rightarrow> DeploymentPlan option go" where
  "multiNodePlan thr sub nodeByID model quant links c =
     Option.bind (orderNodes thr sub model links c) (\<lambda>order.
     Option.bind (dpPartition order links model quant (ContextMax model)) (\<lambda>part.
     Option.bind (coOptimise (coOptMaxRounds - 1) thr model quant links c (order, part, 1))
       (\<lambda>(order, (assignments, bneck), rounds).
          if assignments = [] then Some None
          else Some (Some (assemblePlan thr order assignments bneck rounds nodeByID model quant links c)))))"

section \<open>Reference notions\<close>

text \<open>Two assignment lists with the same shards: everything but the nodes agrees.\<close>

definition sameShards :: "Assignment list \<Rightarrow> Assignment list \<Rightarrow> bool" where
  "sameShards as bs \<longleftrightarrow> map (aNodeID_update (\<lambda>_. [])) as = map (aNodeID_update (\<lambda>_. [])) bs"

text \<open>The first stage is the host, the others are workers.\<close>

fun rolesOK :: "Assignment list \<Rightarrow> bool" where
  "rolesOK [] = True"
| "rolesOK (a # as) = (aRole a = RoleHost \<and> (\<forall>b \<in> set as. aRole b = RoleWorker))"

text \<open>The shape of an assembled plan: a contiguous cover of the layers by nodes among \<open>ids\<close>.\<close>

definition planShape :: "ModelSpec \<Rightarrow> string set \<Rightarrow> DeploymentPlan \<Rightarrow> bool" where
  "planShape model ids p \<longleftrightarrow> Assignments p \<noteq> [] \<and> covers 0 (Layers model) (Assignments p) \<and> rolesOK (Assignments p) \<and>
     (\<forall>a \<in> set (Assignments p). \<not> aDraft a) \<and>
     PipelineOrder p = map aNodeID (Assignments p) \<and> set (PipelineOrder p) \<subseteq> ids \<and>
     ModelID p = modelID model \<and> FailoverAlt p = Map.empty"

section \<open>Pinned ranges keep the shards\<close>

lemma sameShards_refl [simp]: "sameShards as as"
  by (simp add: sameShards_def)

lemma sameShards_trans: "sameShards as bs \<Longrightarrow> sameShards bs cs \<Longrightarrow> sameShards as cs"
  by (simp add: sameShards_def)

lemma sameShards_Nil [simp]: "sameShards as [] \<longleftrightarrow> as = []" "sameShards [] as \<longleftrightarrow> as = []"
  by (auto simp: sameShards_def)

lemma sameShards_length: "sameShards as bs \<Longrightarrow> length as = length bs"
  unfolding sameShards_def by (rule map_eq_imp_length_eq)

lemma sameShards_map:
  assumes "sameShards as bs" "\<And>a. f (a\<lparr>aNodeID := []\<rparr>) = f a"
  shows "map f as = map f bs"
proof -
  have "map f (map (aNodeID_update (\<lambda>_. [])) as) = map f (map (aNodeID_update (\<lambda>_. [])) bs)"
    using assms(1) by (simp only: sameShards_def)
  then show ?thesis by (simp only: map_map comp_def assms(2))
qed

lemma covers_map:
  "map (\<lambda>a. (LayerStart a, LayerEnd a)) as = map (\<lambda>a. (LayerStart a, LayerEnd a)) bs \<Longrightarrow> covers s e as = covers s e bs"
proof (induction as arbitrary: s bs)
  case (Cons a as)
  then obtain b bs' where bs: "bs = b # bs'" "LayerStart a = LayerStart b" "LayerEnd a = LayerEnd b"
      "map (\<lambda>a. (LayerStart a, LayerEnd a)) as = map (\<lambda>a. (LayerStart a, LayerEnd a)) bs'"
    by (cases bs) simp_all
  from Cons.IH [OF bs(4)] show ?case by (simp add: bs(1-3))
qed simp

lemma sameShards_covers: "sameShards as bs \<Longrightarrow> covers s e as = covers s e bs"
  by (intro covers_map sameShards_map) simp_all

lemma rolesOK_map: "map aRole as = map aRole bs \<Longrightarrow> rolesOK as = rolesOK bs"
proof (cases as; cases bs)
  fix a as' b bs' assume "map aRole as = map aRole bs" "as = a # as'" "bs = b # bs'"
  then have "aRole a = aRole b" "aRole ` set as' = aRole ` set bs'" by (auto dest: map_eq_imp_length_eq simp: set_map [symmetric] simp del: set_map)
  moreover have "rolesOK (x # xs) \<longleftrightarrow> aRole x = RoleHost \<and> aRole ` set xs \<subseteq> {RoleWorker}" for x xs by auto
  ultimately show ?thesis by (simp add: \<open>as = a # as'\<close> \<open>bs = b # bs'\<close> del: rolesOK.simps)
qed auto

lemma sameShards_roles: "sameShards as bs \<Longrightarrow> rolesOK as = rolesOK bs"
  by (intro rolesOK_map sameShards_map) simp_all

lemma pinShard_shards: "sameShards as (fst (pinShard r t as)) \<and> aNodeID ` set (fst (pinShard r t as)) \<subseteq> insert t (aNodeID ` set as)"
  by (induction as) (auto simp: sameShards_def Let_def case_prod_beta)

lemma pinLoop_shards:
  "sameShards as (fst (pinLoop S pins (as, msgs))) \<and> aNodeID ` set (fst (pinLoop S pins (as, msgs))) \<subseteq> S \<union> aNodeID ` set as"
proof (induction pins arbitrary: as msgs)
  case (Cons pin pins)
  obtain r t where pin: "pin = (r, t)" by (cases pin)
  show ?case
  proof (cases "t \<in> S")
    case True
    obtain as' new ap where p: "pinShard r t as = (as', new, ap)" by (cases "pinShard r t as")
    have "sameShards as as'" "aNodeID ` set as' \<subseteq> insert t (aNodeID ` set as)" using pinShard_shards [of as r t] by (simp_all add: p)
    moreover obtain msgs' where step: "pinLoop S (pin # pins) (as, msgs) = pinLoop S pins (as', msgs')"
      using True by (simp add: pin p)
    moreover have "sameShards as' (fst (pinLoop S pins (as', msgs')))"
        "aNodeID ` set (fst (pinLoop S pins (as', msgs'))) \<subseteq> S \<union> aNodeID ` set as'"
      using Cons.IH [of as' msgs'] by simp_all
    ultimately show ?thesis unfolding step using True by (blast intro: sameShards_trans)
  next
    case False
    then show ?thesis using Cons.IH by (simp add: pin)
  qed
qed simp

lemma applyPinnedRanges_shards:
  assumes "applyPinnedRanges as order pins = (as', msgs)"
  shows "sameShards as as'" "aNodeID ` set as \<subseteq> nodeID ` set order \<Longrightarrow> aNodeID ` set as' \<subseteq> nodeID ` set order"
proof -
  let ?run = "pinLoop (nodeID ` set order) (sort_key (\<lambda>(r, _). (Start r, End r)) pins) (as, [])"
  have "as' = as \<or> as' = fst ?run" using assms by (auto simp: applyPinnedRanges_def split: if_splits)
  moreover have "sameShards as (fst ?run)" "aNodeID ` set (fst ?run) \<subseteq> nodeID ` set order \<union> aNodeID ` set as"
    using pinLoop_shards [of as "nodeID ` set order" "sort_key (\<lambda>(r, _). (Start r, End r)) pins" "[]"] by simp_all
  ultimately have "sameShards as as'" "aNodeID ` set as' \<subseteq> nodeID ` set order \<union> aNodeID ` set as" by auto
  then show "sameShards as as'" "aNodeID ` set as \<subseteq> nodeID ` set order \<Longrightarrow> aNodeID ` set as' \<subseteq> nodeID ` set order"
    by blast+
qed

section \<open>The plan of a subset\<close>

lemma orderNodes_total:
  "\<exists>route. orderNodes thr nodes model links c = Some route \<and> mset route = mset nodes"
proof (cases "2 \<le> length nodes")
  case True
  then show ?thesis using orderNodes_route [OF True, of thr model links c] by blast
qed (auto simp: orderNodes_def)

lemma sameOrder_refl [simp]: "sameOrder ns ns"
  by (induction ns) auto

lemma dpPartition_total:
  assumes "0 \<le> SizeGB quant" "0 \<le> Layers model"
  shows "\<exists>part. dpPartition order links model quant ctxLen = Some part"
  using dpPartition_result [OF assms refl, of order links ctxLen] by blast

lemma coOptimise_total:
  assumes "0 \<le> SizeGB quant" "0 \<le> Layers model" "dpPartition order links model quant (ContextMax model) = Some part"
  shows "\<exists>order' part' rounds'. coOptimise left thr model quant links c (order, part, rounds) = Some (order', part', rounds') \<and>
     mset order' = mset order \<and> dpPartition order' links model quant (ContextMax model) = Some part'"
  using assms(3)
proof (induction left arbitrary: order part rounds)
  case (Suc left)
  obtain re where re: "orderNodes thr order model links c = Some re" "mset re = mset order"
    using orderNodes_total by blast
  obtain part2 where part2: "dpPartition re links model quant (ContextMax model) = Some part2"
    using dpPartition_total [OF assms(1,2)] by blast
  show ?case
  proof (cases "sameOrder order re")
    case False
    then show ?thesis using Suc.IH [OF part2, of "rounds + 1"] re part2 by auto
  qed (use re Suc.prems in auto)
qed auto

lemma coOptimise_fixpoint:
  assumes "distinct (map nodeID nodes)" "orderNodes thr nodes model links c = Some order"
  shows "coOptimise left thr model quant links c (order, part, rounds) = Some (order, part, rounds)"
  using orderNodes_fixpoint [OF assms] by (cases left) simp_all

lemma shards_nodes: "length cs \<le> length order \<Longrightarrow> aNodeID ` set (shards order cs) \<subseteq> nodeID ` set order"
  by (auto simp: shards_def)

lemma shards_roles: "rolesOK (shards order cs)"
proof (cases cs)
  case (Cons c cs')
  then have "[0..<length cs] = 0 # [Suc 0..<length cs]" by (simp add: upt_conv_Cons del: upt_Suc)
  then show ?thesis by (simp add: shards_def)
qed (simp add: shards_def)

lemma shards_no_draft: "a \<in> set (shards order cs) \<Longrightarrow> \<not> aDraft a"
  by (auto simp: shards_def)

lemma assemblePlan_sel:
  "Assignments (assemblePlan thr order as b r nodeByID model quant links c) = fst (applyPinnedRanges as order (Pinned c))"
  "PipelineOrder (assemblePlan thr order as b r nodeByID model quant links c) = map aNodeID (fst (applyPinnedRanges as order (Pinned c)))"
  "ModelID (assemblePlan thr order as b r nodeByID model quant links c) = modelID model"
  "QuantizationName (assemblePlan thr order as b r nodeByID model quant links c) = qName quant"
  "FailoverAlt (assemblePlan thr order as b r nodeByID model quant links c) = Map.empty"
  by (simp_all add: assemblePlan_def Let_def case_prod_beta)

lemma assemblePlan_shape:
  assumes "0 < Layers model" "is_cuts cs (nat (Layers model))" "cs \<noteq> []" "length cs \<le> length order"
  shows "planShape model (nodeID ` set order) (assemblePlan thr order (shards order cs) b r nodeByID model quant links c)"
proof -
  let ?as = "shards order cs"
  obtain as' msgs where pin: "applyPinnedRanges ?as order (Pinned c) = (as', msgs)" by fastforce
  have same: "sameShards ?as as'" by (rule applyPinnedRanges_shards(1) [OF pin])
  have ids: "aNodeID ` set as' \<subseteq> nodeID ` set order"
    using shards_nodes [OF assms(4)] by (rule applyPinnedRanges_shards(2) [OF pin])
  have "covers 0 (int (nat (Layers model))) ?as" by (rule shards_covers [OF assms(2)])
  then have "covers 0 (Layers model) as'" using sameShards_covers [OF same] assms(1) by simp
  moreover have "rolesOK as'" using sameShards_roles [OF same] shards_roles by simp
  moreover have "as' \<noteq> []" using sameShards_length [OF same] assms(3) by (auto simp: shards_def)
  moreover have "map aDraft as' = map aDraft ?as" by (rule sameShards_map [OF same, symmetric]) simp
  then have "aDraft ` set as' = aDraft ` set ?as" by (metis set_map)
  then have "\<forall>a \<in> set as'. \<not> aDraft a" using shards_no_draft by fastforce
  ultimately show ?thesis using ids by (simp add: planShape_def assemblePlan_sel pin)
qed

lemma dpPartition_shards:
  assumes "0 \<le> SizeGB quant" "0 \<le> Layers model" "dpPartition order links model quant ctxLen = Some (as, b)" "as \<noteq> []"
  obtains cs where "as = shards order cs" "is_cuts cs (nat (Layers model))" "cs \<noteq> []" "length cs \<le> length order"
  using dpPartition_result [OF assms(1,2) refl, of order links ctxLen] assms(3,4) by auto

lemma multiNodePlan_shape:
  assumes "0 \<le> SizeGB quant" "0 < Layers model"
  shows "\<exists>r. multiNodePlan thr sub nodeByID model quant links c = Some r \<and>
    (\<forall>p. r = Some p \<longrightarrow> planShape model (nodeID ` set sub) p \<and> QuantizationName p = qName quant)"
proof -
  have layers: "0 \<le> Layers model" using assms(2) by simp
  obtain order where order: "orderNodes thr sub model links c = Some order" "mset order = mset sub"
    using orderNodes_total by blast
  obtain part where part: "dpPartition order links model quant (ContextMax model) = Some part"
    using dpPartition_total [OF assms(1) layers] by blast
  obtain order' as b rounds where co: "coOptimise (coOptMaxRounds - 1) thr model quant links c (order, part, 1) = Some (order', (as, b), rounds)"
      "mset order' = mset order" "dpPartition order' links model quant (ContextMax model) = Some (as, b)"
    using coOptimise_total [OF assms(1) layers part, of "coOptMaxRounds - 1" thr c 1] by (metis surj_pair)
  have ids: "set order' = set sub" using order(2) co(2) by (metis mset_eq_setD)
  have run: "multiNodePlan thr sub nodeByID model quant links c =
      Some (if as = [] then None else Some (assemblePlan thr order' as b rounds nodeByID model quant links c))"
    unfolding multiNodePlan_def using order(1) part co(1) by simp
  show ?thesis
  proof (cases "as = []")
    case False
    with dpPartition_shards [OF assms(1) layers co(3)] obtain cs where
      cs: "as = shards order' cs" "is_cuts cs (nat (Layers model))" "cs \<noteq> []" "length cs \<le> length order'" by blast
    then show ?thesis unfolding run using assemblePlan_shape [OF assms(2) cs(2-4)] False
      by (simp add: assemblePlan_sel ids)
  qed (simp add: run)
qed

lemma multiNodePlan_single_round:
  assumes "distinct (map nodeID sub)" "0 \<le> SizeGB quant" "0 \<le> Layers model"
  shows "\<exists>order as b. orderNodes thr sub model links c = Some order \<and>
     dpPartition order links model quant (ContextMax model) = Some (as, b) \<and>
     multiNodePlan thr sub nodeByID model quant links c =
       Some (if as = [] then None else Some (assemblePlan thr order as b 1 nodeByID model quant links c))"
proof -
  obtain order where order: "orderNodes thr sub model links c = Some order" using orderNodes_total by blast
  obtain as b where part: "dpPartition order links model quant (ContextMax model) = Some (as, b)"
    using dpPartition_total [OF assms(2,3)] by (metis surj_pair)
  from order part coOptimise_fixpoint [OF assms(1) order] show ?thesis
    by (simp add: multiNodePlan_def)
qed

section \<open>Properties of a subset's plan\<close>

text \<open>on distinct node identifiers the co-optimisation loop stops in its first round, so a subset's
  plan is assembled from one ordering and one partition.\<close>

theorem multiNodePlan_converges:
  assumes "distinct (map nodeID sub)" "0 \<le> SizeGB quant" "0 \<le> Layers model"
  shows "\<exists>order as b. orderNodes thr sub model links c = Some order \<and>
     dpPartition order links model quant (ContextMax model) = Some (as, b) \<and>
     multiNodePlan thr sub nodeByID model quant links c =
       Some (if as = [] then None else Some (assemblePlan thr order as b 1 nodeByID model quant links c))"
  using assms by (rule multiNodePlan_single_round)

theorem multiNodePlan_converges_witness:
  "\<exists>order as b. orderNodes 10 [exNode ''a'' 12, exNode ''b'' 8] exModel [] noConstraints = Some order \<and>
     dpPartition order [] exModel (exQuant ''q4'' 8) 1000 = Some (as, b) \<and>
     multiNodePlan 10 [exNode ''a'' 12, exNode ''b'' 8] Map.empty exModel (exQuant ''q4'' 8) [] noConstraints =
       Some (if as = [] then None else Some (assemblePlan 10 order as b 1 Map.empty exModel (exQuant ''q4'' 8) [] noConstraints))"
  using multiNodePlan_converges [of "[exNode ''a'' 12, exNode ''b'' 8]" "exQuant ''q4'' 8" exModel 10 "[]" noConstraints Map.empty]
  by (simp add: exNode_def exQuant_def exModel_def zeroNode_def)

text \<open>C7: without pins, the plan of a subset splits the layers over the ordered nodes so that every
  shard fits its node with the headroom margin and no other contiguous split has a smaller
  bottleneck; there is no plan only when no contiguous split fits.\<close>

theorem multiNodePlan_optimal:
  assumes "distinct (map nodeID sub)" "0 \<le> SizeGB quant" "0 \<le> Layers model" "Pinned c = []"
  shows "\<exists>order. orderNodes thr sub model links c = Some order \<and>
    (case multiNodePlan thr sub nodeByID model quant links c of
       None \<Rightarrow> False
     | Some None \<Rightarrow> \<forall>cs. is_cuts cs (nat (Layers model)) \<longrightarrow> cs \<noteq> [] \<longrightarrow> length cs \<le> length order \<longrightarrow>
         bottleneck (stageTimes order links model quant (ContextMax model)) cs = PInf
     | Some (Some p) \<Rightarrow> \<exists>cs. is_cuts cs (nat (Layers model)) \<and> cs \<noteq> [] \<and> length cs \<le> length order \<and> Assignments p = shards order cs \<and>
         (\<forall>k < length cs. stageFits (order ! k) model quant (int ((0 # cs) ! k)) (int (cs ! k)) (ContextMax model)) \<and>
         (\<forall>cs'. is_cuts cs' (nat (Layers model)) \<longrightarrow> cs' \<noteq> [] \<longrightarrow> length cs' \<le> length order \<longrightarrow>
            bottleneck (stageTimes order links model quant (ContextMax model)) cs \<le>
            bottleneck (stageTimes order links model quant (ContextMax model)) cs'))"
proof -
  obtain order as b where run: "orderNodes thr sub model links c = Some order"
      "dpPartition order links model quant (ContextMax model) = Some (as, b)"
      "multiNodePlan thr sub nodeByID model quant links c =
       Some (if as = [] then None else Some (assemblePlan thr order as b 1 nodeByID model quant links c))"
    using multiNodePlan_single_round [OF assms(1-3)] by blast
  have pins: "Assignments (assemblePlan thr order as b 1 nodeByID model quant links c) = as"
    by (simp add: assemblePlan_sel applyPinnedRanges_def assms(4))
  let ?st = "stageTimes order links model quant (ContextMax model)"
  from dpPartition_result [OF assms(2,3) refl, of order links "ContextMax model"] show ?thesis
  proof (elim disjE exE conjE)
    assume "dpPartition order links model quant (ContextMax model) = Some ([], PInf)"
      "\<forall>cs. is_cuts cs (nat (Layers model)) \<longrightarrow> cs \<noteq> [] \<longrightarrow> length cs \<le> length order \<longrightarrow> bottleneck ?st cs = PInf"
    with run show ?thesis by simp
  next
    fix cs b'
    assume cs: "dpPartition order links model quant (ContextMax model) = Some (shards order cs, Fin b')"
      "is_cuts cs (nat (Layers model))" "cs \<noteq> []" "length cs \<le> length order" "bottleneck ?st cs = Fin b'"
      "\<forall>cs'. is_cuts cs' (nat (Layers model)) \<longrightarrow> cs' \<noteq> [] \<longrightarrow> length cs' \<le> length order \<longrightarrow> Fin b' \<le> bottleneck ?st cs'"
    then have as: "as = shards order cs" "as \<noteq> []" using run(2) by (auto simp: shards_def)
    have fits: "\<forall>k < length cs. stageFits (order ! k) model quant (int ((0 # cs) ! k)) (int (cs ! k)) (ContextMax model)"
      using bottleneck_stages_fit [OF cs(5)] by blast
    have best: "\<forall>cs'. is_cuts cs' (nat (Layers model)) \<longrightarrow> cs' \<noteq> [] \<longrightarrow> length cs' \<le> length order \<longrightarrow> bottleneck ?st cs \<le> bottleneck ?st cs'"
      unfolding cs(5) by (rule cs(6))
    show ?thesis unfolding run(3)
      using run(1) as pins cs(2-4) fits best by (intro exI [of _ order] conjI) (simp, simp only: if_False option.case, blast)
  qed
qed

theorem multiNodePlan_optimal_witness:
  "\<exists>order. orderNodes 10 [exNode ''a'' 12, exNode ''b'' 8] exModel [] noConstraints = Some order \<and>
     multiNodePlan 10 [exNode ''a'' 12, exNode ''b'' 8] Map.empty exModel (exQuant ''q4'' 8) [] noConstraints \<noteq> None"
  using multiNodePlan_optimal [where sub = "[exNode ''a'' 12, exNode ''b'' 8]" and quant = "exQuant ''q4'' 8"
      and c = noConstraints and thr = 10 and model = exModel and links = "[]" and nodeByID = Map.empty]
  by (auto simp: example_defs split: option.splits)

text \<open>applying the pinned ranges never changes the shards: starts, ends, roles and draft flags stay,
  and every shard keeps its node or moves to a node of the subset.\<close>

theorem applyPinnedRanges_keeps_shards:
  assumes "applyPinnedRanges as order pins = (as', msgs)" "covers s e as" "aNodeID ` set as \<subseteq> nodeID ` set order"
  shows "covers s e as' \<and> rolesOK as' = rolesOK as \<and> map LayerStart as' = map LayerStart as \<and>
     map LayerEnd as' = map LayerEnd as \<and> aNodeID ` set as' \<subseteq> nodeID ` set order"
proof -
  note same = applyPinnedRanges_shards(1) [OF assms(1)]
  have "map LayerStart as = map LayerStart as'" "map LayerEnd as = map LayerEnd as'"
    by (rule sameShards_map [OF same], simp)+
  then show ?thesis
    using applyPinnedRanges_shards(2) [OF assms(1,3)] sameShards_covers [OF same] sameShards_roles [OF same] assms(2) by simp
qed

theorem applyPinnedRanges_keeps_shards_witness:
  "let as = [\<lparr>aNodeID = ''a'', aRole = RoleHost, LayerStart = 0, LayerEnd = 1, aDraft = False\<rparr>,
             \<lparr>aNodeID = ''b'', aRole = RoleWorker, LayerStart = 2, LayerEnd = 3, aDraft = False\<rparr>];
       order = [exNode ''a'' 8, exNode ''b'' 8];
       pins = [(\<lparr>Start = 2, End = 2\<rparr>, ''a'')]
   in map aNodeID (fst (applyPinnedRanges as order pins)) = [''a'', ''a''] \<and>
      covers 0 4 (fst (applyPinnedRanges as order pins))"
  using applyPinnedRanges_keeps_shards [of
      "[\<lparr>aNodeID = ''a'', aRole = RoleHost, LayerStart = 0, LayerEnd = 1, aDraft = False\<rparr>,
        \<lparr>aNodeID = ''b'', aRole = RoleWorker, LayerStart = 2, LayerEnd = 3, aDraft = False\<rparr>]"
      "[exNode ''a'' 8, exNode ''b'' 8]" "[(\<lparr>Start = 2, End = 2\<rparr>, ''a'')]" _ _ 0 4, OF surjective_pairing]
  by (simp add: Let_def applyPinnedRanges_def exNode_def zeroNode_def)

text \<open>The reported headroom can be negative on a partition the program accepts: the fit counts the SSD
  offload of a node, the headroom does not.\<close>

lemma minStageHeadroom_negative:
  "let n = (exNode ''a'' 8)\<lparr>KVSSDOffload := True, DiskFreeGB := 100\<rparr>
   in stageFits n exModel (exQuant ''q8'' 8) 0 4 1000 \<and>
      minStageHeadroom [\<lparr>aNodeID = ''a'', aRole = RoleHost, LayerStart = 0, LayerEnd = 3, aDraft = False\<rparr>]
        (map_by nodeID id [n]) exModel (exQuant ''q8'' 8) < 0"
  by code_simp

text \<open>The note that a forced host is outside the subset is also given when a pin moved the host's shard.\<close>

lemma forceHost_note_after_pin:
  "let ns = [exNode ''a'' 12, exNode ''b'' 12];
       c = noConstraints\<lparr>ForceHost := Some ''a'', Pinned := [(\<lparr>Start = 0, End = 0\<rparr>, ''b'')]\<rparr>
   in map_option (map_option (\<lambda>p. ForceHostNotInSubset ''a'' ''b'' \<in> set (Explanation p)))
        (multiNodePlan 10 ns (map_by nodeID id ns) exModel (exQuant ''q8'' 14) [] c) = Some (Some True)"
  by code_simp

end
