(* ===== verification/Planner.thy ===== *)
theory Planner
  imports MultiNode
begin

text \<open>
  The planner's entry point and the phases around the partition, from
  \<^verbatim>\<open>src/go/planner/plan/plan.go\<close>, \<^verbatim>\<open>draft.go\<close> and \<^verbatim>\<open>failover.go\<close>.

  The context is a parameter: \<open>ctx k\<close> says whether the \<open>k\<close>-th poll of \<^verbatim>\<open>ctx.Err()\<close> within one run of
  \<^verbatim>\<open>planInternal\<close> finds the context cancelled. The runs that compute the failover alternatives are
  goroutines of their own; \<open>altCtx dead\<close> are the polls of the one for the node \<open>dead\<close>, and \<open>arrival\<close>
  gives the order in which their results reach the channel.
\<close>

section \<open>The single-node plan\<close>

definition estimateSingleNode :: "Node \<Rightarrow> ModelSpec \<Rightarrow> Quantization \<Rightarrow> float64 \<Rightarrow> PerfEstimate" where
  "estimateSingleNode n model quant headroom =
     estimatePerformance (computeTime n model quant 0 (Layers model)) headroom model n"

definition singleNodePlan ::
  "Node \<Rightarrow> ModelSpec \<Rightarrow> Quantization \<Rightarrow> float64 \<Rightarrow> Constraints \<Rightarrow> DeploymentPlan" where
  "singleNodePlan n model quant kv c =
     (let assign = \<lparr>aNodeID = nodeID n, aRole = RoleHost, LayerStart = 0, LayerEnd = Layers model - 1, aDraft = False\<rparr>;
          required = SizeGB quant + kv + overheadOSRuntimeGB;
          headroom = usefulMemory n - required
      in DeploymentPlan (newPlanID (modelID model) (nodeID n)) (modelID model) (qName quant) [assign] [nodeID n]
           (estimateSingleNode n model quant headroom) 0
           ([SelectedQuantization (qName quant) (Quality quant), FitsOnSingleNode (nodeID n),
             SingleNodeBudget (SizeGB quant) kv overheadOSRuntimeGB required (usefulMemory n) headroom] @
            (if EmulatedFP4 quant then [RunningEmulatedFP4] else []) @
            (case ForceHost c of
               None \<Rightarrow> []
             | Some h \<Rightarrow> if h \<noteq> nodeID n then [ForceHostIgnored h (nodeID n)] else []))
           Map.empty)"

section \<open>The memory check of the assembled plan\<close>

fun tallyLayers ::
  "(string \<rightharpoonup> int) \<times> string list \<Rightarrow> Assignment list \<Rightarrow> (string \<rightharpoonup> int) \<times> string list" where
  "tallyLayers s [] = s"
| "tallyLayers (layersOn, order) (a # as) =
     (let k = aNodeID a;
          order = (case layersOn k of None \<Rightarrow> order @ [k] | Some _ \<Rightarrow> order);
          old = (case layersOn k of None \<Rightarrow> 0 | Some x \<Rightarrow> x)
      in tallyLayers (layersOn(k \<mapsto> old + (LayerEnd a - LayerStart a + 1)), order) as)"

definition constraintCulprit :: "Constraints \<Rightarrow> culprit" where
  "constraintCulprit c =
     (case ForceNodeCount c of
        Some k \<Rightarrow> if Pinned c \<noteq> [] then CulpritPinAndCount else CulpritCount k
      | None \<Rightarrow> if Pinned c \<noteq> [] then CulpritPin else CulpritPlan)"

definition constraintSuggestions :: "Constraints \<Rightarrow> string list" where
  "constraintSuggestions c =
     (if Pinned c \<noteq> [] \<and> ForceNodeCount c \<noteq> None
      then [''relax the pinned ranges'', ''drop or raise force_node_count'', ''add memory to the constrained node'']
      else if Pinned c \<noteq> []
      then [''pin the range to a node with more memory'', ''pin fewer layers'', ''drop the pin to let the DP balance the split'']
      else if ForceNodeCount c \<noteq> None
      then [''raise force_node_count to spread the model across more nodes'',
            ''drop force_node_count to let phase B choose'', ''choose a smaller quantization'']
      else [''choose a smaller quantization'', ''add nodes with more (V)RAM''])"

text \<open>What a node that serves \<open>nLayers\<close> layers needs, and what it may use.\<close>

definition nodeNeed :: "ModelSpec \<Rightarrow> Quantization \<Rightarrow> int \<Rightarrow> float64" where
  "nodeNeed model quant nLayers =
     SizeGB quant * of_int nLayers / of_int (Layers model) + kvCachePerNode model nLayers (ContextMax model) + overheadOSRuntimeGB"

definition nodeLimit :: "bool \<Rightarrow> Node \<Rightarrow> float64" where
  "nodeLimit multiNode n =
     (if multiNode then usefulMemoryForFit n * (1 - defaultHeadroomFraction) else usefulMemoryForFit n)"

fun checkNodes ::
  "(string \<rightharpoonup> Node) \<Rightarrow> ModelSpec \<Rightarrow> Quantization \<Rightarrow> Constraints \<Rightarrow> (string \<rightharpoonup> int) \<Rightarrow> bool \<Rightarrow> string list \<Rightarrow> PlanError option" where
  "checkNodes nodeByID model quant c layersOn multiNode [] = None"
| "checkNodes nodeByID model quant c layersOn multiNode (i # is) =
     (case nodeByID i of
        None \<Rightarrow> Some \<lparr>Reason = UnknownNode i, DeficitGB = 0, Suggestions = [''re-run planning against the current fleet'']\<rparr>
      | Some n \<Rightarrow>
          let nLayers = (case layersOn i of None \<Rightarrow> 0 | Some x \<Rightarrow> x);
              required = nodeNeed model quant nLayers;
              limit = nodeLimit multiNode n
          in if required > limit
             then Some \<lparr>Reason = MemoryViolated (constraintCulprit c) nLayers (Layers model) i required limit multiNode,
                     DeficitGB = required - limit, Suggestions = constraintSuggestions c\<rparr>
             else checkNodes nodeByID model quant c layersOn multiNode is)"

definition validatePlanMemory ::
  "DeploymentPlan \<Rightarrow> (string \<rightharpoonup> Node) \<Rightarrow> ModelSpec \<Rightarrow> Quantization \<Rightarrow> Constraints \<Rightarrow> PlanError option" where
  "validatePlanMemory plan nodeByID model quant c =
     (if Assignments plan = [] then None
      else let (layersOn, order) = tallyLayers (Map.empty, []) (Assignments plan)
           in checkNodes nodeByID model quant c layersOn (length order > 1) order)"

section \<open>Phase E: the draft\<close>

fun tailLoop :: "Assignment list \<Rightarrow> nat \<Rightarrow> nat list \<Rightarrow> nat" where
  "tailLoop as tail [] = tail"
| "tailLoop as tail (i # is) = (if LayerEnd (as ! i) > LayerEnd (as ! tail) then tailLoop as i is else tailLoop as tail is)"

definition placeDraft :: "DeploymentPlan \<Rightarrow> ModelSpec \<Rightarrow> DeploymentPlan" where
  "placeDraft plan model =
     (if \<not> Available (Draft model) \<or> Assignments plan = [] then plan
      else let as = Assignments plan;
               tail = tailLoop as 0 [1..<length as];
               cleared = map (\<lambda>a. a\<lparr>aDraft := False\<rparr>) as;
               as' = cleared[tail := (cleared ! tail)\<lparr>aDraft := True\<rparr>];
               d = Draft model; t = as' ! tail;
               line = (if length as = 1 then DraftOnHost (draftType d) (TailLayers d) (aNodeID t)
                       else DraftOnTail (draftType d) (TailLayers d) (aNodeID t) (LayerStart t) (LayerEnd t))
           in append_Explanation [line] (set_Assignments (\<lambda>_. as') plan))"

section \<open>The phases of one planning run\<close>

fun pickBest ::
  "(nat \<Rightarrow> bool) \<Rightarrow> int \<Rightarrow> (string \<rightharpoonup> Node) \<Rightarrow> ModelSpec \<Rightarrow> Quantization \<Rightarrow> Link list \<Rightarrow> Constraints \<Rightarrow>
   nat \<Rightarrow> Node list list \<Rightarrow> DeploymentPlan option \<Rightarrow> (plan_err + DeploymentPlan option) go" where
  "pickBest ctx thr nodeByID model quant links c poll [] best = Some (Inr best)"
| "pickBest ctx thr nodeByID model quant links c poll (sub # subs) best =
     (if ctx poll then Some (Inl CtxErr)
      else if length sub < 2 then pickBest ctx thr nodeByID model quant links c (Suc poll) subs best
      else Option.bind (multiNodePlan thr sub nodeByID model quant links c) (\<lambda>cand.
             case cand of
               None \<Rightarrow> pickBest ctx thr nodeByID model quant links c (Suc poll) subs best
             | Some p \<Rightarrow>
                 (case best of
                    None \<Rightarrow> pickBest ctx thr nodeByID model quant links c (Suc poll) subs (Some p)
                  | Some b \<Rightarrow> pickBest ctx thr nodeByID model quant links c (Suc poll) subs
                                (if Cost p < Cost b then Some p else Some b))))"

text \<open>Phases C and D on the candidate subsets: the single-node short cut, or the cheapest candidate.\<close>

definition choosePlan ::
  "(nat \<Rightarrow> bool) \<Rightarrow> int \<Rightarrow> (string \<rightharpoonup> Node) \<Rightarrow> ModelSpec \<Rightarrow> Quantization \<Rightarrow> float64 \<Rightarrow> Link list \<Rightarrow> Constraints \<Rightarrow>
   Node list list \<Rightarrow> (plan_err + DeploymentPlan) go" where
  "choosePlan ctx thr nodeByID model quant kv links c subsets =
     (if length (hd subsets) = 1 then Some (Inr (singleNodePlan (hd (hd subsets)) model quant kv c))
      else Option.bind (pickBest ctx thr nodeByID model quant links c 1 subsets None) (\<lambda>r.
             case r of
               Inl e \<Rightarrow> Some (Inl e)
             | Inr None \<Rightarrow> Some (Inl (PlanErr
                 \<lparr>Reason = NoFeasiblePartition (modelID model) (qName quant) (length subsets), DeficitGB = 0,
                  Suggestions = [''choose a smaller quantization'', ''reduce ContextMax to shrink the per-node KV cache'',
                                 ''add nodes with more (V)RAM to relieve the tightest stage'']\<rparr>))
             | Inr (Some p) \<Rightarrow> Some (Inr p)))"

text \<open>Everything \<^verbatim>\<open>planInternal\<close> does before the failover alternatives, on the restricted fleet.\<close>

definition planPhases ::
  "(nat \<Rightarrow> bool) \<Rightarrow> int \<Rightarrow> Node list \<Rightarrow> Link list \<Rightarrow> ModelSpec \<Rightarrow> Constraints \<Rightarrow> (plan_err + DeploymentPlan) go" where
  "planPhases ctx thr nodes links model c =
     (if Layers model \<le> 0
      then Some (Inl (PlanErr \<lparr>Reason = ModelDeclaresNoLayers (modelID model), DeficitGB = 0,
                        Suggestions = [''provide a ModelSpec with Layers > 0'']\<rparr>))
      else let kv = kvCacheInMemory model (ContextMax model) (minPCFLoop 0 nodes)
      in case selectQuantization nodes model kv c of
           Inl e \<Rightarrow> Some (Inl (PlanErr e))
         | Inr quant \<Rightarrow>
             let subsets = candidateSubsets nodes model quant kv c
             in if subsets = []
                then let aggUseful = (\<Sum>n\<leftarrow>nodes. usefulMemory n)
                     in Some (Inl (PlanErr
                          \<lparr>Reason = DoesNotFitUsefulMemory (modelID model) (qName quant) (length nodes),
                           DeficitGB = (SizeGB quant + kv + overheadOSRuntimeGB * of_nat (length nodes)) - aggUseful,
                           Suggestions = [''choose a smaller quantization'', ''reduce ContextMax to shrink the KV cache'',
                                          ''add nodes with more (V)RAM'']\<rparr>))
                else let nodeByID = map_by nodeID id nodes
                     in Option.bind (choosePlan ctx thr nodeByID model quant kv links c subsets) (\<lambda>r.
                          case r of
                            Inl e \<Rightarrow> Some (Inl e)
                          | Inr plan \<Rightarrow>
                              (case validatePlanMemory plan nodeByID model quant c of
                                 Some e \<Rightarrow> Some (Inl (PlanErr e))
                               | None \<Rightarrow> Some (Inr (placeDraft plan model)))))"

section \<open>Phase F: failover alternatives\<close>

definition nodesExcluding :: "Node list \<Rightarrow> string \<Rightarrow> Node list" where
  "nodesExcluding nodes i = filter (\<lambda>n. nodeID n \<noteq> i) nodes"

text \<open>The first loop claims a slot (the key with a nil plan) for every distinct node.\<close>

fun claimSlots :: "Assignment list \<Rightarrow> DeploymentPlan \<times> string list \<Rightarrow> DeploymentPlan \<times> string list" where
  "claimSlots [] s = s"
| "claimSlots (a # as) (plan, order) =
     (case FailoverAlt plan (aNodeID a) of
        Some _ \<Rightarrow> claimSlots as (plan, order)
      | None \<Rightarrow> claimSlots as (set_FailoverAlt (aNodeID a) None plan, order @ [aNodeID a]))"

text \<open>Draining the channel: the results are collected by node in the order of their arrival.\<close>

fun collect ::
  "(string \<Rightarrow> (plan_err + DeploymentPlan) go) \<Rightarrow> string list \<Rightarrow> (string \<rightharpoonup> plan_err + DeploymentPlan) \<Rightarrow>
   (string \<rightharpoonup> plan_err + DeploymentPlan) go" where
  "collect alt [] collected = Some collected"
| "collect alt (dead # rest) collected =
     Option.bind (alt dead) (\<lambda>r. collect alt rest (collected(dead \<mapsto> r)))"

fun applyResults :: "(string \<rightharpoonup> plan_err + DeploymentPlan) \<Rightarrow> string list \<Rightarrow> DeploymentPlan \<Rightarrow> DeploymentPlan" where
  "applyResults collected [] plan = plan"
| "applyResults collected (dead # rest) plan =
     applyResults collected rest
       (case collected dead of
          Some (Inl _) \<Rightarrow> append_Explanation [DegradeNotify dead] plan
        | Some (Inr alt) \<Rightarrow> set_FailoverAlt dead (Some alt) plan
        | None \<Rightarrow> set_FailoverAlt dead None plan)"

definition computeFailoverPlans ::
  "(string list \<Rightarrow> string list) \<Rightarrow> (string \<Rightarrow> (plan_err + DeploymentPlan) go) \<Rightarrow> DeploymentPlan \<Rightarrow> DeploymentPlan go" where
  "computeFailoverPlans arrival alt plan =
     (let (plan, order) = claimSlots (Assignments plan) (plan, [])
      in if order = [] then Some plan
         else map_option (\<lambda>collected. applyResults collected order plan) (collect alt (arrival order) Map.empty))"

section \<open>The entry point\<close>

text \<open>The flag \<^verbatim>\<open>computeFailover\<close> bounds the recursion: the alternatives are planned without it.\<close>

function planInternal ::
  "(string list \<Rightarrow> string list) \<Rightarrow> (nat \<Rightarrow> bool) \<Rightarrow> (string \<Rightarrow> nat \<Rightarrow> bool) \<Rightarrow> int \<Rightarrow>
   Node list \<Rightarrow> Link list \<Rightarrow> ModelSpec \<Rightarrow> Constraints \<Rightarrow> bool \<Rightarrow> (plan_err + DeploymentPlan) go" where
  "planInternal arrival ctx altCtx thr nodes links model c computeFailover =
     (if ctx 0 then Some (Inl CtxErr)
      else case restrictFleet nodes c of
          Inl e \<Rightarrow> Some (Inl e)
        | Inr fleet \<Rightarrow>
            (case planPhases ctx thr fleet links model c of
               None \<Rightarrow> None
             | Some (Inl e) \<Rightarrow> Some (Inl e)
             | Some (Inr plan) \<Rightarrow>
                 if computeFailover
                 then map_option Inr
                        (computeFailoverPlans arrival
                           (\<lambda>dead. planInternal arrival (altCtx dead) altCtx thr (nodesExcluding fleet dead) links model c False)
                           plan)
                 else Some (Inr plan)))"
  by pat_completeness auto

termination planInternal
  by (relation "measure (\<lambda>(_, _, _, _, _, _, _, _, computeFailover). if computeFailover then 1 else 0)") auto

declare planInternal.simps [simp del]

definition Plan ::
  "(string list \<Rightarrow> string list) \<Rightarrow> (nat \<Rightarrow> bool) \<Rightarrow> (string \<Rightarrow> nat \<Rightarrow> bool) \<Rightarrow> int \<Rightarrow>
   Node list \<Rightarrow> Link list \<Rightarrow> ModelSpec \<Rightarrow> Constraints \<Rightarrow> (plan_err + DeploymentPlan) go" where
  "Plan arrival ctx altCtx thr nodes links model c = planInternal arrival ctx altCtx thr nodes links model c True"

section \<open>Reference notions\<close>

text \<open>How many layers of a list of assignments a node serves.\<close>

definition layersOf :: "Assignment list \<Rightarrow> string \<Rightarrow> int" where
  "layersOf as i = (\<Sum>a\<leftarrow>filter (\<lambda>a. aNodeID a = i) as. LayerEnd a - LayerStart a + 1)"

text \<open>Every node of the plan is in the fleet and holds all its shards within its limit; a plan over several
  nodes keeps the headroom margin.\<close>

definition memoryOK :: "Node list \<Rightarrow> ModelSpec \<Rightarrow> Quantization \<Rightarrow> Assignment list \<Rightarrow> bool" where
  "memoryOK fleet model quant as \<longleftrightarrow> (\<forall>i \<in> aNodeID ` set as. \<exists>n \<in> set fleet. nodeID n = i \<and>
     nodeNeed model quant (layersOf as i) \<le> nodeLimit (card (aNodeID ` set as) > 1) n)"

text \<open>The draft sits on the last stage when the model ships one, and nowhere otherwise.\<close>

definition draftOK :: "ModelSpec \<Rightarrow> Assignment list \<Rightarrow> bool" where
  "draftOK model as \<longleftrightarrow> (\<forall>k < length as. aDraft (as ! k) \<longleftrightarrow> Available (Draft model) \<and> k = length as - 1)"

definition validPlan :: "Node list \<Rightarrow> ModelSpec \<Rightarrow> DeploymentPlan \<Rightarrow> bool" where
  "validPlan fleet model p \<longleftrightarrow>
     Assignments p \<noteq> [] \<and> covers 0 (Layers model) (Assignments p) \<and> rolesOK (Assignments p) \<and>
     draftOK model (Assignments p) \<and> PipelineOrder p = map aNodeID (Assignments p) \<and>
     set (PipelineOrder p) \<subseteq> nodeID ` set fleet \<and> ModelID p = modelID model \<and>
     (\<exists>q \<in> set (Quantizations model). QuantizationName p = qName q \<and> memoryOK fleet model q (Assignments p))"

definition getOr0 :: "(string \<rightharpoonup> int) \<Rightarrow> string \<Rightarrow> int" where
  "getOr0 f i = (case f i of None \<Rightarrow> 0 | Some x \<Rightarrow> x)"

definition goodSizes :: "ModelSpec \<Rightarrow> bool" where
  "goodSizes model \<longleftrightarrow> (\<forall>q \<in> set (Quantizations model). 0 \<le> SizeGB q)"

text \<open>The fields the failover pass leaves alone.\<close>

definition planCore :: "DeploymentPlan \<Rightarrow> string \<times> string \<times> string \<times> Assignment list \<times> string list \<times> PerfEstimate \<times> float64" where
  "planCore p = (PlanID p, ModelID p, QuantizationName p, Assignments p, PipelineOrder p, Estimated p, Cost p)"

text \<open>What the failover pass computes, whatever the order in which the goroutines finish.\<close>

definition failoverResult :: "(string \<Rightarrow> (plan_err + DeploymentPlan) go) \<Rightarrow> DeploymentPlan \<Rightarrow> DeploymentPlan" where
  "failoverResult alt p =
     (let (p1, ord) = claimSlots (Assignments p) (p, []) in applyResults (\<lambda>i. if i \<in> set ord then alt i else None) ord p1)"

section \<open>The memory check\<close>

lemma tallyLayers_spec:
  assumes "tallyLayers (lo, ord) as = (lo', ord')" "dom lo = set ord" "distinct ord"
  shows "dom lo' = set ord' \<and> distinct ord' \<and> set ord' = set ord \<union> aNodeID ` set as \<and>
    (\<forall>i. getOr0 lo' i = getOr0 lo i + layersOf as i)"
  using assms
proof (induction as arbitrary: lo ord)
  case (Cons a as)
  let ?k = "aNodeID a"
  let ?ord = "case lo ?k of None \<Rightarrow> ord @ [?k] | Some _ \<Rightarrow> ord"
  let ?lo = "lo(?k \<mapsto> getOr0 lo ?k + (LayerEnd a - LayerStart a + 1))"
  have ord: "set ?ord = insert ?k (set ord)" "distinct ?ord"
    using Cons.prems(2,3) by (auto split: option.splits)
  have "dom lo' = set ord' \<and> distinct ord' \<and> set ord' = set ?ord \<union> aNodeID ` set as \<and>
      (\<forall>i. getOr0 lo' i = getOr0 ?lo i + layersOf as i)"
  proof (rule Cons.IH [OF _ _ ord(2)])
    show "tallyLayers (?lo, ?ord) as = (lo', ord')" using Cons.prems(1) by (simp add: Let_def getOr0_def)
    show "dom ?lo = set ?ord" unfolding dom_fun_upd ord(1) using Cons.prems(2) by simp
  qed
  then show ?case using ord(1) by (auto simp: layersOf_def getOr0_def)
qed (simp add: layersOf_def)

lemma checkNodes_None:
  "checkNodes nodeByID model quant c lo mn is = None \<longleftrightarrow>
     (\<forall>i \<in> set is. \<exists>n. nodeByID i = Some n \<and> nodeNeed model quant (getOr0 lo i) \<le> nodeLimit mn n)"
  by (induction "is") (auto simp: Let_def getOr0_def not_less split: option.splits)

lemma validatePlanMemory_sound:
  assumes "validatePlanMemory p (map_by nodeID id fleet) model quant c = None"
  shows "memoryOK fleet model quant (Assignments p)"
proof (cases "Assignments p = []")
  case False
  let ?as = "Assignments p"
  obtain lo ord where t: "tallyLayers (Map.empty, []) ?as = (lo, ord)" by fastforce
  have spec: "distinct ord" "set ord = aNodeID ` set ?as" "\<And>i. getOr0 lo i = layersOf ?as i"
    using tallyLayers_spec [OF t] by (simp_all add: getOr0_def)
  have card: "length ord = card (aNodeID ` set ?as)" using distinct_card [OF spec(1)] spec(2) by simp
  have "\<forall>i \<in> set ord. \<exists>n. map_by nodeID id fleet i = Some n \<and> nodeNeed model quant (getOr0 lo i) \<le> nodeLimit (length ord > 1) n"
    using assms False t by (simp add: validatePlanMemory_def checkNodes_None)
  then show ?thesis unfolding memoryOK_def spec(2,3) card by (fastforce dest: map_by_SomeD)
qed (simp add: memoryOK_def)

lemma validatePlanMemory_complete:
  assumes "distinct (map nodeID fleet)" "memoryOK fleet model quant (Assignments p)"
  shows "validatePlanMemory p (map_by nodeID id fleet) model quant c = None"
proof (cases "Assignments p = []")
  case False
  let ?as = "Assignments p"
  obtain lo ord where t: "tallyLayers (Map.empty, []) ?as = (lo, ord)" by fastforce
  have spec: "distinct ord" "set ord = aNodeID ` set ?as" "\<And>i. getOr0 lo i = layersOf ?as i"
    using tallyLayers_spec [OF t] by (simp_all add: getOr0_def)
  have card: "length ord = card (aNodeID ` set ?as)" using distinct_card [OF spec(1)] spec(2) by simp
  have "\<exists>n. map_by nodeID id fleet i = Some n \<and> nodeNeed model quant (getOr0 lo i) \<le> nodeLimit (length ord > 1) n"
    if i: "i \<in> set ord" for i
  proof -
    from i assms(2) obtain n where n: "n \<in> set fleet" "nodeID n = i"
        "nodeNeed model quant (layersOf ?as i) \<le> nodeLimit (card (aNodeID ` set ?as) > 1) n"
      unfolding memoryOK_def spec(2) by blast
    then show ?thesis using map_by_distinct [OF assms(1) n(1), of id] by (simp add: spec(3) card)
  qed
  then show ?thesis using False t by (simp add: validatePlanMemory_def checkNodes_None)
qed (simp add: validatePlanMemory_def)

section \<open>The draft\<close>

lemma covers_ge: "covers s e as \<Longrightarrow> k < length as \<Longrightarrow> s \<le> LayerEnd (as ! k)"
proof (induction as arbitrary: s k)
  case (Cons a as)
  show ?case
  proof (cases k)
    case (Suc k')
    with Cons.prems Cons.IH [of "LayerEnd a + 1" k'] show ?thesis by simp
  qed (use Cons.prems in simp)
qed simp

lemma covers_increasing:
  "covers s e as \<Longrightarrow> i < j \<Longrightarrow> j < length as \<Longrightarrow> LayerEnd (as ! i) < LayerEnd (as ! j)"
proof (induction as arbitrary: s i j)
  case (Cons a as)
  obtain j' where j: "j = Suc j'" "j' < length as" using Cons.prems by (cases j) auto
  have rest: "covers (LayerEnd a + 1) e as" using Cons.prems by simp
  show ?case
  proof (cases i)
    case 0
    then show ?thesis using covers_ge [OF rest j(2)] by (simp add: j)
  next
    case (Suc i')
    then show ?thesis using Cons.IH [OF rest, of i' j'] Cons.prems j by simp
  qed
qed simp

lemma tailLoop_last: "covers s e as \<Longrightarrow> k < length as \<Longrightarrow> tailLoop as k [Suc k..<length as] = length as - 1"
proof (induction "length as - k" arbitrary: k)
  case (Suc d)
  show ?case
  proof (cases "Suc k < length as")
    case True
    then have "[Suc k..<length as] = Suc k # [Suc (Suc k)..<length as]" by (simp add: upt_conv_Cons)
    moreover have "LayerEnd (as ! k) < LayerEnd (as ! Suc k)" using covers_increasing [OF Suc.prems(1)] True by simp
    ultimately show ?thesis using Suc.hyps Suc.prems True by simp
  next
    case False
    then show ?thesis using Suc.prems by simp
  qed
qed simp

lemma placeDraft_sel [simp]:
  "PipelineOrder (placeDraft p model) = PipelineOrder p" "ModelID (placeDraft p model) = ModelID p"
  "QuantizationName (placeDraft p model) = QuantizationName p" "FailoverAlt (placeDraft p model) = FailoverAlt p"
  "Cost (placeDraft p model) = Cost p"
  by (simp_all add: placeDraft_def Let_def)

lemma map_update_nth: "(map f xs)[i := f (xs ! i)] = map f xs"
  by (metis list_update_id map_update)

text \<open>Phase E only changes draft flags.\<close>

lemma placeDraft_map:
  assumes "\<And>a b. f (a\<lparr>aDraft := b\<rparr>) = f a"
  shows "map f (Assignments (placeDraft p model)) = map f (Assignments p)"
proof (cases "\<not> Available (Draft model) \<or> Assignments p = []")
  case False
  let ?as = "Assignments p" and ?t = "tailLoop (Assignments p) 0 [1..<length (Assignments p)]"
  let ?cl = "map (\<lambda>a. a\<lparr>aDraft := False\<rparr>) ?as"
  have eq: "Assignments (placeDraft p model) = ?cl[?t := (?cl ! ?t)\<lparr>aDraft := True\<rparr>]"
    using False by (simp add: placeDraft_def Let_def)
  have cl: "map f ?cl = map f ?as" by (simp add: assms)
  show ?thesis unfolding eq map_update assms cl
    by (cases "?t < length ?as") (simp_all add: assms list_update_beyond map_update_nth)
qed (auto simp: placeDraft_def)

lemma placeDraft_draftOK:
  assumes "covers s e (Assignments p)" "\<forall>a \<in> set (Assignments p). \<not> aDraft a"
  shows "draftOK model (Assignments (placeDraft p model))"
proof (cases "\<not> Available (Draft model) \<or> Assignments p = []")
  case True
  then show ?thesis using assms(2) by (auto simp: placeDraft_def draftOK_def)
next
  case False
  let ?as = "Assignments p"
  have "tailLoop ?as 0 [Suc 0..<length ?as] = length ?as - 1" using tailLoop_last [OF assms(1), of 0] False by simp
  then show ?thesis using False by (auto simp: placeDraft_def draftOK_def Let_def nth_list_update)
qed

section \<open>The phases\<close>

lemma planShape_mono: "planShape model ids p \<Longrightarrow> ids \<subseteq> ids' \<Longrightarrow> planShape model ids' p"
  unfolding planShape_def by blast

lemma singleNodePlan_shape:
  "0 < Layers model \<Longrightarrow> planShape model {nodeID n} (singleNodePlan n model quant kv c)"
  "QuantizationName (singleNodePlan n model quant kv c) = qName quant"
  by (simp_all add: planShape_def singleNodePlan_def Let_def)

lemma pickBest_total:
  assumes "0 \<le> SizeGB quant" "0 < Layers model"
    and "\<And>sub. sub \<in> set subs \<Longrightarrow> nodeID ` set sub \<subseteq> ids"
    and "\<And>b. best = Some b \<Longrightarrow> planShape model ids b \<and> QuantizationName b = qName quant"
  shows "\<exists>r. pickBest ctx thr nodeByID model quant links c poll subs best = Some r \<and>
     (\<forall>e. r = Inl e \<longrightarrow> e = CtxErr) \<and>
     (\<forall>b. r = Inr (Some b) \<longrightarrow> planShape model ids b \<and> QuantizationName b = qName quant)"
  using assms(3,4)
proof (induction subs arbitrary: poll best)
  case (Cons sub subs)
  have IH: "\<exists>r. pickBest ctx thr nodeByID model quant links c (Suc poll) subs best' = Some r \<and>
      (\<forall>e. r = Inl e \<longrightarrow> e = CtxErr) \<and>
      (\<forall>b. r = Inr (Some b) \<longrightarrow> planShape model ids b \<and> QuantizationName b = qName quant)"
    if "\<And>b. best' = Some b \<Longrightarrow> planShape model ids b \<and> QuantizationName b = qName quant" for best'
    using that Cons.prems(1) by (intro Cons.IH) auto
  obtain r where r: "multiNodePlan thr sub nodeByID model quant links c = Some r"
      "\<And>p. r = Some p \<Longrightarrow> planShape model (nodeID ` set sub) p \<and> QuantizationName p = qName quant"
    using multiNodePlan_shape [OF assms(1,2), of thr sub nodeByID links c] by blast
  have shape: "planShape model ids p" "QuantizationName p = qName quant" if "r = Some p" for p
    using r(2) [OF that] Cons.prems(1) [of sub] planShape_mono by auto
  show ?case
  proof (cases "ctx poll \<or> length sub < 2")
    case True
    then show ?thesis using IH [of best] Cons.prems(2) by auto
  next
    case False
    show ?thesis
    proof (cases r)
      case None
      then show ?thesis using False r(1) IH [of best] Cons.prems(2) by simp
    next
      case (Some p)
      let ?best = "case best of None \<Rightarrow> Some p | Some b \<Rightarrow> if Cost p < Cost b then Some p else Some b"
      have step: "pickBest ctx thr nodeByID model quant links c poll (sub # subs) best =
          pickBest ctx thr nodeByID model quant links c (Suc poll) subs ?best"
        using False r(1) Some by (simp split: option.split)
      have "planShape model ids b \<and> QuantizationName b = qName quant" if "?best = Some b" for b
        using that shape [OF Some] Cons.prems(2) by (cases best) (auto split: if_splits)
      then show ?thesis unfolding step by (rule IH)
    qed
  qed
qed simp

text \<open>The loop keeps the cheapest candidate.\<close>

lemma pickBest_min:
  assumes "pickBest ctx thr nodeByID model quant links c poll subs best = Some (Inr r)"
  shows "(\<forall>b0. best = Some b0 \<longrightarrow> (\<exists>b. r = Some b \<and> Cost b \<le> Cost b0)) \<and>
    (\<forall>sub p. sub \<in> set subs \<longrightarrow> 2 \<le> length sub \<longrightarrow> multiNodePlan thr sub nodeByID model quant links c = Some (Some p) \<longrightarrow>
       (\<exists>b. r = Some b \<and> Cost b \<le> Cost p))"
  using assms
proof (induction subs arbitrary: poll best)
  case (Cons sub subs)
  have nc: "\<not> ctx poll" using Cons.prems by (auto split: if_splits)
  show ?case
  proof (cases "length sub < 2")
    case True
    then show ?thesis using Cons.IH [of "Suc poll" best] Cons.prems nc by auto
  next
    case False
    then obtain cand where cand: "multiNodePlan thr sub nodeByID model quant links c = Some cand"
      using Cons.prems nc by (auto simp: bind_eq_Some_conv)
    show ?thesis
    proof (cases cand)
      case None
      then show ?thesis using Cons.IH [of "Suc poll" best] Cons.prems nc False cand by auto
    next
      case (Some p)
      let ?best = "case best of None \<Rightarrow> Some p | Some b \<Rightarrow> if Cost p < Cost b then Some p else Some b"
      have "pickBest ctx thr nodeByID model quant links c (Suc poll) subs ?best = Some (Inr r)"
        using Cons.prems nc False cand Some by (cases best) simp_all
      note ih = Cons.IH [OF this]
      obtain b1 where b1: "?best = Some b1" "Cost b1 \<le> Cost p" "\<forall>b0. best = Some b0 \<longrightarrow> Cost b1 \<le> Cost b0"
      proof (cases best)
        case old: (Some b0)
        show thesis by (rule that [of "if Cost p < Cost b0 then p else b0"]) (auto simp: old)
      qed (use that in simp)
      with ih obtain b where b: "r = Some b" "Cost b \<le> Cost b1" by blast
      from ih have rest: "\<forall>sub p. sub \<in> set subs \<longrightarrow> 2 \<le> length sub \<longrightarrow>
          multiNodePlan thr sub nodeByID model quant links c = Some (Some p) \<longrightarrow> (\<exists>b. r = Some b \<and> Cost b \<le> Cost p)" by blast
      show ?thesis using b b1 rest cand Some by (auto intro: order_trans)
    qed
  qed
qed simp

lemma choosePlan_total:
  assumes "0 \<le> SizeGB quant" "0 < Layers model" "subsets \<noteq> []"
    and "\<And>sub. sub \<in> set subsets \<Longrightarrow> set sub \<subseteq> set fleet"
  shows "\<exists>r. choosePlan ctx thr nodeByID model quant kv links c subsets = Some r \<and>
    (\<forall>p. r = Inr p \<longrightarrow> planShape model (nodeID ` set fleet) p \<and> QuantizationName p = qName quant)"
proof (cases "length (hd subsets) = 1")
  case True
  then obtain n where n: "hd subsets = [n]" by (metis One_nat_def length_0_conv length_Suc_conv)
  then have "n \<in> set fleet" using assms(3,4) by (metis hd_in_set list.set_intros(1) subsetD)
  then have "{nodeID n} \<subseteq> nodeID ` set fleet" by simp
  from planShape_mono [OF singleNodePlan_shape(1) [OF assms(2)] this] show ?thesis
    by (simp add: choosePlan_def n singleNodePlan_shape(2))
next
  case False
  obtain r where r: "pickBest ctx thr nodeByID model quant links c 1 subsets None = Some r"
      "\<And>b. r = Inr (Some b) \<Longrightarrow> planShape model (nodeID ` set fleet) b \<and> QuantizationName b = qName quant"
    using pickBest_total [OF assms(1,2), of subsets "nodeID ` set fleet" None ctx thr nodeByID links c 1] assms(4) by blast
  then show ?thesis using False by (auto simp: choosePlan_def split: sum.splits option.splits)
qed

lemma nodeNeed_markEmulated [simp]: "nodeNeed model (markEmulated nodes q) k = nodeNeed model q k"
  by (simp add: nodeNeed_def markEmulated_def)

lemma memoryOK_map:
  assumes "map (\<lambda>a. (aNodeID a, LayerStart a, LayerEnd a)) as = map (\<lambda>a. (aNodeID a, LayerStart a, LayerEnd a)) bs"
  shows "memoryOK fleet model q as = memoryOK fleet model q bs"
proof -
  have ids: "aNodeID ` set as = aNodeID ` set bs"
    using arg_cong [OF assms, of "\<lambda>xs. fst ` set xs"] by (simp add: image_image)
  have "layersOf as i = (\<Sum>(k, s, e)\<leftarrow>filter (\<lambda>(k, s, e). k = i) (map (\<lambda>a. (aNodeID a, LayerStart a, LayerEnd a)) as). e - s + 1)" for as i
    by (simp add: layersOf_def filter_map comp_def)
  then have "layersOf as i = layersOf bs i" for i using assms by simp
  with ids show ?thesis by (simp add: memoryOK_def)
qed

lemma placeDraft_valid:
  assumes "planShape model (nodeID ` set fleet) p" "q \<in> set (Quantizations model)" "QuantizationName p = qName q"
    "memoryOK fleet model q (Assignments p)"
  shows "validPlan fleet model (placeDraft p model)"
proof -
  let ?p = "placeDraft p model"
  have len: "length (Assignments ?p) = length (Assignments p)"
    using arg_cong [OF placeDraft_map [of "\<lambda>_. ()" p model], of length] by simp
  have "covers 0 (Layers model) (Assignments ?p)"
    using covers_map [OF placeDraft_map [of "\<lambda>a. (LayerStart a, LayerEnd a)" p model]] assms(1) by (simp add: planShape_def)
  moreover have "rolesOK (Assignments ?p)"
    using rolesOK_map [OF placeDraft_map [of aRole p model]] assms(1) by (simp add: planShape_def)
  moreover have "draftOK model (Assignments ?p)"
    using placeDraft_draftOK assms(1) unfolding planShape_def by blast
  moreover have "map aNodeID (Assignments ?p) = map aNodeID (Assignments p)" by (rule placeDraft_map) simp
  moreover have "memoryOK fleet model q (Assignments ?p)"
    using memoryOK_map [OF placeDraft_map [of "\<lambda>a. (aNodeID a, LayerStart a, LayerEnd a)" p model]] assms(4) by simp
  ultimately show ?thesis using assms(1-3) len by (auto simp: validPlan_def planShape_def)
qed

lemma planPhases_valid:
  assumes "goodSizes model"
  shows "\<exists>r. planPhases ctx thr fleet links model c = Some r \<and>
    (\<forall>p. r = Inr p \<longrightarrow> validPlan fleet model p \<and> FailoverAlt p = Map.empty)"
proof (cases "Layers model \<le> 0")
  case True
  then show ?thesis by (simp add: planPhases_def)
next
  case layers: False
  define kv where "kv = kvCacheInMemory model (ContextMax model) (minPCFLoop 0 fleet)"
  show ?thesis
  proof (cases "selectQuantization fleet model kv c")
    case (Inl e)
    then show ?thesis using layers by (simp add: planPhases_def kv_def [symmetric])
  next
    case (Inr quant)
    then obtain q0 where q0: "q0 \<in> set (Quantizations model)" "quant = markEmulated fleet q0"
      by (rule selectQuantization_member)
    have size: "0 \<le> SizeGB quant" using assms q0 by (auto simp: goodSizes_def markEmulated_def)
    let ?subs = "candidateSubsets fleet model quant kv c" and ?by = "map_by nodeID id fleet"
    show ?thesis
    proof (cases "?subs = []")
      case True
      then show ?thesis using layers Inr by (simp add: planPhases_def kv_def [symmetric] Let_def)
    next
      case False
      obtain r where r: "choosePlan ctx thr ?by model quant kv links c ?subs = Some r"
          "\<And>p. r = Inr p \<Longrightarrow> planShape model (nodeID ` set fleet) p \<and> QuantizationName p = qName quant"
        using choosePlan_total [OF size _ False, of model fleet ctx thr ?by kv links c] layers
          candidateSubsets_subset [of _ fleet model quant kv c] by force
      have step: "planPhases ctx thr fleet links model c = (case r of Inl e \<Rightarrow> Some (Inl e)
          | Inr plan \<Rightarrow> (case validatePlanMemory plan ?by model quant c of
                Some e \<Rightarrow> Some (Inl (PlanErr e)) | None \<Rightarrow> Some (Inr (placeDraft plan model))))"
        using layers Inr False r(1) by (simp add: planPhases_def kv_def [symmetric] Let_def)
      show ?thesis
      proof (cases r)
        case Inl: (Inl e)
        then show ?thesis unfolding step by simp
      next
        case plan: (Inr p)
        have "validPlan fleet model (placeDraft p model)" if "validatePlanMemory p ?by model quant c = None"
        proof (rule placeDraft_valid [OF _ q0(1)])
          show "memoryOK fleet model q0 (Assignments p)"
            using validatePlanMemory_sound [OF that] by (simp add: memoryOK_def q0(2))
        qed (use r(2) [OF plan] in \<open>simp_all add: q0(2) markEmulated_def\<close>)
        moreover have "FailoverAlt p = Map.empty" using r(2) [OF plan] by (simp add: planShape_def)
        ultimately show ?thesis unfolding step by (cases "validatePlanMemory p ?by model quant c") (simp_all add: plan)
      qed
    qed
  qed
qed

section \<open>Failover alternatives\<close>

lemma planCore_updates [simp]:
  "planCore (set_FailoverAlt k v p) = planCore p" "planCore (append_Explanation ls p) = planCore p"
  by (simp_all add: planCore_def)

lemma validPlan_core: "planCore p = planCore p' \<Longrightarrow> validPlan fleet model p = validPlan fleet model p'"
  by (simp add: validPlan_def planCore_def)

lemma claimSlots_spec:
  assumes "claimSlots as (p, ord) = (p', ord')" "distinct ord" "set ord \<subseteq> dom (FailoverAlt p)"
  shows "planCore p' = planCore p \<and> Explanation p' = Explanation p \<and> distinct ord' \<and>
    set ord' = set ord \<union> (aNodeID ` set as - dom (FailoverAlt p)) \<and>
    FailoverAlt p' = (\<lambda>i. if i \<in> aNodeID ` set as \<and> FailoverAlt p i = None then Some None else FailoverAlt p i)"
  using assms
proof (induction as arbitrary: p ord)
  case (Cons a as)
  show ?case
  proof (cases "FailoverAlt p (aNodeID a)")
    case None
    let ?p = "set_FailoverAlt (aNodeID a) None p"
    have dom: "dom (FailoverAlt ?p) = insert (aNodeID a) (dom (FailoverAlt p))" by auto
    have "planCore p' = planCore ?p \<and> Explanation p' = Explanation ?p \<and> distinct ord' \<and>
      set ord' = set (ord @ [aNodeID a]) \<union> (aNodeID ` set as - dom (FailoverAlt ?p)) \<and>
      FailoverAlt p' = (\<lambda>i. if i \<in> aNodeID ` set as \<and> FailoverAlt ?p i = None then Some None else FailoverAlt ?p i)"
    proof (rule Cons.IH)
      show "claimSlots as (?p, ord @ [aNodeID a]) = (p', ord')" using Cons.prems(1) None by simp
      show "distinct (ord @ [aNodeID a])" using Cons.prems(2,3) None by auto
      show "set (ord @ [aNodeID a]) \<subseteq> dom (FailoverAlt ?p)" unfolding dom using Cons.prems(3) by auto
    qed
    then show ?thesis unfolding dom using None by (auto simp: fun_eq_iff)
  next
    case (Some v)
    then have "claimSlots as (p, ord) = (p', ord')" using Cons.prems(1) by simp
    from Cons.IH [OF this Cons.prems(2,3)] show ?thesis using Some by (auto simp: fun_eq_iff)
  qed
qed auto

lemma collect_total:
  assumes "\<And>i. i \<in> set xs \<Longrightarrow> alt i \<noteq> None"
  shows "collect alt xs m = Some (\<lambda>i. if i \<in> set xs then alt i else m i)"
  using assms
proof (induction xs arbitrary: m)
  case (Cons x xs)
  then obtain r where r: "alt x = Some r" by fastforce
  have "collect alt (x # xs) m = Some (\<lambda>i. if i \<in> set xs then alt i else (m(x \<mapsto> r)) i)"
    using Cons by (simp add: r)
  also have "(\<lambda>i. if i \<in> set xs then alt i else (m(x \<mapsto> r)) i) = (\<lambda>i. if i \<in> set (x # xs) then alt i else m i)"
    by (auto simp: fun_eq_iff r)
  finally show ?case .
qed simp

lemma applyResults_spec:
  assumes "distinct ord" "set ord \<subseteq> dom (FailoverAlt p)" "\<And>i. i \<in> set ord \<Longrightarrow> FailoverAlt p i = Some None"
  shows "planCore (applyResults col ord p) = planCore p \<and>
    Explanation (applyResults col ord p) = Explanation p @ map DegradeNotify (filter (\<lambda>i. \<exists>e. col i = Some (Inl e)) ord) \<and>
    FailoverAlt (applyResults col ord p) =
      (\<lambda>i. if i \<in> set ord then (case col i of Some (Inr a) \<Rightarrow> Some (Some a) | _ \<Rightarrow> Some None) else FailoverAlt p i)"
  using assms
proof (induction ord arbitrary: p)
  case (Cons d ord)
  let ?p = "case col d of Some (Inl _) \<Rightarrow> append_Explanation [DegradeNotify d] p
        | Some (Inr alt) \<Rightarrow> set_FailoverAlt d (Some alt) p | None \<Rightarrow> set_FailoverAlt d None p"
  have p: "FailoverAlt ?p i = (if i = d then (case col d of Some (Inr a) \<Rightarrow> Some (Some a) | _ \<Rightarrow> Some None) else FailoverAlt p i)" for i
    using Cons.prems(3) [of d] by (auto split: option.split sum.split)
  have core: "planCore ?p = planCore p" "Explanation ?p = Explanation p @ (if \<exists>e. col d = Some (Inl e) then [DegradeNotify d] else [])"
    by (auto split: option.splits sum.splits)
  have "planCore (applyResults col ord ?p) = planCore ?p \<and>
    Explanation (applyResults col ord ?p) = Explanation ?p @ map DegradeNotify (filter (\<lambda>i. \<exists>e. col i = Some (Inl e)) ord) \<and>
    FailoverAlt (applyResults col ord ?p) =
      (\<lambda>i. if i \<in> set ord then (case col i of Some (Inr a) \<Rightarrow> Some (Some a) | _ \<Rightarrow> Some None) else FailoverAlt ?p i)"
    using Cons.prems by (intro Cons.IH) (auto simp: p)
  then show ?case using Cons.prems(1) by (simp add: core fun_eq_iff) (simp add: p)
qed auto

lemma computeFailoverPlans_eq:
  assumes "\<And>i. alt i \<noteq> None" "\<And>xs. set (arrival xs) = set xs"
  shows "computeFailoverPlans arrival alt p = Some (failoverResult alt p)"
  using assms by (simp add: computeFailoverPlans_def failoverResult_def Let_def case_prod_beta collect_total)

lemma computeFailoverPlans_total:
  assumes "\<And>i. alt i \<noteq> None"
  shows "computeFailoverPlans arrival alt p \<noteq> None"
  using assms by (simp add: computeFailoverPlans_def Let_def case_prod_beta collect_total)

lemma failoverResult_spec:
  assumes "FailoverAlt p = Map.empty" "\<And>i. alt i \<noteq> None"
  shows "planCore (failoverResult alt p) = planCore p"
    "FailoverAlt (failoverResult alt p) i = (if i \<in> aNodeID ` set (Assignments p)
       then (case alt i of Some (Inr a) \<Rightarrow> Some (Some a) | _ \<Rightarrow> Some None) else None)"
    "i \<in> aNodeID ` set (Assignments p) \<Longrightarrow> alt i = Some (Inl e) \<Longrightarrow> DegradeNotify i \<in> set (Explanation (failoverResult alt p))"
proof -
  obtain p1 ord where c: "claimSlots (Assignments p) (p, []) = (p1, ord)" by fastforce
  have claim: "planCore p1 = planCore p" "distinct ord" "set ord = aNodeID ` set (Assignments p)"
      "FailoverAlt p1 = (\<lambda>i. if i \<in> aNodeID ` set (Assignments p) then Some None else None)"
    using claimSlots_spec [OF c] by (simp_all add: assms(1) cong: if_cong)
  let ?col = "\<lambda>i. if i \<in> set ord then alt i else None"
  have run: "failoverResult alt p = applyResults ?col ord p1" by (simp add: failoverResult_def c)
  have "set ord \<subseteq> dom (FailoverAlt p1)" by (auto simp: claim(3,4))
  then have spec: "planCore (applyResults ?col ord p1) = planCore p1"
    "Explanation (applyResults ?col ord p1) = Explanation p1 @ map DegradeNotify (filter (\<lambda>i. \<exists>e. ?col i = Some (Inl e)) ord)"
    "FailoverAlt (applyResults ?col ord p1) =
      (\<lambda>i. if i \<in> set ord then (case ?col i of Some (Inr a) \<Rightarrow> Some (Some a) | _ \<Rightarrow> Some None) else FailoverAlt p1 i)"
    using applyResults_spec [OF claim(2), of p1 ?col] by (simp_all add: claim(3,4))
  show "planCore (failoverResult alt p) = planCore p" by (simp add: run spec(1) claim(1))
  show "FailoverAlt (failoverResult alt p) i = (if i \<in> aNodeID ` set (Assignments p)
       then (case alt i of Some (Inr a) \<Rightarrow> Some (Some a) | _ \<Rightarrow> Some None) else None)"
    unfolding run spec(3) by (simp add: claim(3,4))
  show "DegradeNotify i \<in> set (Explanation (failoverResult alt p))"
    if "i \<in> aNodeID ` set (Assignments p)" "alt i = Some (Inl e)"
    using that unfolding run spec(2) by (auto simp: claim(3))
qed

section \<open>The entry point\<close>

lemma planInternal_False:
  "planInternal arrival ctx altCtx thr nodes links model c False =
     (if ctx 0 then Some (Inl CtxErr)
      else case restrictFleet nodes c of Inl e \<Rightarrow> Some (Inl e) | Inr fleet \<Rightarrow> planPhases ctx thr fleet links model c)"
  by (subst planInternal.simps) (auto split: sum.split option.split)

lemma planInternal_alt:
  assumes "goodSizes model"
  shows "\<exists>r. planInternal arrival ctx altCtx thr nodes links model c False = Some r \<and>
    (\<forall>p. r = Inr p \<longrightarrow> validPlan (filter (permitted c) nodes) model p \<and> FailoverAlt p = Map.empty)"
proof -
  consider "ctx 0" | e where "\<not> ctx 0" "restrictFleet nodes c = Inl e" | fleet where "\<not> ctx 0" "restrictFleet nodes c = Inr fleet"
    by (metis sum.exhaust)
  then show ?thesis
  proof cases
    case 3
    obtain r where r: "planPhases ctx thr fleet links model c = Some r"
        "\<forall>p. r = Inr p \<longrightarrow> validPlan fleet model p \<and> FailoverAlt p = Map.empty"
      using planPhases_valid [OF assms] by blast
    then show ?thesis using 3 restrictFleet_Inr(1) [OF 3(2)]
      by (cases r) (simp_all add: planInternal.simps [of arrival ctx])
  qed (simp_all add: planInternal.simps [of arrival ctx])
qed

text \<open>A successful run: the phases succeed on the restricted fleet and the failover pass completes the plan.\<close>

lemma Plan_Inr:
  assumes "goodSizes model" "Plan arrival ctx altCtx thr nodes links model c = Some (Inr p)" "\<And>xs. set (arrival xs) = set xs"
  obtains fleet p0 where "restrictFleet nodes c = Inr fleet" "fleet = filter (permitted c) nodes"
    "planPhases ctx thr fleet links model c = Some (Inr p0)" "validPlan fleet model p0" "FailoverAlt p0 = Map.empty"
    "p = failoverResult (\<lambda>dead. planInternal arrival (altCtx dead) altCtx thr (nodesExcluding fleet dead) links model c False) p0"
proof -
  from assms(2) obtain fleet p0 where run: "restrictFleet nodes c = Inr fleet"
      "planPhases ctx thr fleet links model c = Some (Inr p0)"
      "computeFailoverPlans arrival (\<lambda>dead. planInternal arrival (altCtx dead) altCtx thr (nodesExcluding fleet dead) links model c False) p0 = Some p"
    by (auto simp: Plan_def planInternal.simps [of arrival ctx] split: if_splits sum.splits option.splits)
  have alt: "planInternal arrival (altCtx dead) altCtx thr (nodesExcluding fleet dead) links model c False \<noteq> None" for dead
    using planInternal_alt [OF assms(1), of arrival "altCtx dead" altCtx thr "nodesExcluding fleet dead" links c] by auto
  have "validPlan fleet model p0" "FailoverAlt p0 = Map.empty"
    using planPhases_valid [OF assms(1), of ctx thr fleet links c] run(2) by auto
  moreover have "p = failoverResult (\<lambda>dead. planInternal arrival (altCtx dead) altCtx thr (nodesExcluding fleet dead) links model c False) p0"
    using run(3) computeFailoverPlans_eq [OF alt assms(3)] by simp
  ultimately show thesis using run(1,2) restrictFleet_Inr(1) [OF run(1)] by (intro that)
qed

section \<open>Properties of the planner\<close>

lemma Plan_total:
  assumes "goodSizes model"
  shows "Plan arrival ctx altCtx thr nodes links model c \<noteq> None"
proof -
  have alt: "planInternal arrival (altCtx dead) altCtx thr (nodesExcluding fleet dead) links model c False \<noteq> None" for fleet dead
    using planInternal_alt [OF assms, of arrival "altCtx dead" altCtx thr "nodesExcluding fleet dead" links c] by auto
  have phases: "planPhases ctx thr fleet links model c \<noteq> None" for fleet
    using planPhases_valid [OF assms, of ctx thr fleet links c] by auto
  have failover: "computeFailoverPlans arrival (\<lambda>dead. planInternal arrival (altCtx dead) altCtx thr
      (nodesExcluding fleet dead) links model c False) p \<noteq> None" for fleet p
    by (rule computeFailoverPlans_total [OF alt])
  show ?thesis
    by (simp add: Plan_def planInternal.simps [of arrival ctx] phases failover del: not_None_eq split: sum.split option.split)
qed



lemma Plan_run_valid:
  assumes "goodSizes model" "\<And>xs. set (arrival xs) = set xs"
    "Plan arrival ctx altCtx thr nodes links model c = Some (Inr p)"
  shows "validPlan (filter (permitted c) nodes) model p"
proof -
  obtain fleet p0 where "restrictFleet nodes c = Inr fleet" and fleet: "fleet = filter (permitted c) nodes"
      and "planPhases ctx thr fleet links model c = Some (Inr p0)" and run: "validPlan fleet model p0" "FailoverAlt p0 = Map.empty"
      "p = failoverResult (\<lambda>dead. planInternal arrival (altCtx dead) altCtx thr (nodesExcluding fleet dead) links model c False) p0"
    by (rule Plan_Inr [OF assms(1,3,2)])
  have "planInternal arrival (altCtx dead) altCtx thr (nodesExcluding fleet dead) links model c False \<noteq> None" for dead
    using planInternal_alt [OF assms(1), of arrival "altCtx dead" altCtx thr "nodesExcluding fleet dead" links c] by auto
  from validPlan_core [OF failoverResult_spec(1) [OF run(2) this]] show ?thesis using run fleet by simp
qed

text \<open>C1: every plan the planner returns is valid on the fleet the operator's constraints leave: its shards
  cover the layers contiguously, host first, the nodes are permitted ones, each of them holds what
  it serves within its useful memory (with the headroom margin when there are several), the
  quantization is one the model declares, and the draft is on the last stage exactly when the
  model ships one.\<close>

theorem Plan_valid:
  assumes "goodSizes model" "\<And>xs. set (arrival xs) = set xs"
    "Plan arrival ctx altCtx thr nodes links model c = Some (Inr p)"
  shows "validPlan (filter (permitted c) nodes) model p"
  using assms by (rule Plan_run_valid)

lemma example_run:
  "map_option (\<lambda>r. case r of Inl _ \<Rightarrow> [] | Inr p \<Rightarrow> PipelineOrder p)
     (Plan id (\<lambda>_. False) (\<lambda>_ _. False) 10 [exNode ''a'' 16, exNode ''b'' 16] [] exModel noConstraints) = Some [''a'', ''b'']"
  by code_simp

lemma run_Inr:
  assumes "map_option (\<lambda>r. case r of Inl _ \<Rightarrow> [] | Inr p \<Rightarrow> f p) x = Some ys" "ys \<noteq> []"
  shows "\<exists>p. x = Some (Inr p) \<and> f p = ys"
proof -
  obtain r where "x = Some r" "(case r of Inl _ \<Rightarrow> [] | Inr p \<Rightarrow> f p) = ys" using assms(1) by auto
  with assms(2) show ?thesis by (cases r) auto
qed

lemma example_plan: "\<exists>p. Plan id (\<lambda>_. False) (\<lambda>_ _. False) 10 [exNode ''a'' 16, exNode ''b'' 16] [] exModel noConstraints = Some (Inr p) \<and>
   PipelineOrder p = [''a'', ''b'']"
  using run_Inr [OF example_run] by simp

theorem Plan_valid_witness:
  "\<exists>p. Plan id (\<lambda>_. False) (\<lambda>_ _. False) 10 [exNode ''a'' 16, exNode ''b'' 16] [] exModel noConstraints = Some (Inr p) \<and>
     validPlan (filter (permitted noConstraints) [exNode ''a'' 16, exNode ''b'' 16]) exModel p"
  using example_plan Plan_valid [of exModel id "\<lambda>_. False" "\<lambda>_ _. False" 10 "[exNode ''a'' 16, exNode ''b'' 16]" "[]" noConstraints]
  by (auto simp: goodSizes_def exModel_def exQuant_def)

text \<open>C4: the failover alternatives: exactly the nodes the plan uses have a key; a standby plan is a valid plan
  of the fleet without the dead node (so it does not use it) and has no alternatives of its own; a
  missing one comes with the degrade note and an error of the planning run without that node.\<close>

theorem Plan_failover:
  assumes "goodSizes model" "\<And>xs. set (arrival xs) = set xs"
    "Plan arrival ctx altCtx thr nodes links model c = Some (Inr p)"
  shows "(i \<in> set (PipelineOrder p) \<longleftrightarrow> FailoverAlt p i \<noteq> None) \<and>
    (\<forall>alt. FailoverAlt p i = Some (Some alt) \<longrightarrow>
       validPlan (filter (permitted c) (nodesExcluding (filter (permitted c) nodes) i)) model alt \<and>
       i \<notin> set (PipelineOrder alt) \<and> FailoverAlt alt = Map.empty) \<and>
    (FailoverAlt p i = Some None \<longrightarrow> DegradeNotify i \<in> set (Explanation p) \<and>
       (\<exists>e. planInternal arrival (altCtx i) altCtx thr (nodesExcluding (filter (permitted c) nodes) i) links model c False = Some (Inl e)))"
proof -
  obtain fleet p0 where "restrictFleet nodes c = Inr fleet" and fleet: "fleet = filter (permitted c) nodes"
      and "planPhases ctx thr fleet links model c = Some (Inr p0)" and run: "validPlan fleet model p0" "FailoverAlt p0 = Map.empty"
      "p = failoverResult (\<lambda>dead. planInternal arrival (altCtx dead) altCtx thr (nodesExcluding fleet dead) links model c False) p0"
    by (rule Plan_Inr [OF assms(1,3,2)])
  let ?alt = "\<lambda>dead. planInternal arrival (altCtx dead) altCtx thr (nodesExcluding fleet dead) links model c False"
  have tot: "?alt dead \<noteq> None" for dead
    using planInternal_alt [OF assms(1), of arrival "altCtx dead" altCtx thr "nodesExcluding fleet dead" links c] by auto
  note spec = failoverResult_spec [of p0 ?alt, OF run(2) tot, folded run(3)]
  have order: "set (PipelineOrder p) = aNodeID ` set (Assignments p0)"
    using spec(1) run(1) by (simp add: planCore_def validPlan_def)
  have alt: "validPlan (filter (permitted c) (nodesExcluding fleet i)) model a \<and> i \<notin> set (PipelineOrder a) \<and> FailoverAlt a = Map.empty"
    if "?alt i = Some (Inr a)" for a
  proof -
    have "validPlan (filter (permitted c) (nodesExcluding fleet i)) model a \<and> FailoverAlt a = Map.empty"
      using planInternal_alt [OF assms(1), of arrival "altCtx i" altCtx thr "nodesExcluding fleet i" links c] that by auto
    moreover from this have "set (PipelineOrder a) \<subseteq> nodeID ` set (filter (permitted c) (nodesExcluding fleet i))"
      unfolding validPlan_def by blast
    then have "i \<notin> set (PipelineOrder a)" by (auto simp: nodesExcluding_def)
    ultimately show ?thesis by blast
  qed
  obtain r where r: "?alt i = Some r" using tot [of i] by auto
  show ?thesis
  proof (cases r)
    case (Inl e)
    with r spec(2) [of i] spec(3) [of i e] order fleet show ?thesis by auto
  next
    case (Inr a)
    with r spec(2) [of i] alt [of a] order fleet show ?thesis by auto
  qed
qed

theorem Plan_failover_witness:
  "\<exists>p. Plan id (\<lambda>_. False) (\<lambda>_ _. False) 10 [exNode ''a'' 16, exNode ''b'' 16] [] exModel noConstraints = Some (Inr p) \<and>
     FailoverAlt p ''a'' \<noteq> None"
proof -
  obtain p where p: "Plan id (\<lambda>_. False) (\<lambda>_ _. False) 10 [exNode ''a'' 16, exNode ''b'' 16] [] exModel noConstraints = Some (Inr p)"
      "PipelineOrder p = [''a'', ''b'']"
    using example_plan by blast
  moreover have "goodSizes exModel" by (simp add: goodSizes_def exModel_def exQuant_def)
  ultimately show ?thesis using Plan_failover [of exModel id "\<lambda>_. False" "\<lambda>_ _. False" 10 _ _ _ p "''a''"] by auto
qed

text \<open>C6: the plan does not depend on the order in which the concurrent failover runs deliver their results.\<close>

theorem Plan_schedule_independent:
  assumes "goodSizes model" "\<And>xs. set (arrival xs) = set xs" "\<And>xs. set (arrival' xs) = set xs"
  shows "Plan arrival ctx altCtx thr nodes links model c = Plan arrival' ctx altCtx thr nodes links model c"
proof -
  let ?alt = "\<lambda>arrival fleet dead. planInternal arrival (altCtx dead) altCtx thr (nodesExcluding fleet dead) links model c False"
  have tot: "?alt a fleet dead \<noteq> None" for a fleet dead
    using planInternal_alt [OF assms(1), of a "altCtx dead" altCtx thr "nodesExcluding fleet dead" links c] by auto
  have "computeFailoverPlans arrival (?alt arrival fleet) p = computeFailoverPlans arrival' (?alt arrival' fleet) p" for fleet p
    unfolding computeFailoverPlans_eq [OF tot assms(2)] computeFailoverPlans_eq [OF tot assms(3)] by (simp add: planInternal_False)
  then show ?thesis
    by (simp add: Plan_def planInternal.simps [of arrival ctx] planInternal.simps [of arrival' ctx] cong: sum.case_cong option.case_cong)
qed

theorem Plan_schedule_independent_witness:
  "Plan rev (\<lambda>_. False) (\<lambda>_ _. False) 10 [exNode ''a'' 16, exNode ''b'' 16] [] exModel noConstraints =
   Plan id (\<lambda>_. False) (\<lambda>_ _. False) 10 [exNode ''a'' 16, exNode ''b'' 16] [] exModel noConstraints"
  by (rule Plan_schedule_independent) (simp_all add: goodSizes_def exModel_def exQuant_def)


text \<open>among the candidate subsets of several nodes, the planner keeps a plan of the smallest cost.\<close>

theorem choosePlan_cheapest:
  assumes "choosePlan ctx thr nodeByID model quant kv links c subsets = Some (Inr p)" "length (hd subsets) \<noteq> 1"
    "sub \<in> set subsets" "2 \<le> length sub" "multiNodePlan thr sub nodeByID model quant links c = Some (Some p')"
  shows "Cost p \<le> Cost p'"
proof -
  let ?run = "pickBest ctx thr nodeByID model quant links c 1 subsets None"
  obtain r where "?run = Some r" using assms(1,2) by (cases ?run) (auto simp: choosePlan_def)
  moreover have "r = Inr (Some p)" using assms(1,2) calculation
    by (cases r) (auto simp: choosePlan_def split: option.splits)
  ultimately show ?thesis using pickBest_min [of ctx thr nodeByID model quant links c 1 subsets None "Some p"] assms(3-5) by auto
qed

lemma example_candidates:
  "let ns = [exNode ''a'' 16, exNode ''b'' 16, exNode ''c'' 16]; by = map_by nodeID id ns; q = exQuant ''q8'' 20
   in map_option (\<lambda>r. case r of Inl _ \<Rightarrow> [] | Inr p \<Rightarrow> PipelineOrder p)
        (choosePlan (\<lambda>_. False) 10 by exModel q 0 [] noConstraints [take 2 ns, ns]) = Some [''a'', ''b''] \<and>
      map_option (map_option PipelineOrder) (multiNodePlan 10 ns by exModel q [] noConstraints) = Some (Some [''a'', ''c''])"
  by code_simp

theorem choosePlan_cheapest_witness:
  "let ns = [exNode ''a'' 16, exNode ''b'' 16, exNode ''c'' 16]; by = map_by nodeID id ns; q = exQuant ''q8'' 20
   in \<exists>p p'. choosePlan (\<lambda>_. False) 10 by exModel q 0 [] noConstraints [take 2 ns, ns] = Some (Inr p) \<and>
        multiNodePlan 10 ns by exModel q [] noConstraints = Some (Some p') \<and> Cost p \<le> Cost p'"
proof -
  let ?ns = "[exNode ''a'' 16, exNode ''b'' 16, exNode ''c'' 16]"
  let ?by = "map_by nodeID id ?ns" and ?q = "exQuant ''q8'' 20"
  obtain p where p: "choosePlan (\<lambda>_. False) 10 ?by exModel ?q 0 [] noConstraints [take 2 ?ns, ?ns] = Some (Inr p)"
    using example_candidates run_Inr [of PipelineOrder "choosePlan (\<lambda>_. False) 10 ?by exModel ?q 0 [] noConstraints [take 2 ?ns, ?ns]" "[''a'', ''b'']"]
    unfolding Let_def by blast
  obtain p' where p': "multiNodePlan 10 ?ns ?by exModel ?q [] noConstraints = Some (Some p')"
    using example_candidates by (auto simp: Let_def)
  have "Cost p \<le> Cost p'" by (rule choosePlan_cheapest [OF p _ _ _ p']) simp_all
  with p p' show ?thesis unfolding Let_def by blast
qed

text \<open>C8: on distinct node identifiers the final memory check accepts a plan exactly when every node it names is in
  the fleet and holds all the layers it serves within its limit.\<close>

theorem validatePlanMemory_iff:
  assumes "distinct (map nodeID fleet)"
  shows "validatePlanMemory p (map_by nodeID id fleet) model quant c = None \<longleftrightarrow> memoryOK fleet model quant (Assignments p)"
  using validatePlanMemory_sound validatePlanMemory_complete [OF assms] by blast

theorem validatePlanMemory_iff_witness:
  "validatePlanMemory (singleNodePlan (exNode ''a'' 12) exModel (exQuant ''q4'' 8) 0 noConstraints)
     (map_by nodeID id [exNode ''a'' 12]) exModel (exQuant ''q4'' 8) noConstraints = None \<longleftrightarrow>
   memoryOK [exNode ''a'' 12] exModel (exQuant ''q4'' 8)
     (Assignments (singleNodePlan (exNode ''a'' 12) exModel (exQuant ''q4'' 8) 0 noConstraints))"
  by (rule validatePlanMemory_iff) simp

text \<open>Phase B sizes the KV cache with the prefix-caching factor, the memory check does not. So a model that phase
  B puts on one node can be rejected, although a plan over two nodes exists.\<close>

lemma prefix_caching_rejects_feasible_model:
  "let fleet = [(exNode ''a'' 24)\<lparr>PrefixCachingFactor := 1 / 2\<rparr>, (exNode ''b'' 24)\<lparr>PrefixCachingFactor := 1 / 2\<rparr>];
       model = exModel\<lparr>ContextMax := 1000000, Quantizations := [exQuant ''q4'' 8]\<rparr>;
       run = (\<lambda>c. Plan id (\<lambda>_. False) (\<lambda>_ _. False) 10 fleet [] model c)
   in map_option (\<lambda>r. case r of Inl (PlanErr e) \<Rightarrow> Reason e = MemoryViolated CulpritPlan 4 4 ''a'' 26 24 False | _ \<Rightarrow> False)
        (run noConstraints) = Some True \<and>
      map_option (\<lambda>r. case r of Inl _ \<Rightarrow> [] | Inr p \<Rightarrow> PipelineOrder p) (run (noConstraints\<lparr>ForceNodeCount := Some 2\<rparr>)) =
        Some [''a'', ''b'']"
  by code_simp

text \<open>When the context is cancelled while the alternatives are planned, the plan is returned with the note that the
  fleet cannot absorb the loss of the node, although it can.\<close>

lemma cancelled_failover_reads_as_infeasible:
  "let run = (\<lambda>altCtx. Plan id (\<lambda>_. False) altCtx 10 [exNode ''a'' 40, exNode ''b'' 40] [] exModel noConstraints);
       notes = map_option (\<lambda>r. case r of Inl _ \<Rightarrow> False | Inr p \<Rightarrow> DegradeNotify ''a'' \<in> set (Explanation p))
   in notes (run (\<lambda>_ _. True)) = Some True \<and> notes (run (\<lambda>_ _. False)) = Some False"
  by code_simp

text \<open>Phase E is not idempotent on the explanation: a second call adds its line again.\<close>

lemma placeDraft_twice:
  "let p = singleNodePlan (exNode ''a'' 12) exModel (exQuant ''q4'' 8) 0 noConstraints
   in length (Explanation (placeDraft (placeDraft p exModel) exModel)) = Suc (length (Explanation (placeDraft p exModel)))"
  by code_simp

end
