(* ===== verification/GoLib.thy ===== *)
theory GoLib
  imports Prelude "HOL-Library.Sublist"
begin

text \<open>
  The part of Go's standard library the control-plane components use: the \<^verbatim>\<open>strings\<close> functions on
  byte strings, and results that are a value or an error. \<open>ToLower\<close> is given on ASCII bytes, which is
  what its callers here pass. Printing of integers and the wrap-around of \<^verbatim>\<open>int\<close> are here as well.
\<close>

section \<open>Strings\<close>

definition HasPrefix :: "string \<Rightarrow> string \<Rightarrow> bool" where
  "HasPrefix s p = prefix p s"

definition HasSuffix :: "string \<Rightarrow> string \<Rightarrow> bool" where
  "HasSuffix s p = suffix p s"

definition TrimPrefix :: "string \<Rightarrow> string \<Rightarrow> string" where
  "TrimPrefix s p = (if HasPrefix s p then drop (length p) s else s)"

definition TrimSuffix :: "string \<Rightarrow> string \<Rightarrow> string" where
  "TrimSuffix s p = (if HasSuffix s p then take (length s - length p) s else s)"

definition lowerByte :: "char \<Rightarrow> char" where
  "lowerByte c = (let n = of_char c :: nat in if 65 \<le> n \<and> n \<le> 90 then char_of (n + 32) else c)"

definition ToLower :: "string \<Rightarrow> string" where
  "ToLower s = map lowerByte s"

text \<open>\<^verbatim>\<open>strings.Contains\<close> and \<^verbatim>\<open>strings.Join\<close>.\<close>

definition Contains :: "string \<Rightarrow> string \<Rightarrow> bool" where
  "Contains s t = sublist t s"

fun Join :: "string list \<Rightarrow> string \<Rightarrow> string" where
  "Join [] sep = []"
| "Join [x] sep = x"
| "Join (x # y # xs) sep = x @ sep @ Join (y # xs) sep"

section \<open>Integers\<close>

text \<open>Go's 64-bit \<^verbatim>\<open>int\<close> wraps around.\<close>

definition wrap64 :: "int \<Rightarrow> int" where
  "wrap64 x = (x + 2 ^ 63) mod 2 ^ 64 - 2 ^ 63"

text \<open>\<^verbatim>\<open>%d\<close>.\<close>

fun natDigits :: "nat \<Rightarrow> string" where
  "natDigits n = (if n < 10 then [char_of (48 + n)] else natDigits (n div 10) @ [char_of (48 + n mod 10)])"

declare natDigits.simps [simp del]

definition itoa :: "int \<Rightarrow> string" where
  "itoa i = (if i < 0 then CHR ''-'' # natDigits (nat (- i)) else natDigits (nat i))"

text \<open>\<^verbatim>\<open>strconv.ParseInt\<close> in base 10: an optional sign, digits, and a value that fits the number of bits.\<close>

definition digitOf :: "char \<Rightarrow> nat option" where
  "digitOf c = (let n = of_char c :: nat in if 48 \<le> n \<and> n \<le> 57 then Some (n - 48) else None)"

fun parseDigits :: "nat \<Rightarrow> string \<Rightarrow> nat option" where
  "parseDigits a [] = Some a"
| "parseDigits a (c # cs) = (case digitOf c of None \<Rightarrow> None | Some d \<Rightarrow> parseDigits (10 * a + d) cs)"

definition ParseInt :: "nat \<Rightarrow> string \<Rightarrow> int option" where
  "ParseInt bits s =
     (let neg = HasPrefix s ''-''; ds = (if neg \<or> HasPrefix s ''+'' then tl s else s)
      in if ds = [] then None
         else case parseDigits 0 ds of
           None \<Rightarrow> None
         | Some n \<Rightarrow> (let i = (if neg then - int n else int n)
                     in if - (2 ^ (bits - 1)) \<le> i \<and> i < 2 ^ (bits - 1) then Some i else None))"

section \<open>Sets kept as a map to bool or struct{}\<close>

text \<open>\<^verbatim>\<open>append\<close> of the elements of a list that are not there yet, in order of first occurrence.\<close>

fun appendNew :: "'a list \<Rightarrow> 'a list \<Rightarrow> 'a list" where
  "appendNew acc [] = acc"
| "appendNew acc (x # xs) = (if x \<in> set acc then appendNew acc xs else appendNew (acc @ [x]) xs)"

lemma wrap64_id: "- (2 ^ 63) \<le> x \<Longrightarrow> x < 2 ^ 63 \<Longrightarrow> wrap64 x = x"
  by (simp add: wrap64_def)

lemma natDigits_last: "natDigits n \<noteq> [] \<and> last (natDigits n) = char_of (48 + n mod 10)"
  by (subst (1 2) natDigits.simps) simp

lemma set_appendNew [simp]: "set (appendNew acc xs) = set acc \<union> set xs"
  by (induction acc xs rule: appendNew.induct) auto

lemma distinct_appendNew [simp]: "distinct (appendNew acc xs) = distinct acc"
  by (induction acc xs rule: appendNew.induct) auto

lemma TrimSuffix_append [simp]: "TrimSuffix (s @ p) p = s"
  by (auto simp: TrimSuffix_def HasSuffix_def suffix_def)

lemma TrimPrefix_append [simp]: "TrimPrefix (p @ s) p = s"
  by (simp add: TrimPrefix_def HasPrefix_def)

lemma HasPrefix_iff: "HasPrefix s p \<longleftrightarrow> (\<exists>t. s = p @ t)"
  by (auto simp: HasPrefix_def prefix_def)

lemma HasSuffix_iff: "HasSuffix s p \<longleftrightarrow> (\<exists>t. s = t @ p)"
  by (auto simp: HasSuffix_def suffix_def)

section \<open>Printing and parsing numbers\<close>

lemma parseDigits_append:
  "parseDigits a (xs @ ys) = (case parseDigits a xs of None \<Rightarrow> None | Some b \<Rightarrow> parseDigits b ys)"
  by (induction xs arbitrary: a) (auto split: option.split)

lemma digitOf_char_of: "n < 10 \<Longrightarrow> digitOf (char_of (48 + n)) = Some n"
  by (simp add: digitOf_def)

lemma parseDigits_natDigits: "parseDigits 0 (natDigits n) = Some n"
proof (induction n rule: natDigits.induct)
  case (1 n)
  show ?case
  proof (cases "n < 10")
    case True
    then show ?thesis using digitOf_char_of [of n] by (simp add: natDigits.simps)
  next
    case False
    then show ?thesis using 1 digitOf_char_of [of "n mod 10"]
      by (subst natDigits.simps) (simp add: parseDigits_append)
  qed
qed

lemma hd_natDigits: "digitOf (hd (natDigits n)) \<noteq> None"
proof -
  obtain c cs where c: "natDigits n = c # cs" using natDigits_last [of n] by (cases "natDigits n") auto
  then show ?thesis using parseDigits_natDigits [of n] by (auto split: option.splits)
qed

lemma itoa_not_empty [simp]: "itoa i \<noteq> []"
  using natDigits_last by (simp add: itoa_def)

text \<open>A number that fits is read back from its text.\<close>

lemma ParseInt_itoa:
  assumes "- (2 ^ (bits - 1)) \<le> i" "i < 2 ^ (bits - 1)"
  shows "ParseInt bits (itoa i) = Some i"
proof -
  have ne: "natDigits m \<noteq> []" for m using natDigits_last by blast
  have sign: "\<not> HasPrefix (natDigits m) ''-''" "\<not> HasPrefix (natDigits m) ''+''" for m
    using hd_natDigits [of m] by (auto simp: HasPrefix_iff digitOf_def)
  have "HasPrefix (CHR ''-'' # x) ''-''" for x by (simp add: HasPrefix_iff)
  then show ?thesis using assms sign ne
    by (auto simp: ParseInt_def itoa_def Let_def parseDigits_natDigits)
qed

end
