(* ===== verification/Replica.thy ===== *)
theory Replica
  imports Planner GoLib
begin

text \<open>
  Replica sets, from \<^verbatim>\<open>src/go/planner/plan/replica.go\<close>: the fleet is cut into disjoint groups and each
  group is planned on its own.

  Every call of \<^verbatim>\<open>Plan\<close> sees its own polls of the context: \<open>env 0\<close> belongs to the trial on the top half
  (or the only call, for one replica), \<open>env 1\<close> to the retry on the whole fleet and \<open>env (2 + i)\<close> to the
  goroutine of group \<open>i\<close>. The results are stored by group index, so the order in which the goroutines
  finish does not appear.
\<close>

section \<open>Model\<close>

datatype RoutingPolicy = RoutingRoundRobin | RoutingLeastLoaded

record ReplicaSet =
  rsModelID :: string
  Replicas :: "DeploymentPlan list"
  Routing :: RoutingPolicy

definition rankByMemory :: "Node list \<Rightarrow> Node list" where
  "rankByMemory nodes = sort_key (\<lambda>n. - usefulMemoryForFit n) nodes"

text \<open>The slice \<^verbatim>\<open>ranked[start:end]\<close> of group \<open>i\<close>; the last group takes the remainder.\<close>

definition replicaGroup :: "Node list \<Rightarrow> nat \<Rightarrow> nat \<Rightarrow> Node list" where
  "replicaGroup ranked replicaCount i =
     (let groupSize = length ranked div replicaCount;
          start = i * groupSize;
          stop = (if i = replicaCount - 1 then length ranked else start + groupSize)
      in take (stop - start) (drop start ranked))"

fun planGroups :: "(nat \<Rightarrow> (plan_err + DeploymentPlan) go) \<Rightarrow> nat list \<Rightarrow> (plan_err + DeploymentPlan) list go" where
  "planGroups run [] = Some []"
| "planGroups run (i # is) = Option.bind (run i) (\<lambda>r. map_option (\<lambda>rs. r # rs) (planGroups run is))"

fun firstError :: "nat \<Rightarrow> (plan_err + DeploymentPlan) list \<Rightarrow> plan_err + DeploymentPlan list" where
  "firstError i [] = Inr []"
| "firstError i (Inl e # rs) = Inl (ReplicaFailed i e)"
| "firstError i (Inr p # rs) = (case firstError (Suc i) rs of Inl e \<Rightarrow> Inl e | Inr ps \<Rightarrow> Inr (p # ps))"

text \<open>The part after the trial, which needs \<open>kMin\<close> nodes per replica.\<close>

definition planPartitions ::
  "(nat \<Rightarrow> Node list \<Rightarrow> (plan_err + DeploymentPlan) go) \<Rightarrow> Node list \<Rightarrow> ModelSpec \<Rightarrow> int \<Rightarrow> nat \<Rightarrow> (plan_err + ReplicaSet) go" where
  "planPartitions run ranked model replicaCount kMin =
     (if int (length ranked) < wrap64 (int kMin * replicaCount)
      then Some (Inl (PlanErr \<lparr>Reason = FleetTooSmall (length ranked) replicaCount kMin, DeficitGB = 0,
             Suggestions = [''add at least '' @ itoa (wrap64 (wrap64 (int kMin * replicaCount) - int (length ranked))) @ '' more nodes'',
                            ''reduce replicaCount'', ''use a smaller quantization to lower k_min'']\<rparr>))
      else let n = nat replicaCount
      in map_option (\<lambda>rs. map_sum id (\<lambda>ps. \<lparr>rsModelID = modelID model, Replicas = ps, Routing = RoutingRoundRobin\<rparr>) (firstError 0 rs))
           (planGroups (\<lambda>i. run (2 + i) (replicaGroup ranked n i)) [0..<n]))"

definition PlanReplicaSet ::
  "(string list \<Rightarrow> string list) \<Rightarrow> (nat \<Rightarrow> (nat \<Rightarrow> bool) \<times> (string \<Rightarrow> nat \<Rightarrow> bool)) \<Rightarrow> int \<Rightarrow>
   Node list \<Rightarrow> Link list \<Rightarrow> ModelSpec \<Rightarrow> Constraints \<Rightarrow> int \<Rightarrow> (plan_err + ReplicaSet) go" where
  "PlanReplicaSet arrival env thr nodes links model c replicaCount =
     (let run = (\<lambda>k ns. Plan arrival (fst (env k)) (snd (env k)) thr ns links model c)
      in if replicaCount \<le> 0 then Some (Inl (BadReplicaCount replicaCount))
         else if replicaCount = 1
         then map_option (map_sum id (\<lambda>dp. \<lparr>rsModelID = modelID model, Replicas = [dp], Routing = RoutingRoundRobin\<rparr>)) (run 0 nodes)
         else if nodes = []
         then Some (Inl (PlanErr \<lparr>Reason = NoNodesAvailable, DeficitGB = 0, Suggestions = [''register at least one node'']\<rparr>))
         else let ranked = rankByMemory nodes; trialSize = length ranked div 2 + 1
              in Option.bind (run 0 (take trialSize ranked)) (\<lambda>trial.
                   case trial of
                     Inr dp \<Rightarrow> planPartitions run ranked model replicaCount (length (Assignments dp))
                   | Inl _ \<Rightarrow>
                       Option.bind (run 1 ranked) (\<lambda>retry.
                         case retry of
                           Inl e \<Rightarrow> Some (Inl (ModelDoesNotFitFleet e))
                         | Inr dp \<Rightarrow> planPartitions run ranked model replicaCount (length (Assignments dp)))))"

section \<open>Groups\<close>

lemma rankByMemory_simps [simp]:
  "set (rankByMemory nodes) = set nodes" "length (rankByMemory nodes) = length nodes" "mset (rankByMemory nodes) = mset nodes"
  by (simp_all add: rankByMemory_def)

lemma replicaGroup_subset: "set (replicaGroup ranked r i) \<subseteq> set ranked"
  by (auto simp: replicaGroup_def Let_def dest!: in_set_takeD in_set_dropD)

text \<open>Every element of a group sits in the group's own interval of positions.\<close>

lemma replicaGroup_nth:
  assumes "x \<in> set (replicaGroup ranked r i)"
  shows "\<exists>k < length ranked. x = ranked ! k \<and> i * (length ranked div r) \<le> k \<and>
    (i \<noteq> r - 1 \<longrightarrow> k < Suc i * (length ranked div r))"
proof -
  let ?g = "length ranked div r"
  let ?start = "i * ?g" and ?stop = "if i = r - 1 then length ranked else i * ?g + ?g"
  have "x \<in> set (take (?stop - ?start) (drop ?start ranked))"
    using assms(1) by (simp add: replicaGroup_def Let_def)
  then obtain j where j: "j < length (take (?stop - ?start) (drop ?start ranked))" "x = take (?stop - ?start) (drop ?start ranked) ! j"
    by (metis in_set_conv_nth)
  then have "?start + j < length ranked" "x = ranked ! (?start + j)" "j < ?stop - ?start" by auto
  then show ?thesis by (intro exI [of _ "?start + j"]) auto
qed

lemma replicaGroups_disjoint:
  assumes "distinct (map nodeID ranked)" "i < j" "j < r"
  shows "nodeID ` set (replicaGroup ranked r i) \<inter> nodeID ` set (replicaGroup ranked r j) = {}"
proof -
  let ?g = "length ranked div r"
  have False if "x \<in> set (replicaGroup ranked r i)" "y \<in> set (replicaGroup ranked r j)" "nodeID x = nodeID y" for x y
  proof -
    have "i \<noteq> r - 1" using assms(2,3) by linarith
    with replicaGroup_nth [OF that(1)] obtain k where k: "k < length ranked" "x = ranked ! k" "k < Suc i * ?g" by blast
    from replicaGroup_nth [OF that(2)] obtain l where l: "l < length ranked" "y = ranked ! l" "j * ?g \<le> l" by blast
    have "Suc i * ?g \<le> j * ?g" using assms(2) by (intro mult_le_mono1) simp
    then have "k < l" using k(3) l(3) by linarith
    moreover have "map nodeID ranked ! k = map nodeID ranked ! l" using that(3) k(1,2) l(1,2) by simp
    ultimately show False using nth_eq_iff_index_eq [OF assms(1), of k l] k(1) l(1) by simp
  qed
  then show ?thesis by blast
qed

section \<open>Planning the groups\<close>

lemma planGroups_total:
  assumes "\<And>i. run i \<noteq> None"
  shows "planGroups run is = Some (map (\<lambda>i. the (run i)) is)"
proof (induction "is")
  case (Cons i "is")
  obtain r where "run i = Some r" using assms [of i] by auto
  with Cons show ?case by simp
qed simp

lemma firstError_Inr:
  "firstError k rs = Inr ps \<Longrightarrow> rs = map Inr ps"
  by (induction k rs arbitrary: ps rule: firstError.induct) (auto split: sum.splits)

lemma validPlan_mono: "validPlan fleet model p \<Longrightarrow> set fleet \<subseteq> set fleet' \<Longrightarrow> validPlan fleet' model p"
proof -
  assume valid: "validPlan fleet model p" and sub: "set fleet \<subseteq> set fleet'"
  have "memoryOK fleet' model q as" if "memoryOK fleet model q as" for q as
    unfolding memoryOK_def
  proof
    fix i assume "i \<in> aNodeID ` set as"
    with that obtain n where "n \<in> set fleet" "nodeID n = i" "nodeNeed model q (layersOf as i) \<le> nodeLimit (card (aNodeID ` set as) > 1) n"
      unfolding memoryOK_def by blast
    with sub show "\<exists>n \<in> set fleet'. nodeID n = i \<and> nodeNeed model q (layersOf as i) \<le> nodeLimit (card (aNodeID ` set as) > 1) n"
      by (intro bexI [of _ n]) auto
  qed
  moreover have "nodeID ` set fleet \<subseteq> nodeID ` set fleet'" using sub by (rule image_mono)
  ultimately show ?thesis using valid unfolding validPlan_def by (metis subset_trans)
qed

lemma planPartitions_total:
  assumes "\<And>k ns. run k ns \<noteq> None"
  shows "planPartitions run ranked model replicaCount kMin \<noteq> None"
  using planGroups_total [of "\<lambda>i. run (2 + i) (replicaGroup ranked (nat replicaCount) i)", OF assms]
  by (simp add: planPartitions_def Let_def)

lemma planPartitions_Inr:
  assumes "\<And>k ns. run k ns \<noteq> None" "planPartitions run ranked model replicaCount kMin = Some (Inr rs)"
  shows "length (Replicas rs) = nat replicaCount"
    "i < nat replicaCount \<Longrightarrow> run (2 + i) (replicaGroup ranked (nat replicaCount) i) = Some (Inr (Replicas rs ! i))"
proof -
  let ?run = "\<lambda>i. run (2 + i) (replicaGroup ranked (nat replicaCount) i)" and ?n = "nat replicaCount"
  have "planGroups ?run [0..<?n] = Some (map (\<lambda>i. the (?run i)) [0..<?n])" by (rule planGroups_total) (rule assms(1))
  with assms(2) obtain ps where ps: "firstError 0 (map (\<lambda>i. the (?run i)) [0..<?n]) = Inr ps" "Replicas rs = ps"
    by (auto simp: planPartitions_def Let_def map_sum_def split: if_splits sum.splits)
  have eq: "map (\<lambda>i. the (?run i)) [0..<?n] = map Inr ps" by (rule firstError_Inr [OF ps(1)])
  show len: "length (Replicas rs) = ?n" using map_eq_imp_length_eq [OF eq] ps(2) by simp
  show "?run i = Some (Inr (Replicas rs ! i))" if "i < ?n"
  proof -
    have "the (?run i) = Inr (ps ! i)" using arg_cong [OF eq, of "\<lambda>xs. xs ! i"] that len ps(2) by simp
    then show ?thesis using assms(1) ps(2) by (metis option.collapse)
  qed
qed

lemma PlanReplicaSet_cases:
  assumes "PlanReplicaSet arrival env thr nodes links model c replicaCount = Some (Inr rs)"
  obtains dp where "replicaCount = 1" "Plan arrival (fst (env 0)) (snd (env 0)) thr nodes links model c = Some (Inr dp)"
      "Replicas rs = [dp]"
    | dp k ns where "2 \<le> replicaCount" "set ns \<subseteq> set nodes"
      "Plan arrival (fst (env k)) (snd (env k)) thr ns links model c = Some (Inr dp)"
      "planPartitions (\<lambda>k ns. Plan arrival (fst (env k)) (snd (env k)) thr ns links model c) (rankByMemory nodes) model
         replicaCount (length (Assignments dp)) = Some (Inr rs)"
proof -
  let ?run = "\<lambda>k ns. Plan arrival (fst (env k)) (snd (env k)) thr ns links model c"
  let ?r = "rankByMemory nodes"
  let ?top = "take (length ?r div 2 + 1) ?r"
  have pos: "\<not> replicaCount \<le> 0" using assms by (auto simp: PlanReplicaSet_def)
  show thesis
  proof (cases "replicaCount = 1")
    case True
    with assms obtain r where "?run 0 nodes = Some r" "map_sum id (\<lambda>dp. \<lparr>rsModelID = modelID model, Replicas = [dp], Routing = RoutingRoundRobin\<rparr>) r = Inr rs"
      by (auto simp: PlanReplicaSet_def Let_def)
    then show thesis using True that(1) by (cases r) auto
  next
    case False
    then have two: "2 \<le> replicaCount" using pos by linarith
    have ne: "nodes \<noteq> []" using assms pos False by (auto simp: PlanReplicaSet_def)
    obtain trial where trial: "?run 0 ?top = Some trial" using assms pos False ne
      by (cases "?run 0 ?top") (auto simp: PlanReplicaSet_def Let_def)
    show thesis
    proof (cases trial)
      case (Inr dp)
      with assms trial pos False ne have "planPartitions ?run ?r model replicaCount (length (Assignments dp)) = Some (Inr rs)"
        by (simp add: PlanReplicaSet_def Let_def)
      moreover have "set ?top \<subseteq> set nodes" using set_take_subset [of _ ?r] by simp
      ultimately show thesis using that(2) [OF two _ trial [unfolded Inr]] by blast
    next
      case (Inl e)
      obtain retry where retry: "?run 1 ?r = Some retry" using assms trial Inl pos False ne
        by (cases "?run 1 ?r") (auto simp: PlanReplicaSet_def Let_def)
      show thesis
      proof (cases retry)
        case Inl2: (Inl e2)
        then show thesis using assms trial Inl retry pos False ne by (simp add: PlanReplicaSet_def Let_def)
      next
        case (Inr dp)
        with assms trial Inl retry pos False ne have "planPartitions ?run ?r model replicaCount (length (Assignments dp)) = Some (Inr rs)"
          by (simp add: PlanReplicaSet_def Let_def)
        then show thesis using that(2) [OF two _ retry [unfolded Inr]] by simp
      qed
    qed
  qed
qed

lemma PlanReplicaSet_total:
  assumes "goodSizes model"
  shows "PlanReplicaSet arrival env thr nodes links model c replicaCount \<noteq> None"
proof -
  have tot: "\<exists>r. Plan arrival (fst (env k)) (snd (env k)) thr ns links model c = Some r" for k ns
    using Plan_total [OF assms] by simp
  have parts: "planPartitions (\<lambda>k ns. Plan arrival (fst (env k)) (snd (env k)) thr ns links model c) r model replicaCount m \<noteq> None" for r m
    by (rule planPartitions_total) (rule Plan_total [OF assms])
  obtain t where "Plan arrival (fst (env 0)) (snd (env 0)) thr
      (take (length (rankByMemory nodes) div 2 + 1) (rankByMemory nodes)) links model c = Some t" using tot by blast
  moreover obtain u where "Plan arrival (fst (env 1)) (snd (env 1)) thr (rankByMemory nodes) links model c = Some u" using tot by blast
  moreover obtain v where "Plan arrival (fst (env 0)) (snd (env 0)) thr nodes links model c = Some v" using tot by blast
  ultimately show ?thesis using parts by (simp add: PlanReplicaSet_def Let_def split: sum.split)
qed

lemma covers_length: "covers s e as \<Longrightarrow> int (length as) \<le> e - s"
proof (induction as arbitrary: s)
  case (Cons a as)
  then have "int (length as) \<le> e - (LayerEnd a + 1)" by simp
  with Cons.prems show ?case by simp
qed simp

section \<open>Properties\<close>

text \<open>C11: a replica set has the requested number of replicas, each a valid plan on permitted nodes, and on distinct
  node identifiers no node serves two replicas.\<close>

theorem PlanReplicaSet_disjoint:
  assumes "goodSizes model" "\<And>xs. set (arrival xs) = set xs" "distinct (map nodeID nodes)"
    "PlanReplicaSet arrival env thr nodes links model c replicaCount = Some (Inr rs)"
  shows "length (Replicas rs) = nat replicaCount \<and>
    (\<forall>p \<in> set (Replicas rs). validPlan (filter (permitted c) nodes) model p) \<and>
    (\<forall>i j. i < j \<longrightarrow> j < length (Replicas rs) \<longrightarrow>
       set (PipelineOrder (Replicas rs ! i)) \<inter> set (PipelineOrder (Replicas rs ! j)) = {})"
  using assms(4)
proof (cases rule: PlanReplicaSet_cases)
  case (1 dp)
  then show ?thesis using Plan_run_valid [OF assms(1,2) 1(2)] by simp
next
  case (2 dp k ns)
  let ?run = "\<lambda>k ns. Plan arrival (fst (env k)) (snd (env k)) thr ns links model c" and ?r = "rankByMemory nodes"
  have tot: "?run k ns \<noteq> None" for k ns by (rule Plan_total [OF assms(1)])
  note rs = planPartitions_Inr [OF tot 2(4)]
  let ?g = "replicaGroup ?r (nat replicaCount)"
  have valid: "validPlan (filter (permitted c) (?g i)) model (Replicas rs ! i)" if "i < nat replicaCount" for i
    using Plan_run_valid [OF assms(1,2) rs(2) [OF that]] .
  have ids: "set (PipelineOrder (Replicas rs ! i)) \<subseteq> nodeID ` set (?g i)" if "i < nat replicaCount" for i
    using valid [OF that] unfolding validPlan_def by (auto dest!: subsetD)
  have "distinct (map nodeID ?r)" using assms(3) by (metis mset_eq_imp_distinct_iff mset_map rankByMemory_simps(3))
  then have "set (PipelineOrder (Replicas rs ! i)) \<inter> set (PipelineOrder (Replicas rs ! j)) = {}"
    if "i < j" "j < nat replicaCount" for i j
    using replicaGroups_disjoint [of ?r i j "nat replicaCount"] ids [of i] ids [of j] that by fastforce
  moreover have "validPlan (filter (permitted c) nodes) model (Replicas rs ! i)" if "i < nat replicaCount" for i
    using valid [OF that] replicaGroup_subset [of ?r "nat replicaCount" i] by (elim validPlan_mono) auto
  ultimately show ?thesis using rs(1) by (auto simp: in_set_conv_nth)
qed

lemma example_replicas:
  "\<exists>rs. PlanReplicaSet id (\<lambda>_. (\<lambda>_. False, \<lambda>_ _. False)) 10 [exNode ''a'' 24, exNode ''b'' 24] [] exModel noConstraints 2 = Some (Inr rs) \<and>
     map PipelineOrder (Replicas rs) = [[''a''], [''b'']]"
proof -
  have "map_option (\<lambda>r. case r of Inl _ \<Rightarrow> [] | Inr rs \<Rightarrow> map PipelineOrder (Replicas rs))
      (PlanReplicaSet id (\<lambda>_. (\<lambda>_. False, \<lambda>_ _. False)) 10 [exNode ''a'' 24, exNode ''b'' 24] [] exModel noConstraints 2) =
      Some [[''a''], [''b'']]"
    by code_simp
  from run_Inr [OF this] show ?thesis by simp
qed

theorem PlanReplicaSet_disjoint_witness:
  "\<exists>rs. PlanReplicaSet id (\<lambda>_. (\<lambda>_. False, \<lambda>_ _. False)) 10 [exNode ''a'' 24, exNode ''b'' 24] [] exModel noConstraints 2 = Some (Inr rs) \<and>
     length (Replicas rs) = 2"
proof -
  obtain rs where rs: "PlanReplicaSet id (\<lambda>_. (\<lambda>_. False, \<lambda>_ _. False)) 10 [exNode ''a'' 24, exNode ''b'' 24] [] exModel noConstraints 2 = Some (Inr rs)"
    using example_replicas by blast
  have "length (Replicas rs) = nat 2"
    using PlanReplicaSet_disjoint [OF _ _ _ rs] by (simp add: goodSizes_def exModel_def exQuant_def exNode_def zeroNode_def)
  with rs show ?thesis by simp
qed



text \<open>With a huge count the product wraps to zero and the guard passes: a fleet of two nodes is accepted for \<open>2 ^ 62\<close>
  replicas of four nodes each.\<close>

lemma replica_guard_overflow: "\<not> (2::int) < wrap64 (4 * 2 ^ 62)"
  by code_simp

end
