(* ===== verification/Convert.thy ===== *)
theory Convert
  imports Planner GoLib "HOL-Library.Word"
begin

text \<open>
  The bridge between the planner's domain types and the protobuf messages,
  \<^verbatim>\<open>src/go/planner/plan/convert.go\<close>.

  A message is a record of the fields the conversions read or write
  (\<^verbatim>\<open>src/proto/purser/v1/common.proto\<close>); a pointer to a message is an \<open>option\<close>, so that \<open>None\<close> is
  the nil pointer, for which every getter gives the zero value. \<^verbatim>\<open>uint32\<close> and \<^verbatim>\<open>uint64\<close> fields are
  words of that width. A protobuf enum is open: it is the \<open>int\<close> on the wire, named constants and
  all other values alike. Explanation lines are carried over unchanged.
\<close>

section \<open>The messages\<close>

record PbQuantization =
  pqName :: string
  pqSizeGb :: float64
  pqRequiresFp4 :: bool
  pqQuality :: float64
  pqEmulatedFp4 :: bool

record PbDraftInfo =
  pdAvailable :: bool
  pdType :: string
  pdTailLayers :: "32 word"

record PbModelSpec =
  pmModelId :: string
  pmFamily :: string
  pmArchitecture :: string
  pmParamsTotalB :: float64
  pmParamsActiveB :: float64
  pmLayers :: "32 word"
  pmHiddenSize :: "32 word"
  pmNKvHeads :: "32 word"
  pmHeadDim :: "32 word"
  pmAttentionType :: int
  pmContextMax :: "64 word"
  pmIsMoe :: bool
  pmDraft :: "PbDraftInfo option"
  pmQuantizations :: "PbQuantization option list"
  pmEngine :: string

record PbAssignment =
  paNodeId :: string
  paRole :: int
  paLayerStart :: "32 word"
  paLayerEnd :: "32 word"
  paDraft :: bool

record PbPerfEstimate =
  peDecodeTokSMin :: float64
  peDecodeTokSMax :: float64
  pePrefillTokSMin :: float64
  pePrefillTokSMax :: float64
  peHeadroomGb :: float64

record PbDeploymentPlan =
  ppPlanId :: string
  ppModelId :: string
  ppQuantization :: string
  ppAssignments :: "PbAssignment option list"
  ppPipelineOrder :: "string list"
  ppEstimated :: "PbPerfEstimate option"
  ppCost :: float64
  ppExplanation :: "expl_line list"

record PbGpuInfo =
  pgVramGb :: float64
  pgUnified :: bool
  pgFp4Native :: bool
  pgCount :: "32 word"

record PbHardwareProfile =
  phNodeId :: string
  phBackends :: "int list"
  phGpus :: "PbGpuInfo option list"
  phRamTotalGb :: float64
  phRamAvailableGb :: float64
  phMemBandwidthGbs :: float64
  phDiskFreeGb :: float64
  phEngineVersions :: "string \<rightharpoonup> string"
  phPrefixCachingFactor :: float64
  phKvSsdOffload :: bool

record PbLinkMetric =
  plFromNode :: string
  plToNode :: string
  plBandwidthGbs :: float64
  plRttMs :: float64

section \<open>Numbers and enumerations\<close>

definition u32 :: "int \<Rightarrow> 32 word" where
  "u32 i = (if i < 0 then 0 else word_of_int i)"

definition u64 :: "int \<Rightarrow> 64 word" where
  "u64 i = (if i < 0 then 0 else word_of_int i)"

text \<open>Go's conversions \<^verbatim>\<open>int(x)\<close> of a \<^verbatim>\<open>uint32\<close> and of a \<^verbatim>\<open>uint64\<close>, the latter reinterpreting the sign bit.\<close>

definition int_of_u32 :: "32 word \<Rightarrow> int" where
  "int_of_u32 w = uint w"

definition int_of_u64 :: "64 word \<Rightarrow> int" where
  "int_of_u64 w = sint w"

fun AttentionType_ToProto :: "AttentionType \<Rightarrow> int" where
  "AttentionType_ToProto AttentionMHA = 1"
| "AttentionType_ToProto AttentionGQA = 2"
| "AttentionType_ToProto AttentionMLA = 3"
| "AttentionType_ToProto AttentionLinear = 4"
| "AttentionType_ToProto AttentionUnspecified = 0"

definition AttentionTypeFromProto :: "int \<Rightarrow> AttentionType" where
  "AttentionTypeFromProto p =
     (if p = 1 then AttentionMHA else if p = 2 then AttentionGQA else if p = 3 then AttentionMLA
      else if p = 4 then AttentionLinear else AttentionUnspecified)"

fun Role_ToProto :: "Role \<Rightarrow> int" where
  "Role_ToProto RoleHost = 1"
| "Role_ToProto RoleWorker = 2"
| "Role_ToProto RoleUnspecified = 0"

definition RoleFromProto :: "int \<Rightarrow> Role" where
  "RoleFromProto p = (if p = 1 then RoleHost else if p = 2 then RoleWorker else RoleUnspecified)"

section \<open>Model specifications\<close>

definition zeroQuantization :: Quantization where
  "zeroQuantization = \<lparr>qName = '''', SizeGB = 0, RequiresFP4 = False, Quality = 0, EmulatedFP4 = False\<rparr>"

definition zeroDraftInfo :: DraftInfo where
  "zeroDraftInfo = \<lparr>Available = False, draftType = '''', TailLayers = 0\<rparr>"

definition zeroModelSpec :: ModelSpec where
  "zeroModelSpec = \<lparr>modelID = '''', IsMoE = False, Layers = 0, ParamsTotalB = 0, ParamsActiveB = 0,
     HiddenSize = 0, NKVHeads = 0, HeadDim = 0, attentionType = AttentionUnspecified, ContextMax = 0,
     Quantizations = [], Draft = zeroDraftInfo, KVCompressionRatio = 0\<rparr>"

definition Quantization_ToProto :: "Quantization \<Rightarrow> PbQuantization option" where
  "Quantization_ToProto q = Some \<lparr>pqName = qName q, pqSizeGb = SizeGB q, pqRequiresFp4 = RequiresFP4 q,
     pqQuality = Quality q, pqEmulatedFp4 = EmulatedFP4 q\<rparr>"

definition QuantizationFromProto :: "PbQuantization option \<Rightarrow> Quantization" where
  "QuantizationFromProto m =
     (case m of
       None \<Rightarrow> zeroQuantization
     | Some p \<Rightarrow> \<lparr>qName = pqName p, SizeGB = pqSizeGb p, RequiresFP4 = pqRequiresFp4 p,
                  Quality = pqQuality p, EmulatedFP4 = pqEmulatedFp4 p\<rparr>)"

definition DraftInfo_ToProto :: "DraftInfo \<Rightarrow> PbDraftInfo option" where
  "DraftInfo_ToProto d =
     Some \<lparr>pdAvailable = Available d, pdType = draftType d, pdTailLayers = u32 (TailLayers d)\<rparr>"

definition DraftInfoFromProto :: "PbDraftInfo option \<Rightarrow> DraftInfo" where
  "DraftInfoFromProto m =
     (case m of
       None \<Rightarrow> zeroDraftInfo
     | Some p \<Rightarrow> \<lparr>Available = pdAvailable p, draftType = pdType p, TailLayers = int_of_u32 (pdTailLayers p)\<rparr>)"

definition ModelSpec_ToProto :: "ModelSpec \<Rightarrow> PbModelSpec option" where
  "ModelSpec_ToProto m = Some
     \<lparr>pmModelId = modelID m, pmFamily = '''', pmArchitecture = '''',
      pmParamsTotalB = ParamsTotalB m, pmParamsActiveB = ParamsActiveB m,
      pmLayers = u32 (Layers m), pmHiddenSize = u32 (HiddenSize m), pmNKvHeads = u32 (NKVHeads m),
      pmHeadDim = u32 (HeadDim m), pmAttentionType = AttentionType_ToProto (attentionType m),
      pmContextMax = u64 (ContextMax m), pmIsMoe = IsMoE m, pmDraft = DraftInfo_ToProto (Draft m),
      pmQuantizations = map Quantization_ToProto (Quantizations m), pmEngine = ''''\<rparr>"

definition ModelSpecFromProto :: "PbModelSpec option \<Rightarrow> ModelSpec" where
  "ModelSpecFromProto m =
     (case m of
       None \<Rightarrow> zeroModelSpec
     | Some p \<Rightarrow>
         \<lparr>modelID = pmModelId p, IsMoE = pmIsMoe p, Layers = int_of_u32 (pmLayers p),
          ParamsTotalB = pmParamsTotalB p, ParamsActiveB = pmParamsActiveB p,
          HiddenSize = int_of_u32 (pmHiddenSize p), NKVHeads = int_of_u32 (pmNKvHeads p),
          HeadDim = int_of_u32 (pmHeadDim p), attentionType = AttentionTypeFromProto (pmAttentionType p),
          ContextMax = int_of_u64 (pmContextMax p),
          Quantizations = map QuantizationFromProto (pmQuantizations p),
          Draft = DraftInfoFromProto (pmDraft p), KVCompressionRatio = 0\<rparr>)"

section \<open>Plans\<close>

definition zeroAssignment :: Assignment where
  "zeroAssignment = \<lparr>aNodeID = '''', aRole = RoleUnspecified, LayerStart = 0, LayerEnd = 0, aDraft = False\<rparr>"

definition zeroPerfEstimate :: PerfEstimate where
  "zeroPerfEstimate = \<lparr>DecodeTokSMin = 0, DecodeTokSMax = 0, PrefillTokSMin = 0, PrefillTokSMax = 0, HeadroomGB = 0\<rparr>"

definition Assignment_ToProto :: "Assignment \<Rightarrow> PbAssignment option" where
  "Assignment_ToProto a = Some
     \<lparr>paNodeId = aNodeID a, paRole = Role_ToProto (aRole a), paLayerStart = u32 (LayerStart a),
      paLayerEnd = u32 (LayerEnd a), paDraft = aDraft a\<rparr>"

definition AssignmentFromProto :: "PbAssignment option \<Rightarrow> Assignment" where
  "AssignmentFromProto m =
     (case m of
       None \<Rightarrow> zeroAssignment
     | Some p \<Rightarrow> \<lparr>aNodeID = paNodeId p, aRole = RoleFromProto (paRole p),
                  LayerStart = int_of_u32 (paLayerStart p), LayerEnd = int_of_u32 (paLayerEnd p),
                  aDraft = paDraft p\<rparr>)"

definition PerfEstimate_ToProto :: "PerfEstimate \<Rightarrow> PbPerfEstimate option" where
  "PerfEstimate_ToProto p = Some
     \<lparr>peDecodeTokSMin = DecodeTokSMin p, peDecodeTokSMax = DecodeTokSMax p,
      pePrefillTokSMin = PrefillTokSMin p, pePrefillTokSMax = PrefillTokSMax p, peHeadroomGb = HeadroomGB p\<rparr>"

definition PerfEstimateFromProto :: "PbPerfEstimate option \<Rightarrow> PerfEstimate" where
  "PerfEstimateFromProto m =
     (case m of
       None \<Rightarrow> zeroPerfEstimate
     | Some p \<Rightarrow> \<lparr>DecodeTokSMin = peDecodeTokSMin p, DecodeTokSMax = peDecodeTokSMax p,
                  PrefillTokSMin = pePrefillTokSMin p, PrefillTokSMax = pePrefillTokSMax p,
                  HeadroomGB = peHeadroomGb p\<rparr>)"

definition DeploymentPlan_ToProto :: "DeploymentPlan option \<Rightarrow> PbDeploymentPlan option" where
  "DeploymentPlan_ToProto m =
     (case m of
       None \<Rightarrow> None
     | Some d \<Rightarrow> Some
         \<lparr>ppPlanId = PlanID d, ppModelId = ModelID d, ppQuantization = QuantizationName d,
          ppAssignments = map Assignment_ToProto (Assignments d), ppPipelineOrder = PipelineOrder d,
          ppEstimated = PerfEstimate_ToProto (Estimated d), ppCost = Cost d, ppExplanation = Explanation d\<rparr>)"

definition DeploymentPlanFromProto :: "PbDeploymentPlan option \<Rightarrow> DeploymentPlan option" where
  "DeploymentPlanFromProto m =
     (case m of
       None \<Rightarrow> None
     | Some p \<Rightarrow> Some
         (DeploymentPlan (ppPlanId p) (ppModelId p) (ppQuantization p)
            (map AssignmentFromProto (ppAssignments p)) (ppPipelineOrder p)
            (PerfEstimateFromProto (ppEstimated p)) (ppCost p) (ppExplanation p) Map.empty))"

section \<open>Fleet\<close>

text \<open>The getters of a GPU entry, on a pointer that may be nil.\<close>

definition getGpu :: "PbGpuInfo option \<Rightarrow> PbGpuInfo" where
  "getGpu m = (case m of None \<Rightarrow> \<lparr>pgVramGb = 0, pgUnified = False, pgFp4Native = False, pgCount = 0\<rparr> | Some g \<Rightarrow> g)"

definition gpuLoop :: "PbGpuInfo option list \<Rightarrow> float64 \<times> bool \<times> bool \<Rightarrow> float64 \<times> bool \<times> bool" where
  "gpuLoop gs acc = foldl (\<lambda>(vram, unified, fp4) m.
     let g = getGpu m; count = (if pgCount g = 0 then 1 else pgCount g) in
     (vram + pgVramGb g * of_int (uint count), unified \<or> pgUnified g, fp4 \<or> pgFp4Native g)) acc gs"

text \<open>The name table of the enum \<^verbatim>\<open>Backend\<close>; a number that is not in it reads as the empty string.\<close>

definition Backend_name :: "int \<Rightarrow> string" where
  "Backend_name b =
     (if b = 0 then ''BACKEND_UNSPECIFIED'' else if b = 1 then ''BACKEND_CUDA'' else if b = 2 then ''BACKEND_METAL''
      else if b = 3 then ''BACKEND_ROCM'' else if b = 4 then ''BACKEND_CPU'' else '''')"

definition backendName :: "int \<Rightarrow> string" where
  "backendName b = ToLower (TrimPrefix (Backend_name b) ''BACKEND_'')"

definition NodeFromHardwareProfile :: "PbHardwareProfile option \<Rightarrow> Node" where
  "NodeFromHardwareProfile m =
     (case m of
       None \<Rightarrow> zeroNode
     | Some p \<Rightarrow>
         (case gpuLoop (phGpus p) (0, False, False) of (vram, unified, fp4) \<Rightarrow>
           \<lparr>nodeID = phNodeId p, RAMTotalGB = phRamTotalGb p, RAMAvailableGB = phRamAvailableGb p,
            VRAMGB = vram, UnifiedMemory = unified, MemBandwidthGBs = phMemBandwidthGbs p,
            Backends = map backendName (phBackends p), FP4Native = fp4,
            EngineVersions = phEngineVersions p, DiskFreeGB = phDiskFreeGb p,
            KVSSDOffload = phKvSsdOffload p, PrefixCachingFactor = phPrefixCachingFactor p\<rparr>))"

definition LinkFromMetric :: "PbLinkMetric option \<Rightarrow> Link" where
  "LinkFromMetric m =
     (case m of
       None \<Rightarrow> \<lparr>From = '''', To = '''', RTTms = 0, BandwidthGBs = 0\<rparr>
     | Some p \<Rightarrow> \<lparr>From = plFromNode p, To = plToNode p, RTTms = plRttMs p, BandwidthGBs = plBandwidthGbs p\<rparr>)"

definition ToMetric :: "Link \<Rightarrow> PbLinkMetric option" where
  "ToMetric l = Some \<lparr>plFromNode = From l, plToNode = To l, plBandwidthGbs = BandwidthGBs l, plRttMs = RTTms l\<rparr>"

section \<open>Reference notions\<close>

definition fits32 :: "int \<Rightarrow> bool" where
  "fits32 i \<longleftrightarrow> 0 \<le> i \<and> i < 2 ^ 32"

definition wireModel :: "ModelSpec \<Rightarrow> bool" where
  "wireModel m \<longleftrightarrow> fits32 (Layers m) \<and> fits32 (HiddenSize m) \<and> fits32 (NKVHeads m) \<and> fits32 (HeadDim m) \<and>
     fits32 (TailLayers (Draft m)) \<and> 0 \<le> ContextMax m \<and> ContextMax m < 2 ^ 63"

text \<open>A plan without its failover alternatives.\<close>

primrec withoutFailover :: "DeploymentPlan \<Rightarrow> DeploymentPlan" where
  "withoutFailover (DeploymentPlan i m q as po es c ex fo) = DeploymentPlan i m q as po es c ex Map.empty"

section \<open>Numbers and enumerations\<close>

lemma int_of_u32_u32: "int_of_u32 (u32 i) = (if i < 0 then 0 else i mod 2 ^ 32)"
  by (simp add: int_of_u32_def u32_def uint_word_of_int)

lemma u32_roundtrip [simp]: "fits32 i \<Longrightarrow> int_of_u32 (u32 i) = i"
  by (simp add: int_of_u32_u32 fits32_def)

lemma int_of_u64_u64 [simp]: "0 \<le> i \<Longrightarrow> i < 2 ^ 63 \<Longrightarrow> int_of_u64 (u64 i) = i"
  by (simp add: int_of_u64_def u64_def sint_sbintrunc' signed_take_bit_int_eq_self_iff)

lemma int_of_u32_fits [simp]: "fits32 (int_of_u32 w)"
  using uint_lt2p [of w] by (simp add: fits32_def int_of_u32_def)

lemma u32_int_of_u32 [simp]: "u32 (int_of_u32 w) = w"
  by (simp add: u32_def int_of_u32_def)

lemma AttentionType_roundtrip [simp]: "AttentionTypeFromProto (AttentionType_ToProto a) = a"
  by (cases a) (simp_all add: AttentionTypeFromProto_def)

lemma Role_roundtrip [simp]: "RoleFromProto (Role_ToProto r) = r"
  by (cases r) (simp_all add: RoleFromProto_def)

section \<open>Messages\<close>

lemma Quantization_roundtrip [simp]: "QuantizationFromProto (Quantization_ToProto q) = q"
  by (simp add: QuantizationFromProto_def Quantization_ToProto_def)

lemma Link_roundtrip [simp]: "LinkFromMetric (ToMetric l) = l"
  by (simp add: LinkFromMetric_def ToMetric_def)

lemma DraftInfo_roundtrip [simp]: "fits32 (TailLayers d) \<Longrightarrow> DraftInfoFromProto (DraftInfo_ToProto d) = d"
  by (simp add: DraftInfoFromProto_def DraftInfo_ToProto_def)

lemma PerfEstimate_roundtrip [simp]: "PerfEstimateFromProto (PerfEstimate_ToProto e) = e"
  by (simp add: PerfEstimateFromProto_def PerfEstimate_ToProto_def)

lemma Assignment_roundtrip [simp]:
  "fits32 (LayerStart a) \<Longrightarrow> fits32 (LayerEnd a) \<Longrightarrow> AssignmentFromProto (Assignment_ToProto a) = a"
  by (simp add: AssignmentFromProto_def Assignment_ToProto_def)

lemma ModelSpec_roundtrip:
  assumes "wireModel m"
  shows "ModelSpecFromProto (ModelSpec_ToProto m) = m\<lparr>KVCompressionRatio := 0\<rparr>"
  using assms by (simp add: ModelSpecFromProto_def ModelSpec_ToProto_def wireModel_def o_def)

lemma DeploymentPlan_roundtrip:
  assumes "\<forall>a \<in> set (Assignments p). fits32 (LayerStart a) \<and> fits32 (LayerEnd a)"
  shows "DeploymentPlanFromProto (DeploymentPlan_ToProto (Some p)) = Some (withoutFailover p)"
  using assms by (cases p) (simp add: DeploymentPlanFromProto_def DeploymentPlan_ToProto_def map_idI)

lemma covers_bounds:
  assumes "covers s e as" "a \<in> set as"
  shows "s \<le> LayerStart a \<and> LayerStart a \<le> LayerEnd a \<and> LayerEnd a < e"
  using assms
proof (induction as arbitrary: s)
  case (Cons b as)
  have mono: "covers s' e bs \<Longrightarrow> s' \<le> e" for s' bs
    by (induction bs arbitrary: s') fastforce+
  show ?case using Cons mono [of "LayerEnd b + 1" as] by fastforce
qed simp

lemma validPlan_wire:
  assumes "validPlan fleet model p" "Layers model \<le> 2 ^ 32"
  shows "DeploymentPlanFromProto (DeploymentPlan_ToProto (Some p)) = Some (withoutFailover p)"
proof (rule DeploymentPlan_roundtrip, rule ballI)
  fix a assume "a \<in> set (Assignments p)"
  then show "fits32 (LayerStart a) \<and> fits32 (LayerEnd a)"
    using covers_bounds [of 0 "Layers model" "Assignments p" a] assms by (auto simp: validPlan_def fits32_def)
qed

text \<open>The memory that the loop over the GPUs adds up, and its two flags.\<close>

lemma gpuLoop_eq:
  "gpuLoop gs (v, u, f) =
     (v + (\<Sum>m \<leftarrow> gs. pgVramGb (getGpu m) * of_int (uint (if pgCount (getGpu m) = 0 then 1 else pgCount (getGpu m)))),
      u \<or> (\<exists>m \<in> set gs. pgUnified (getGpu m)), f \<or> (\<exists>m \<in> set gs. pgFp4Native (getGpu m)))"
  by (induction gs arbitrary: v u f) (auto simp: gpuLoop_def Let_def)

section \<open>Properties\<close>

text \<open>C13: A model specification whose sizes fit the wire's field widths survives the conversion to the
  message and back, except for the KV compression ratio, which the message does not carry.\<close>

theorem ModelSpec_wire_roundtrip:
  "ModelSpecFromProto (ModelSpec_ToProto m) = m\<lparr>KVCompressionRatio := 0\<rparr> \<longleftrightarrow> wireModel m"
proof
  assume eq: "ModelSpecFromProto (ModelSpec_ToProto m) = m\<lparr>KVCompressionRatio := 0\<rparr>"
  have "Layers m = int_of_u32 (u32 (Layers m))" "HiddenSize m = int_of_u32 (u32 (HiddenSize m))"
    "NKVHeads m = int_of_u32 (u32 (NKVHeads m))" "HeadDim m = int_of_u32 (u32 (HeadDim m))"
    "TailLayers (Draft m) = int_of_u32 (u32 (TailLayers (Draft m)))" "ContextMax m = int_of_u64 (u64 (ContextMax m))"
    using arg_cong [OF eq, of Layers] arg_cong [OF eq, of HiddenSize] arg_cong [OF eq, of NKVHeads]
      arg_cong [OF eq, of HeadDim] arg_cong [OF eq, of "\<lambda>m. TailLayers (Draft m)"] arg_cong [OF eq, of ContextMax]
    by (simp_all add: ModelSpecFromProto_def ModelSpec_ToProto_def DraftInfoFromProto_def DraftInfo_ToProto_def)
  moreover have "0 \<le> ContextMax m \<and> ContextMax m < 2 ^ 63" if "ContextMax m = int_of_u64 (u64 (ContextMax m))"
  proof (cases "ContextMax m < 0")
    case True
    then show ?thesis using that by (simp add: u64_def int_of_u64_def)
  next
    case False
    then show ?thesis using that sint_lt [of "u64 (ContextMax m)"] by (simp add: int_of_u64_def)
  qed
  ultimately show "wireModel m" unfolding wireModel_def by (metis int_of_u32_fits)
qed (rule ModelSpec_roundtrip)

end
