(* ===== verification/GoTime.thy ===== *)
theory GoTime
  imports GoLib
begin

text \<open>
  The part of Go's \<^verbatim>\<open>time\<close> package the control plane uses. A \<^verbatim>\<open>time.Time\<close> is an instant, in nanoseconds since
  the Unix epoch, with the offset of its location in seconds east of UTC. Formatting is that of the
  layouts \<^verbatim>\<open>time.RFC3339\<close> and \<^verbatim>\<open>time.RFC3339Nano\<close>; a duration is an \<open>int\<close> of nanoseconds.
\<close>

record Time =
  tNanos :: int
  tOffset :: int

definition zeroTime :: Time where
  "zeroTime = \<lparr>tNanos = - 62135596800 * 1000000000, tOffset = 0\<rparr>"

definition IsZero :: "Time \<Rightarrow> bool" where
  "IsZero t \<longleftrightarrow> tNanos t = - 62135596800 * 1000000000"

definition UTC :: "Time \<Rightarrow> Time" where
  "UTC t = t\<lparr>tOffset := 0\<rparr>"

definition Sub :: "Time \<Rightarrow> Time \<Rightarrow> int" where
  "Sub t u = tNanos t - tNanos u"

definition After :: "Time \<Rightarrow> Time \<Rightarrow> bool" where
  "After t u \<longleftrightarrow> tNanos u < tNanos t"

definition Before :: "Time \<Rightarrow> Time \<Rightarrow> bool" where
  "Before t u \<longleftrightarrow> tNanos t < tNanos u"

section \<open>Calendar\<close>

text \<open>Year, month and day of a day number counted from 1970-01-01, in the proleptic Gregorian calendar.\<close>

definition civil :: "int \<Rightarrow> int \<times> int \<times> int" where
  "civil days =
     (let z = days + 719468;
          era = z div 146097;
          doe = z mod 146097;
          yoe = (doe - doe div 1460 + doe div 36524 - doe div 146096) div 365;
          doy = doe - (365 * yoe + yoe div 4 - yoe div 100);
          mp = (5 * doy + 2) div 153;
          d = doy - (153 * mp + 2) div 5 + 1;
          m = (if mp < 10 then mp + 3 else mp - 9)
      in (yoe + era * 400 + (if m \<le> 2 then 1 else 0), m, d))"

section \<open>Formatting\<close>

definition padDigits :: "nat \<Rightarrow> int \<Rightarrow> string" where
  "padDigits w n = (let ds = natDigits (nat n) in replicate (w - length ds) (CHR ''0'') @ ds)"

definition zoneText :: "int \<Rightarrow> string" where
  "zoneText off =
     (if off = 0 then ''Z''
      else let mins = \<bar>off\<bar> div 60 in
           (if off < 0 then ''-'' else ''+'') @ padDigits 2 (mins div 60) @ '':'' @ padDigits 2 (mins mod 60))"

definition dateTimeText :: "Time \<Rightarrow> string" where
  "dateTimeText t =
     (let secs = tNanos t div 1000000000 + tOffset t; sod = secs mod 86400
      in case civil (secs div 86400) of (y, m, d) \<Rightarrow>
           padDigits 4 y @ ''-'' @ padDigits 2 m @ ''-'' @ padDigits 2 d @ ''T'' @
           padDigits 2 (sod div 3600) @ '':'' @ padDigits 2 (sod mod 3600 div 60) @ '':'' @ padDigits 2 (sod mod 60))"

definition rfc3339 :: "Time \<Rightarrow> string" where
  "rfc3339 t = dateTimeText t @ zoneText (tOffset t)"

text \<open>The fraction of a second, with its trailing zeros removed.\<close>

definition fracText :: "int \<Rightarrow> string" where
  "fracText n = (if n = 0 then '''' else CHR ''.'' # rev (dropWhile (\<lambda>c. c = CHR ''0'') (rev (padDigits 9 n))))"

definition rfc3339Nano :: "Time \<Rightarrow> string" where
  "rfc3339Nano t = dateTimeText t @ fracText (tNanos t mod 1000000000) @ zoneText (tOffset t)"

text \<open>The layout \<^verbatim>\<open>20060102\<close>.\<close>

definition compactDate :: "Time \<Rightarrow> string" where
  "compactDate t =
     (case civil ((tNanos t div 1000000000 + tOffset t) div 86400) of (y, m, d) \<Rightarrow> padDigits 4 y @ padDigits 2 m @ padDigits 2 d)"

section \<open>Facts\<close>

lemma UTC_sel [simp]: "tNanos (UTC t) = tNanos t" "tOffset (UTC t) = 0" "UTC (UTC t) = UTC t" "IsZero (UTC t) = IsZero t"
  by (simp_all add: UTC_def IsZero_def)

lemma digit_not_Z: "char_of (48 + n mod 10 :: nat) \<noteq> CHR ''Z''"
proof
  assume eq: "char_of (48 + n mod 10 :: nat) = CHR ''Z''"
  have "of_char (char_of (48 + n mod 10 :: nat)) = (48 + n mod 10 :: nat)" by simp
  moreover have "of_char (CHR ''Z'') = (90 :: nat)" by simp
  moreover have "n mod 10 < 10" by simp
  ultimately show False unfolding eq by linarith
qed

lemma zoneText_last: "off \<noteq> 0 \<Longrightarrow> last (zoneText off) \<noteq> CHR ''Z''"
  by (simp add: zoneText_def padDigits_def Let_def natDigits_last digit_not_Z)

lemma rfc3339_UTC_iff: "rfc3339 (UTC t) = rfc3339 t \<longleftrightarrow> tOffset t = 0"
proof
  assume eq: "rfc3339 (UTC t) = rfc3339 t"
  show "tOffset t = 0"
  proof (rule ccontr)
    assume *: "tOffset t \<noteq> 0"
    then have "zoneText (tOffset t) \<noteq> []" by (simp add: zoneText_def Let_def)
    then have "last (rfc3339 t) = last (zoneText (tOffset t))" by (simp add: rfc3339_def)
    moreover have "last (rfc3339 (UTC t)) = CHR ''Z''" by (simp add: rfc3339_def zoneText_def)
    ultimately show False using zoneText_last [OF *] eq by simp
  qed
next
  assume "tOffset t = 0"
  then have "UTC t = t" by (simp add: UTC_def)
  then show "rfc3339 (UTC t) = rfc3339 t" by simp
qed

text \<open>The text with a fraction sorts before the text of the whole second it lies in: the layout does not keep
  the order of instants.\<close>

lemma append_less_same: "(xs @ ys < xs @ zs) = (ys < (zs :: string))"
  by (induction xs) simp_all

lemma fracText_half: "fracText 500000000 = ''.5''"
proof -
  have "char_of (48 :: nat) = CHR ''0''" "char_of (53 :: nat) = CHR ''5''" by code_simp+
  then have "natDigits 500000000 = ''500000000''" by (simp add: natDigits.simps)
  then show ?thesis by (simp add: fracText_def padDigits_def)
qed

lemma rfc3339Nano_not_monotone:
  assumes "tNanos t mod 1000000000 = 0" "u = t\<lparr>tNanos := tNanos t + 500000000\<rparr>" "tOffset t = 0"
  shows "Before t u \<and> rfc3339Nano u < rfc3339Nano t"
proof -
  obtain k where k: "tNanos t = 1000000000 * k" using assms(1) by (auto elim: dvdE simp: mod_eq_0_iff_dvd)
  then have u: "tNanos u = 500000000 + k * 1000000000" using assms(2) by simp
  have half: "500000000 div 1000000000 = (0 :: int)" "500000000 mod 1000000000 = (500000000 :: int)" by simp_all
  have kdiv: "tNanos t div 1000000000 = k" unfolding k by (rule nonzero_mult_div_cancel_left) simp
  have "tNanos u div 1000000000 = k + 500000000 div 1000000000" unfolding u by (rule div_mult_self1) simp
  then have "tNanos u div 1000000000 = tNanos t div 1000000000" by (simp only: half kdiv add_0_right)
  moreover have "tNanos u mod 1000000000 = 500000000 mod 1000000000" unfolding u by (rule mod_mult_self1)
  then have "tNanos u mod 1000000000 = 500000000" by (simp only: half)
  moreover have "tOffset u = tOffset t" by (simp add: assms(2))
  ultimately have "dateTimeText u = dateTimeText t" "rfc3339Nano u = dateTimeText u @ ''.5'' @ ''Z''"
    unfolding dateTimeText_def rfc3339Nano_def by (simp_all only: assms(3) fracText_half zoneText_def if_True simp_thms)
  moreover have "rfc3339Nano t = dateTimeText t @ ''Z''"
    using assms(1,3) by (simp add: rfc3339Nano_def fracText_def zoneText_def)
  ultimately show ?thesis using assms(2) by (simp add: append_less_same Before_def less_char_def)
qed

end
