(* ===== verification/Registry.thy ===== *)
theory Registry
  imports GoTime
begin

text \<open>
  The control plane's registry, \<^verbatim>\<open>src/go/controlplane/registry/sqlite.go\<close>: the tables of
  \<^verbatim>\<open>schema.sql\<close> and the operations on nodes, links, models, plans, deployments, API keys, certificates and
  the usage log. The other tables are declared here; their operations are in the theories of the components
  that own them.

  \<^item> A table is the list of its rows in the order of insertion; a row is the Go struct as a scan of it
    returns it. \<open>db_err\<close> says why a statement failed: a unique constraint, or a fault of the driver. The
    argument \<open>flt\<close> of an operation is that fault, \<open>None\<close> when the statement is executed.
  \<^item> A TEXT timestamp column holds the RFC3339Nano text of an instant in UTC; it is represented by that
    instant, and comparisons and \<^verbatim>\<open>ORDER BY\<close> on it compare the texts.
  \<^item> An operation that takes a pointer returns the struct it leaves behind as well. \<open>now\<close> is the clock.
\<close>

section \<open>Statements\<close>

datatype db_err = UniqueViolation string | DBFault string

datatype reg_err = ErrNotFound | ErrConflict | RegFailure string string db_err

text \<open>The result of a statement, wrapped with the operation and the id as \<^verbatim>\<open>fmt.Errorf\<close> does.\<close>

definition exec :: "string option \<Rightarrow> string \<Rightarrow> string \<Rightarrow> db_err + 'a \<Rightarrow> reg_err + 'a" where
  "exec flt what i r =
     (case flt of
       Some e \<Rightarrow> Inl (RegFailure what i (DBFault e))
     | None \<Rightarrow> (case r of Inl e \<Rightarrow> Inl (RegFailure what i e) | Inr x \<Rightarrow> Inr x))"

definition insertRow :: "('r \<Rightarrow> 'k) \<Rightarrow> string \<Rightarrow> 'r \<Rightarrow> 'r list \<Rightarrow> db_err + 'r list" where
  "insertRow key col r t = (if key r \<in> key ` set t then Inl (UniqueViolation col) else Inr (t @ [r]))"

definition updateRows :: "('r \<Rightarrow> 'k) \<Rightarrow> 'k \<Rightarrow> ('r \<Rightarrow> 'r) \<Rightarrow> 'r list \<Rightarrow> 'r list \<times> nat" where
  "updateRows key k f t = (map (\<lambda>r. if key r = k then f r else r) t, length (filter (\<lambda>r. key r = k) t))"

definition deleteRows :: "('r \<Rightarrow> 'k) \<Rightarrow> 'k \<Rightarrow> 'r list \<Rightarrow> 'r list \<times> nat" where
  "deleteRows key k t = (filter (\<lambda>r. key r \<noteq> k) t, length (filter (\<lambda>r. key r = k) t))"

definition selectRow :: "('r \<Rightarrow> 'k) \<Rightarrow> 'k \<Rightarrow> 'r list \<Rightarrow> 'r option" where
  "selectRow key k t = find (\<lambda>r. key r = k) t"

definition mustAffect :: "nat \<Rightarrow> reg_err option" where
  "mustAffect n = (if n = 0 then Some ErrNotFound else None)"

definition jsonOrEmpty :: "string \<Rightarrow> string" where
  "jsonOrEmpty b = (if length b = 0 then ''{}'' else b)"

section \<open>Rows\<close>

record RNode =
  rnID :: string
  rnHostname :: string
  rnOS :: string
  rnArch :: string
  rnRAMGB :: float64
  rnVRAMGB :: float64
  rnState :: string
  rnAgentAddr :: string
  rnInferenceAddr :: string
  rnLastSeen :: Time
  rnHardwareProfile :: string
  rnCreatedAt :: Time
  rnUpdatedAt :: Time

record RLink =
  rlFromNode :: string
  rlToNode :: string
  rlBandwidthGBs :: float64
  rlRTTMs :: float64
  rlMeasuredAt :: Time

record RModel =
  rmID :: string
  rmFamily :: string
  rmArchitecture :: string
  rmParamsTotalB :: float64
  rmEngine :: string
  rmType :: string
  rmSpec :: string
  rmSource :: string
  rmCreatedAt :: Time
  rmUpdatedAt :: Time

record RPlan =
  rpID :: string
  rpModelID :: string
  rpQuantization :: string
  rpCost :: float64
  rpPlan :: string
  rpCreatedAt :: Time

record RDeployment =
  rdID :: string
  rdModelID :: string
  rdPlanID :: string
  rdState :: string
  rdDetail :: string
  rdCreatedAt :: Time
  rdUpdatedAt :: Time

record APIKey =
  akID :: string
  akName :: string
  akKeyHash :: string
  akTenant :: string
  akRole :: string
  akQuota :: int
  akEnabled :: bool
  akCreatedAt :: Time
  akUpdatedAt :: Time
  akExpiresAt :: "Time option"
  akLastUsedAt :: "Time option"
  akPredecessorID :: string
  akRotatedAt :: "Time option"
  akScopes :: "string list"
  akCreatedBy :: string

record Cert =
  ceSerial :: string
  ceSubject :: string
  ceRole :: string
  cePEM :: string
  ceNotBefore :: Time
  ceNotAfter :: Time
  ceState :: string
  ceCreatedAt :: Time

record UsageRow =
  usAPIKeyID :: string
  usModelID :: string
  usInputTokens :: int
  usOutputTokens :: int
  usRequestAt :: Time

record AuditRow =
  arID :: int
  arActor :: string
  arAction :: string
  arTarget :: string
  arDetails :: string
  arCreatedAt :: Time
  arSeq :: "int option"
  arPrevHash :: "string option"
  arHash :: "string option"

record InferenceEvent =
  ieID :: int
  ieRequestID :: string
  ieAPIKeyHash :: string
  ieModelID :: string
  ieTenantID :: string
  ieTimestamp :: Time
  iePromptTokens :: int
  ieCompletionTokens :: int
  ieEndpoint :: string
  ieClientIPPrefix :: string
  ieLatencyMs :: float64
  ieFinishReason :: string
  ieModelRevision :: string
  ieModelQuantization :: string
  ieNodeID :: string
  ieInferenceEngine :: string

record InferenceRow =
  irEvent :: InferenceEvent
  irSeq :: "int option"
  irPrevHash :: "string option"
  irHash :: "string option"

record ServiceAccount =
  saID :: string
  saName :: string
  saTenant :: string
  saDescription :: string
  saRole :: string
  saScopes :: "string list"
  saClientID :: string
  saClientSecretHash :: string
  saEnabled :: bool
  saExpiresAt :: "Time option"
  saLastUsedAt :: "Time option"
  saCreatedAt :: Time
  saUpdatedAt :: Time

record OIDCSession =
  osTokenHash :: string
  osSub :: string
  osEmail :: string
  osIDPIssuer :: string
  osAuthMethod :: string
  osCreatedAt :: Time
  osExpiresAt :: Time
  osRevoked :: bool
  osRevokedAt :: "Time option"
  osRefreshTokenEnc :: string
  osAccessTokenExpiry :: "Time option"

record PKCERow =
  pkStateHash :: string
  pkVerifier :: string
  pkExpiresAt :: Time

record DeploymentApproval =
  daID :: int
  daDeploymentID :: string
  daModelID :: string
  daRequester :: string
  daRequestedAt :: Time
  daStatus :: string
  daReviewer :: string
  daReviewedAt :: "Time option"
  daNotes :: string
  daRequiredApprovals :: int
  daExpiresAt :: "Time option"

record ApprovalVote =
  avID :: int
  avApprovalID :: int
  avReviewer :: string
  avVotedAt :: Time
  avVote :: string
  avNotes :: string
  avIPAddress :: string

record GDPRErasureLog =
  geID :: int
  geSubjectHash :: string
  geErasedAt :: Time
  geErasedBy :: string
  geReason :: string
  geEventsErased :: int
  geErasureType :: string

record PricingTier =
  ptThresholdTokens :: int
  ptMultiplier :: float64

record ModelPricing =
  mpModelID :: string
  mpEffectiveFrom :: Time
  mpInputPricePer1K :: float64
  mpOutputPricePer1K :: float64
  mpTiers :: "PricingTier list"

record TenantQuota =
  tqTenantID :: string
  tqMonthlyRequests :: int
  tqMaxConcurrent :: int
  tqRequestsPerSec :: float64
  tqInputTPM :: int
  tqOutputTPM :: int
  tqMonthlyInputTokens :: int
  tqMonthlyOutputTokens :: int
  tqMonthlyCostBudget :: float64
  tqAlertAtPercent :: int
  tqInheritFromParent :: bool
  tqUpdatedAt :: Time

record TenantQuotaUsage =
  tuTenantID :: string
  tuPeriodStart :: Time
  tuRequestsUsed :: int
  tuInputTokensUsed :: int
  tuOutputTokensUsed :: int
  tuCostUsedUSD :: float64
  tuLastUpdated :: Time

record Organization =
  ogID :: string
  ogName :: string
  ogSlug :: string
  ogDescription :: string
  ogCreatedAt :: Time
  ogUpdatedAt :: Time

record Team =
  teID :: string
  teOrgID :: string
  teName :: string
  teSlug :: string
  teDescription :: string
  teCreatedAt :: Time
  teUpdatedAt :: Time

record PlatformUser =
  usrID :: string
  usrEmail :: string
  usrDisplayName :: string
  usrAuthMethod :: string
  usrCreatedAt :: Time
  usrLastSeenAt :: "Time option"

record OrgMember =
  omOrgID :: string
  omUserSub :: string
  omUserID :: string
  omRole :: string
  omInvitedBy :: string
  omJoinedAt :: Time
  omCreatedAt :: Time

record TeamMember =
  tmTeamID :: string
  tmUserSub :: string
  tmUserID :: string
  tmRoleID :: string
  tmInvitedBy :: string
  tmJoinedAt :: Time
  tmCreatedAt :: Time

text \<open>An empty \<open>crOrgID\<close> is the \<^verbatim>\<open>NULL\<close> of the column; the permissions are the decoded JSON array.\<close>

record CustomRole =
  crID :: string
  crOrgID :: string
  crName :: string
  crDescription :: string
  crPermissions :: "string list"
  crIsSystem :: bool
  crCreatedAt :: Time
  crUpdatedAt :: Time

record NodePool =
  npID :: string
  npName :: string
  npDescription :: string
  npOwnerType :: string
  npOwnerID :: string
  npPolicy :: string
  npCreatedAt :: Time
  npUpdatedAt :: Time

record PoolMember =
  pmNodeID :: string
  pmPoolID :: string

record PoolTeamQuota =
  ptqPoolID :: string
  ptqTeamID :: string
  ptqMaxDeployments :: int
  ptqMaxGPUNodes :: int
  ptqPriority :: int
  ptqCreatedAt :: Time
  ptqUpdatedAt :: Time

record PlatformOrg =
  poID :: string
  poName :: string
  poDescription :: string
  poCreatedAt :: Time
  poUpdatedAt :: Time

record PlatformTeam =
  plID :: string
  plOrgID :: string
  plName :: string
  plDescription :: string
  plCreatedAt :: Time
  plUpdatedAt :: Time

record DB =
  nodesT :: "RNode list"
  linksT :: "RLink list"
  modelsT :: "RModel list"
  plansT :: "RPlan list"
  deploymentsT :: "RDeployment list"
  apiKeysT :: "APIKey list"
  certsT :: "Cert list"
  usageT :: "UsageRow list"
  auditT :: "AuditRow list"
  inferenceT :: "InferenceRow list"
  serviceAccountsT :: "ServiceAccount list"
  sessionsT :: "OIDCSession list"
  pkceT :: "PKCERow list"
  approvalsT :: "DeploymentApproval list"
  votesT :: "ApprovalVote list"
  erasuresT :: "GDPRErasureLog list"
  pricingT :: "ModelPricing list"
  quotasT :: "TenantQuota list"
  quotaUsageT :: "TenantQuotaUsage list"
  orgsT :: "Organization list"
  teamsT :: "Team list"
  usersT :: "PlatformUser list"
  orgMembersT :: "OrgMember list"
  teamMembersT :: "TeamMember list"
  rolesT :: "CustomRole list"
  poolsT :: "NodePool list"
  poolMembersT :: "PoolMember list"
  poolQuotasT :: "PoolTeamQuota list"
  platformOrgsT :: "PlatformOrg list"
  platformTeamsT :: "PlatformTeam list"

definition emptyDB :: DB where
  "emptyDB = \<lparr>nodesT = [], linksT = [], modelsT = [], plansT = [], deploymentsT = [], apiKeysT = [], certsT = [],
     usageT = [], auditT = [], inferenceT = [], serviceAccountsT = [], sessionsT = [], pkceT = [], approvalsT = [], votesT = [],
     erasuresT = [], pricingT = [], quotasT = [], quotaUsageT = [], orgsT = [], teamsT = [], usersT = [], orgMembersT = [],
     teamMembersT = [], rolesT = [], poolsT = [], poolMembersT = [], poolQuotasT = [], platformOrgsT = [], platformTeamsT = []\<rparr>"

section \<open>Nodes\<close>

text \<open>What a scan returns of the columns written for a node.\<close>

definition nodeRow :: "RNode \<Rightarrow> RNode" where
  "nodeRow n = n\<lparr>rnLastSeen := UTC (rnLastSeen n), rnHardwareProfile := jsonOrEmpty (rnHardwareProfile n),
     rnCreatedAt := UTC (rnCreatedAt n), rnUpdatedAt := UTC (rnUpdatedAt n)\<rparr>"

definition CreateNode :: "string option \<Rightarrow> Time \<Rightarrow> DB \<Rightarrow> RNode \<Rightarrow> DB \<times> RNode \<times> reg_err option" where
  "CreateNode flt now db n =
     (let n1 = (if IsZero (rnCreatedAt n) then n\<lparr>rnCreatedAt := now\<rparr> else n);
          n2 = n1\<lparr>rnUpdatedAt := now\<rparr>
      in case exec flt ''create node'' (rnID n2) (insertRow rnID ''nodes.id'' (nodeRow n2) (nodesT db)) of
           Inl err \<Rightarrow> (db, n2, Some err)
         | Inr t \<Rightarrow> (db\<lparr>nodesT := t\<rparr>, n2, None))"

definition GetNode :: "string option \<Rightarrow> DB \<Rightarrow> string \<Rightarrow> reg_err + RNode" where
  "GetNode flt db i =
     (case exec flt ''get node'' i (Inr (selectRow rnID i (nodesT db))) of
       Inl err \<Rightarrow> Inl err
     | Inr None \<Rightarrow> Inl ErrNotFound
     | Inr (Some n) \<Rightarrow> Inr n)"

definition ListNodes :: "string option \<Rightarrow> DB \<Rightarrow> reg_err + RNode list" where
  "ListNodes flt db = exec flt ''list nodes'' '''' (Inr (sort_key rnID (nodesT db)))"

definition UpdateNode :: "string option \<Rightarrow> Time \<Rightarrow> DB \<Rightarrow> RNode \<Rightarrow> DB \<times> RNode \<times> reg_err option" where
  "UpdateNode flt now db n =
     (let n1 = n\<lparr>rnUpdatedAt := now\<rparr>;
          upd = (\<lambda>r. (nodeRow n1)\<lparr>rnCreatedAt := rnCreatedAt r\<rparr>)
      in case exec flt ''update node'' (rnID n1) (Inr (updateRows rnID (rnID n1) upd (nodesT db))) of
           Inl err \<Rightarrow> (db, n1, Some err)
         | Inr (t, k) \<Rightarrow> (db\<lparr>nodesT := t\<rparr>, n1, mustAffect k))"

text \<open>Deleting a node deletes its pool membership too (\<^verbatim>\<open>node_pool_members.node_id\<close> is declared \<^verbatim>\<open>ON DELETE CASCADE\<close>).\<close>

definition DeleteNode :: "string option \<Rightarrow> DB \<Rightarrow> string \<Rightarrow> DB \<times> reg_err option" where
  "DeleteNode flt db i =
     (case exec flt ''delete node'' i (Inr (deleteRows rnID i (nodesT db))) of
       Inl err \<Rightarrow> (db, Some err)
     | Inr (t, k) \<Rightarrow>
         (db\<lparr>nodesT := t, poolMembersT := filter (\<lambda>m. pmNodeID m \<noteq> i) (poolMembersT db)\<rparr>, mustAffect k))"

section \<open>Links\<close>

definition linkKey :: "RLink \<Rightarrow> string \<times> string" where
  "linkKey l = (rlFromNode l, rlToNode l)"

definition UpsertLink :: "string option \<Rightarrow> Time \<Rightarrow> DB \<Rightarrow> RLink \<Rightarrow> DB \<times> RLink \<times> reg_err option" where
  "UpsertLink flt now db l =
     (let l1 = (if IsZero (rlMeasuredAt l) then l\<lparr>rlMeasuredAt := now\<rparr> else l);
          row = l1\<lparr>rlMeasuredAt := UTC (rlMeasuredAt l1)\<rparr>;
          t = (if linkKey row \<in> linkKey ` set (linksT db)
               then map (\<lambda>r. if linkKey r = linkKey row then row else r) (linksT db)
               else linksT db @ [row])
      in case exec flt ''upsert link'' (rlFromNode l @ ''->'' @ rlToNode l) (Inr t) of
           Inl err \<Rightarrow> (db, l1, Some err)
         | Inr t \<Rightarrow> (db\<lparr>linksT := t\<rparr>, l1, None))"

definition ListLinks :: "string option \<Rightarrow> DB \<Rightarrow> reg_err + RLink list" where
  "ListLinks flt db = exec flt ''list links'' '''' (Inr (sort_key linkKey (linksT db)))"

section \<open>Models\<close>

text \<open>There is no column for the field \<open>Type\<close>.\<close>

definition modelRow :: "RModel \<Rightarrow> RModel" where
  "modelRow m = m\<lparr>rmType := '''', rmSpec := jsonOrEmpty (rmSpec m), rmSource := jsonOrEmpty (rmSource m),
     rmCreatedAt := UTC (rmCreatedAt m), rmUpdatedAt := UTC (rmUpdatedAt m)\<rparr>"

definition CreateModel :: "string option \<Rightarrow> Time \<Rightarrow> DB \<Rightarrow> RModel \<Rightarrow> DB \<times> RModel \<times> reg_err option" where
  "CreateModel flt now db m =
     (let m1 = (if IsZero (rmCreatedAt m) then m\<lparr>rmCreatedAt := now\<rparr> else m);
          m2 = m1\<lparr>rmUpdatedAt := now\<rparr>
      in case exec flt ''create model'' (rmID m2) (insertRow rmID ''models.id'' (modelRow m2) (modelsT db)) of
           Inl err \<Rightarrow> (db, m2, Some err)
         | Inr t \<Rightarrow> (db\<lparr>modelsT := t\<rparr>, m2, None))"

definition GetModel :: "string option \<Rightarrow> DB \<Rightarrow> string \<Rightarrow> reg_err + RModel" where
  "GetModel flt db i =
     (case exec flt ''get model'' i (Inr (selectRow rmID i (modelsT db))) of
       Inl err \<Rightarrow> Inl err
     | Inr None \<Rightarrow> Inl ErrNotFound
     | Inr (Some m) \<Rightarrow> Inr m)"

definition ListModels :: "string option \<Rightarrow> DB \<Rightarrow> reg_err + RModel list" where
  "ListModels flt db = exec flt ''list models'' '''' (Inr (sort_key rmID (modelsT db)))"

definition UpdateModel :: "string option \<Rightarrow> Time \<Rightarrow> DB \<Rightarrow> RModel \<Rightarrow> DB \<times> RModel \<times> reg_err option" where
  "UpdateModel flt now db m =
     (let m1 = m\<lparr>rmUpdatedAt := now\<rparr>;
          upd = (\<lambda>r. (modelRow m1)\<lparr>rmCreatedAt := rmCreatedAt r\<rparr>)
      in case exec flt ''update model'' (rmID m1) (Inr (updateRows rmID (rmID m1) upd (modelsT db))) of
           Inl err \<Rightarrow> (db, m1, Some err)
         | Inr (t, k) \<Rightarrow> (db\<lparr>modelsT := t\<rparr>, m1, mustAffect k))"

definition DeleteModel :: "string option \<Rightarrow> DB \<Rightarrow> string \<Rightarrow> DB \<times> reg_err option" where
  "DeleteModel flt db i =
     (case exec flt ''delete model'' i (Inr (deleteRows rmID i (modelsT db))) of
       Inl err \<Rightarrow> (db, Some err)
     | Inr (t, k) \<Rightarrow> (db\<lparr>modelsT := t\<rparr>, mustAffect k))"

section \<open>Plans\<close>

definition planRow :: "RPlan \<Rightarrow> RPlan" where
  "planRow p = p\<lparr>rpPlan := jsonOrEmpty (rpPlan p), rpCreatedAt := UTC (rpCreatedAt p)\<rparr>"

definition CreatePlan :: "string option \<Rightarrow> Time \<Rightarrow> DB \<Rightarrow> RPlan \<Rightarrow> DB \<times> RPlan \<times> reg_err option" where
  "CreatePlan flt now db p =
     (let p1 = (if IsZero (rpCreatedAt p) then p\<lparr>rpCreatedAt := now\<rparr> else p)
      in case exec flt ''create plan'' (rpID p1) (insertRow rpID ''plans.id'' (planRow p1) (plansT db)) of
           Inl err \<Rightarrow> (db, p1, Some err)
         | Inr t \<Rightarrow> (db\<lparr>plansT := t\<rparr>, p1, None))"

definition GetPlan :: "string option \<Rightarrow> DB \<Rightarrow> string \<Rightarrow> reg_err + RPlan" where
  "GetPlan flt db i =
     (case exec flt ''get plan'' i (Inr (selectRow rpID i (plansT db))) of
       Inl err \<Rightarrow> Inl err
     | Inr None \<Rightarrow> Inl ErrNotFound
     | Inr (Some p) \<Rightarrow> Inr p)"

definition ListPlans :: "string option \<Rightarrow> DB \<Rightarrow> reg_err + RPlan list" where
  "ListPlans flt db = exec flt ''list plans'' '''' (Inr (sort_key (\<lambda>p. rfc3339Nano (rpCreatedAt p)) (plansT db)))"

definition DeletePlan :: "string option \<Rightarrow> DB \<Rightarrow> string \<Rightarrow> DB \<times> reg_err option" where
  "DeletePlan flt db i =
     (case exec flt ''delete plan'' i (Inr (deleteRows rpID i (plansT db))) of
       Inl err \<Rightarrow> (db, Some err)
     | Inr (t, k) \<Rightarrow> (db\<lparr>plansT := t\<rparr>, mustAffect k))"

section \<open>Deployments\<close>

definition deploymentRow :: "RDeployment \<Rightarrow> RDeployment" where
  "deploymentRow d = d\<lparr>rdDetail := jsonOrEmpty (rdDetail d), rdCreatedAt := UTC (rdCreatedAt d),
     rdUpdatedAt := UTC (rdUpdatedAt d)\<rparr>"

definition CreateDeployment :: "string option \<Rightarrow> Time \<Rightarrow> DB \<Rightarrow> RDeployment \<Rightarrow> DB \<times> RDeployment \<times> reg_err option" where
  "CreateDeployment flt now db d =
     (let d1 = (if IsZero (rdCreatedAt d) then d\<lparr>rdCreatedAt := now\<rparr> else d);
          d2 = d1\<lparr>rdUpdatedAt := now\<rparr>
      in case exec flt ''create deployment'' (rdID d2)
                (insertRow rdID ''deployments.id'' (deploymentRow d2) (deploymentsT db)) of
           Inl err \<Rightarrow> (db, d2, Some err)
         | Inr t \<Rightarrow> (db\<lparr>deploymentsT := t\<rparr>, d2, None))"

definition GetDeployment :: "string option \<Rightarrow> DB \<Rightarrow> string \<Rightarrow> reg_err + RDeployment" where
  "GetDeployment flt db i =
     (case exec flt ''get deployment'' i (Inr (selectRow rdID i (deploymentsT db))) of
       Inl err \<Rightarrow> Inl err
     | Inr None \<Rightarrow> Inl ErrNotFound
     | Inr (Some d) \<Rightarrow> Inr d)"

definition ListDeployments :: "string option \<Rightarrow> DB \<Rightarrow> reg_err + RDeployment list" where
  "ListDeployments flt db =
     exec flt ''list deployments'' '''' (Inr (sort_key (\<lambda>d. rfc3339Nano (rdCreatedAt d)) (deploymentsT db)))"

text \<open>\<open>tenantOf\<close> is \<^verbatim>\<open>json.Unmarshal\<close> into a struct with the field \<^verbatim>\<open>tenant\<close>; \<open>None\<close> is its error.\<close>

definition ListDeploymentsByTenant ::
  "(string \<Rightarrow> string option) \<Rightarrow> string option \<Rightarrow> DB \<Rightarrow> string \<Rightarrow> reg_err + RDeployment list" where
  "ListDeploymentsByTenant tenantOf flt db tenant =
     (if tenant = '''' then ListDeployments flt db
      else case ListDeployments flt db of
             Inl err \<Rightarrow> Inl err
           | Inr ds \<Rightarrow> Inr (filter (\<lambda>d. 0 < length (rdDetail d) \<and> tenantOf (rdDetail d) = Some tenant) ds))"

definition UpdateDeployment :: "string option \<Rightarrow> Time \<Rightarrow> DB \<Rightarrow> RDeployment \<Rightarrow> DB \<times> RDeployment \<times> reg_err option" where
  "UpdateDeployment flt now db d =
     (let d1 = d\<lparr>rdUpdatedAt := now\<rparr>;
          upd = (\<lambda>r. (deploymentRow d1)\<lparr>rdCreatedAt := rdCreatedAt r\<rparr>)
      in case exec flt ''update deployment'' (rdID d1) (Inr (updateRows rdID (rdID d1) upd (deploymentsT db))) of
           Inl err \<Rightarrow> (db, d1, Some err)
         | Inr (t, k) \<Rightarrow> (db\<lparr>deploymentsT := t\<rparr>, d1, mustAffect k))"

definition DeleteDeployment :: "string option \<Rightarrow> DB \<Rightarrow> string \<Rightarrow> DB \<times> reg_err option" where
  "DeleteDeployment flt db i =
     (case exec flt ''delete deployment'' i (Inr (deleteRows rdID i (deploymentsT db))) of
       Inl err \<Rightarrow> (db, Some err)
     | Inr (t, k) \<Rightarrow> (db\<lparr>deploymentsT := t\<rparr>, mustAffect k))"

section \<open>API keys\<close>

text \<open>What a scan returns: the lifecycle columns are not selected.\<close>

definition scanAPIKey :: "APIKey \<Rightarrow> APIKey" where
  "scanAPIKey k = k\<lparr>akExpiresAt := None, akLastUsedAt := None, akPredecessorID := '''', akRotatedAt := None, akScopes := []\<rparr>"

definition roleOrAdmin :: "string \<Rightarrow> string" where
  "roleOrAdmin role = (if role = '''' then ''admin'' else role)"

text \<open>The inserted row: the lifecycle columns get their defaults. \<open>key_hash\<close> is unique as well.\<close>

definition apiKeyRow :: "APIKey \<Rightarrow> APIKey" where
  "apiKeyRow k = k\<lparr>akRole := roleOrAdmin (akRole k), akCreatedAt := UTC (akCreatedAt k), akUpdatedAt := UTC (akUpdatedAt k),
     akExpiresAt := None, akLastUsedAt := None, akPredecessorID := '''', akRotatedAt := None, akScopes := []\<rparr>"

definition insertAPIKey :: "APIKey \<Rightarrow> APIKey list \<Rightarrow> db_err + APIKey list" where
  "insertAPIKey k t =
     (if akKeyHash k \<in> akKeyHash ` set t then Inl (UniqueViolation ''api_keys.key_hash'')
      else insertRow akID ''api_keys.id'' k t)"

definition CreateAPIKey :: "string option \<Rightarrow> Time \<Rightarrow> DB \<Rightarrow> APIKey \<Rightarrow> DB \<times> APIKey \<times> reg_err option" where
  "CreateAPIKey flt now db k =
     (let k1 = (if IsZero (akCreatedAt k) then k\<lparr>akCreatedAt := now\<rparr> else k);
          k2 = k1\<lparr>akUpdatedAt := now\<rparr>
      in case exec flt ''create api_key'' (akID k2) (insertAPIKey (apiKeyRow k2) (apiKeysT db)) of
           Inl err \<Rightarrow> (db, k2, Some err)
         | Inr t \<Rightarrow> (db\<lparr>apiKeysT := t\<rparr>, k2\<lparr>akRole := roleOrAdmin (akRole k)\<rparr>, None))"

definition GetAPIKey :: "string option \<Rightarrow> DB \<Rightarrow> string \<Rightarrow> reg_err + APIKey" where
  "GetAPIKey flt db i =
     (case exec flt ''get api_key'' i (Inr (selectRow akID i (apiKeysT db))) of
       Inl err \<Rightarrow> Inl err
     | Inr None \<Rightarrow> Inl ErrNotFound
     | Inr (Some k) \<Rightarrow> Inr (scanAPIKey k))"

definition liveKey :: "Time \<Rightarrow> APIKey \<Rightarrow> bool" where
  "liveKey now k \<longleftrightarrow> akEnabled k \<and>
     (case akExpiresAt k of None \<Rightarrow> True | Some t \<Rightarrow> rfc3339Nano (UTC now) < rfc3339Nano t)"

definition GetAPIKeyByHash :: "string option \<Rightarrow> Time \<Rightarrow> DB \<Rightarrow> string \<Rightarrow> reg_err + APIKey" where
  "GetAPIKeyByHash flt now db h =
     (case exec flt ''get api_key by hash'' '''' (Inr (find (\<lambda>k. akKeyHash k = h \<and> liveKey now k) (apiKeysT db))) of
       Inl err \<Rightarrow> Inl err
     | Inr None \<Rightarrow> Inl ErrNotFound
     | Inr (Some k) \<Rightarrow> Inr (scanAPIKey k))"

definition ListAPIKeys :: "string option \<Rightarrow> DB \<Rightarrow> reg_err + APIKey list" where
  "ListAPIKeys flt db = exec flt ''list api_keys'' '''' (Inr (map scanAPIKey (sort_key akID (apiKeysT db))))"

definition ListAPIKeysByTenant :: "string option \<Rightarrow> DB \<Rightarrow> string \<Rightarrow> reg_err + APIKey list" where
  "ListAPIKeysByTenant flt db tenant =
     (if tenant = '''' then ListAPIKeys flt db
      else exec flt ''list api_keys by tenant'' ''''
             (Inr (map scanAPIKey (rev (sort_key (\<lambda>k. rfc3339Nano (akCreatedAt k))
               (filter (\<lambda>k. akTenant k = tenant \<and> akEnabled k) (apiKeysT db)))))))"

text \<open>The \<^verbatim>\<open>SET\<close> clause of the update, and when it violates the unique index on \<open>key_hash\<close>.\<close>

definition updatedKey :: "Time \<Rightarrow> APIKey \<Rightarrow> APIKey \<Rightarrow> APIKey" where
  "updatedKey now k r = r\<lparr>akName := akName k, akKeyHash := akKeyHash k, akTenant := akTenant k,
     akRole := roleOrAdmin (akRole k), akQuota := akQuota k, akEnabled := akEnabled k, akUpdatedAt := UTC now\<rparr>"

definition hashClash :: "APIKey \<Rightarrow> APIKey list \<Rightarrow> bool" where
  "hashClash k t \<longleftrightarrow> (\<exists>r \<in> set t. akID r \<noteq> akID k \<and> akKeyHash r = akKeyHash k) \<and> akID k \<in> akID ` set t"

definition UpdateAPIKey :: "string option \<Rightarrow> Time \<Rightarrow> DB \<Rightarrow> APIKey \<Rightarrow> DB \<times> APIKey \<times> reg_err option" where
  "UpdateAPIKey flt now db k =
     (case exec flt ''update api_key'' (akID k)
             (if hashClash k (apiKeysT db) then Inl (UniqueViolation ''api_keys.key_hash'')
              else Inr (updateRows akID (akID k) (updatedKey now k) (apiKeysT db))) of
        Inl err \<Rightarrow> (db, k\<lparr>akUpdatedAt := now\<rparr>, Some err)
      | Inr (t, n) \<Rightarrow> (db\<lparr>apiKeysT := t\<rparr>, k\<lparr>akUpdatedAt := now\<rparr>, mustAffect n))"

definition DeleteAPIKey :: "string option \<Rightarrow> DB \<Rightarrow> string \<Rightarrow> DB \<times> reg_err option" where
  "DeleteAPIKey flt db i =
     (case exec flt ''delete api_key'' i (Inr (deleteRows akID i (apiKeysT db))) of
       Inl err \<Rightarrow> (db, Some err)
     | Inr (t, n) \<Rightarrow> (db\<lparr>apiKeysT := t\<rparr>, mustAffect n))"

section \<open>Certificates\<close>

definition certRow :: "Cert \<Rightarrow> Cert" where
  "certRow c = c\<lparr>ceNotBefore := UTC (ceNotBefore c), ceNotAfter := UTC (ceNotAfter c), ceCreatedAt := UTC (ceCreatedAt c)\<rparr>"

definition CreateCert :: "string option \<Rightarrow> Time \<Rightarrow> DB \<Rightarrow> Cert \<Rightarrow> DB \<times> Cert \<times> reg_err option" where
  "CreateCert flt now db c =
     (let c1 = (if IsZero (ceCreatedAt c) then c\<lparr>ceCreatedAt := now\<rparr> else c);
          c2 = (if ceState c1 = '''' then c1\<lparr>ceState := ''issued''\<rparr> else c1)
      in case exec flt ''create cert'' (ceSerial c2) (insertRow ceSerial ''certs.serial'' (certRow c2) (certsT db)) of
           Inl err \<Rightarrow> (db, c2, Some err)
         | Inr t \<Rightarrow> (db\<lparr>certsT := t\<rparr>, c2, None))"

definition GetCert :: "string option \<Rightarrow> DB \<Rightarrow> string \<Rightarrow> reg_err + Cert" where
  "GetCert flt db i =
     (case exec flt ''get cert'' i (Inr (selectRow ceSerial i (certsT db))) of
       Inl err \<Rightarrow> Inl err
     | Inr None \<Rightarrow> Inl ErrNotFound
     | Inr (Some c) \<Rightarrow> Inr c)"

definition ListCerts :: "string option \<Rightarrow> DB \<Rightarrow> reg_err + Cert list" where
  "ListCerts flt db = exec flt ''list certs'' '''' (Inr (sort_key (\<lambda>c. rfc3339Nano (ceCreatedAt c)) (certsT db)))"

definition UpdateCert :: "string option \<Rightarrow> DB \<Rightarrow> Cert \<Rightarrow> DB \<times> reg_err option" where
  "UpdateCert flt db c =
     (let upd = (\<lambda>r. (certRow c)\<lparr>ceCreatedAt := ceCreatedAt r\<rparr>)
      in case exec flt ''update cert'' (ceSerial c) (Inr (updateRows ceSerial (ceSerial c) upd (certsT db))) of
           Inl err \<Rightarrow> (db, Some err)
         | Inr (t, k) \<Rightarrow> (db\<lparr>certsT := t\<rparr>, mustAffect k))"

definition DeleteCert :: "string option \<Rightarrow> DB \<Rightarrow> string \<Rightarrow> DB \<times> reg_err option" where
  "DeleteCert flt db i =
     (case exec flt ''delete cert'' i (Inr (deleteRows ceSerial i (certsT db))) of
       Inl err \<Rightarrow> (db, Some err)
     | Inr (t, k) \<Rightarrow> (db\<lparr>certsT := t\<rparr>, mustAffect k))"

section \<open>Usage\<close>

definition RecordUsage :: "string option \<Rightarrow> Time \<Rightarrow> DB \<Rightarrow> string \<Rightarrow> string \<Rightarrow> int \<Rightarrow> int \<Rightarrow> DB \<times> reg_err option" where
  "RecordUsage flt now db apiKeyID mID inTok outTok =
     (case exec flt ''record usage'' '''' (Inr (usageT db @
             [\<lparr>usAPIKeyID = apiKeyID, usModelID = mID, usInputTokens = inTok, usOutputTokens = outTok,
               usRequestAt = UTC now\<rparr>])) of
       Inl err \<Rightarrow> (db, Some err)
     | Inr t \<Rightarrow> (db\<lparr>usageT := t\<rparr>, None))"

record KeyUsageSummary =
  kuAPIKeyID :: string
  kuTotalRequests :: int
  kuInputTokens :: int
  kuOutputTokens :: int

definition GetKeyUsage :: "string option \<Rightarrow> DB \<Rightarrow> string \<Rightarrow> reg_err + KeyUsageSummary" where
  "GetKeyUsage flt db i =
     (let rows = filter (\<lambda>u. usAPIKeyID u = i) (usageT db)
      in exec flt ''get key usage'' i (Inr
           \<lparr>kuAPIKeyID = i, kuTotalRequests = int (length rows), kuInputTokens = sum_list (map usInputTokens rows),
            kuOutputTokens = sum_list (map usOutputTokens rows)\<rparr>))"

record TenantUsage =
  tuTenant :: string
  tuTotalRequests :: int
  tuInputTokens :: int
  tuOutputTokens :: int

text \<open>The join of the usage rows with the keys: pairs of a tenant and a usage row.\<close>

definition usageJoin :: "DB \<Rightarrow> (string \<times> UsageRow) list" where
  "usageJoin db = concat (map (\<lambda>u. map (\<lambda>k. (akTenant k, u)) (filter (\<lambda>k. akID k = usAPIKeyID u) (apiKeysT db))) (usageT db))"

definition GetUsageSummary :: "string option \<Rightarrow> DB \<Rightarrow> Time \<Rightarrow> reg_err + TenantUsage list" where
  "GetUsageSummary flt db since =
     (let rows = filter (\<lambda>(t, u). IsZero since \<or> rfc3339Nano (UTC since) \<le> rfc3339Nano (usRequestAt u)) (usageJoin db);
          tenants = sort (remdups (map fst rows))
      in exec flt ''get usage summary'' '''' (Inr (map (\<lambda>t.
           let us = map snd (filter (\<lambda>r. fst r = t) rows) in
           \<lparr>tuTenant = t, tuTotalRequests = int (length us), tuInputTokens = sum_list (map usInputTokens us),
            tuOutputTokens = sum_list (map usOutputTokens us)\<rparr>) tenants)))"

section \<open>Reference notions\<close>

text \<open>Every table has at most one row per key, and no two API keys have the same hash.\<close>

definition wfDB :: "DB \<Rightarrow> bool" where
  "wfDB db \<longleftrightarrow> distinct (map rnID (nodesT db)) \<and> distinct (map linkKey (linksT db)) \<and> distinct (map rmID (modelsT db)) \<and>
     distinct (map rpID (plansT db)) \<and> distinct (map rdID (deploymentsT db)) \<and> distinct (map akID (apiKeysT db)) \<and>
     distinct (map akKeyHash (apiKeysT db)) \<and> distinct (map ceSerial (certsT db))"

definition storedNode :: "Time \<Rightarrow> RNode \<Rightarrow> RNode" where
  "storedNode now n = nodeRow (n\<lparr>rnCreatedAt := if IsZero (rnCreatedAt n) then now else rnCreatedAt n, rnUpdatedAt := now\<rparr>)"

definition storedModel :: "Time \<Rightarrow> RModel \<Rightarrow> RModel" where
  "storedModel now m = modelRow (m\<lparr>rmCreatedAt := if IsZero (rmCreatedAt m) then now else rmCreatedAt m, rmUpdatedAt := now\<rparr>)"

definition storedPlan :: "Time \<Rightarrow> RPlan \<Rightarrow> RPlan" where
  "storedPlan now p = planRow (p\<lparr>rpCreatedAt := if IsZero (rpCreatedAt p) then now else rpCreatedAt p\<rparr>)"

definition storedDeployment :: "Time \<Rightarrow> RDeployment \<Rightarrow> RDeployment" where
  "storedDeployment now d = deploymentRow (d\<lparr>rdCreatedAt := if IsZero (rdCreatedAt d) then now else rdCreatedAt d, rdUpdatedAt := now\<rparr>)"

definition storedKey :: "Time \<Rightarrow> APIKey \<Rightarrow> APIKey" where
  "storedKey now k = apiKeyRow (k\<lparr>akCreatedAt := if IsZero (akCreatedAt k) then now else akCreatedAt k, akUpdatedAt := now\<rparr>)"

definition storedCert :: "Time \<Rightarrow> Cert \<Rightarrow> Cert" where
  "storedCert now c = certRow (c\<lparr>ceCreatedAt := if IsZero (ceCreatedAt c) then now else ceCreatedAt c,
     ceState := if ceState c = '''' then ''issued'' else ceState c\<rparr>)"

definition exKey :: "string \<Rightarrow> string \<Rightarrow> APIKey" where
  "exKey i h = \<lparr>akID = i, akName = i, akKeyHash = h, akTenant = '''', akRole = ''viewer'', akQuota = 0, akEnabled = True,
     akCreatedAt = zeroTime, akUpdatedAt = zeroTime, akExpiresAt = None, akLastUsedAt = None, akPredecessorID = '''',
     akRotatedAt = None, akScopes = [], akCreatedBy = ''''\<rparr>"

section \<open>Statements\<close>

lemma exec_None [simp]: "exec None what i (Inr x) = Inr x"
  by (simp add: exec_def)

lemma exec_Inr: "exec flt what i r = Inr x \<longleftrightarrow> flt = None \<and> r = Inr x"
  by (auto simp: exec_def split: option.splits sum.splits)

lemma mustAffect_iff: "mustAffect (length (filter (\<lambda>r. key r = k) t)) = None \<longleftrightarrow> k \<in> key ` set t"
  by (auto simp: mustAffect_def filter_empty_conv)

lemma insertRow_Inr: "insertRow key col r t = Inr t' \<longleftrightarrow> key r \<notin> key ` set t \<and> t' = t @ [r]"
  by (auto simp: insertRow_def)

lemma selectRow_append:
  "selectRow key k (t @ [r]) = (case selectRow key k t of Some x \<Rightarrow> Some x | None \<Rightarrow> if key r = k then Some r else None)"
  by (induction t) (auto simp: selectRow_def)

lemma selectRow_None: "selectRow key k t = None \<longleftrightarrow> k \<notin> key ` set t"
  by (auto simp: selectRow_def find_None_iff)

lemma selectRow_Some: "selectRow key k t = Some r \<Longrightarrow> r \<in> set t \<and> key r = k"
  by (auto simp: selectRow_def find_Some_iff)

lemma selectRow_filter: "selectRow key k (filter (\<lambda>r. key r \<noteq> i) t) = (if k = i then None else selectRow key k t)"
  by (induction t) (auto simp: selectRow_def)

lemma selectRow_map:
  assumes "\<And>r. key r = i \<Longrightarrow> key (f r) = i"
  shows "selectRow key k (map (\<lambda>r. if key r = i then f r else r) t) =
    (if k = i then map_option f (selectRow key k t) else selectRow key k t)"
  using assms by (induction t) (auto simp: selectRow_def)

lemma distinct_updateRows:
  assumes "\<And>r. key r = i \<Longrightarrow> key (f r) = i" "distinct (map key t)"
  shows "distinct (map key (map (\<lambda>r. if key r = i then f r else r) t))"
proof -
  have "map key (map (\<lambda>r. if key r = i then f r else r) t) = map key t" using assms(1) by auto
  then show ?thesis using assms(2) by metis
qed

lemma distinct_filter_map: "distinct (map f t) \<Longrightarrow> distinct (map f (filter P t))"
  by (rule distinct_map_filter)

section \<open>What a table promises\<close>

locale crud =
  fixes tbl :: "DB \<Rightarrow> 'r list" and key :: "'r \<Rightarrow> string" and stored :: "'r \<Rightarrow> 'r" and shown :: "'r \<Rightarrow> 'r"
    and create :: "DB \<Rightarrow> 'r \<Rightarrow> DB \<times> 'r \<times> reg_err option" and get :: "DB \<Rightarrow> string \<Rightarrow> reg_err + 'r"
    and delete :: "DB \<Rightarrow> string \<Rightarrow> DB \<times> reg_err option"
  assumes create_law: "create db r = (db', r', None) \<Longrightarrow>
      key r \<notin> key ` set (tbl db) \<and> tbl db' = tbl db @ [stored r] \<and> key (stored r) = key r"
    and create_error: "create db r = (db', r', Some err) \<Longrightarrow> db' = db"
    and get_law: "get db i = (case selectRow key i (tbl db) of None \<Rightarrow> Inl ErrNotFound | Some r \<Rightarrow> Inr (shown r))"
    and delete_law: "delete db i = (db', e) \<Longrightarrow>
      tbl db' = filter (\<lambda>r. key r \<noteq> i) (tbl db) \<and> (e = None \<longleftrightarrow> i \<in> key ` set (tbl db)) \<and> (e \<noteq> None \<longrightarrow> e = Some ErrNotFound)"
begin

lemma get_create:
  assumes "create db r = (db', r', None)"
  shows "get db' i = (if i = key r then Inr (shown (stored r)) else get db i)"
proof -
  note c = create_law [OF assms]
  have "selectRow key (key r) (tbl db) = None" using c by (simp add: selectRow_None)
  then show ?thesis using c by (cases "selectRow key i (tbl db)") (auto simp: get_law selectRow_append)
qed

lemma get_delete:
  assumes "delete db i = (db', e)"
  shows "get db' k = (if k = i then Inl ErrNotFound else get db k)"
  using delete_law [OF assms] by (simp add: get_law selectRow_filter)

lemma get_found: "(\<exists>r. get db i = Inr r) \<longleftrightarrow> i \<in> key ` set (tbl db)"
  using selectRow_None [of key i "tbl db"] by (auto simp: get_law split: option.split)

lemma create_then_delete:
  assumes "create db r = (db1, r', None)" "delete db1 (key r) = (db2, e)"
  shows "e = None \<and> tbl db2 = tbl db"
proof -
  note c = create_law [OF assms(1)] and d = delete_law [OF assms(2)]
  have "filter (\<lambda>x. key x \<noteq> key r) (tbl db) = tbl db" using c by (intro filter_True ballI) (metis image_eqI)
  then show ?thesis using c d by simp
qed

lemma create_distinct:
  assumes "create db r = (db', r', e)" "distinct (map key (tbl db))"
  shows "distinct (map key (tbl db'))"
  using assms create_law [of db r db' r'] create_error [of db r db' r'] by (cases e) auto

lemma delete_distinct:
  assumes "delete db i = (db', e)" "distinct (map key (tbl db))"
  shows "distinct (map key (tbl db'))"
  using delete_law [OF assms(1)] assms(2) by (simp add: distinct_filter_map)

end

text \<open>A table whose rows can be updated: the row keeps its key, the others are untouched.\<close>

locale crud_update = crud +
  fixes update :: "DB \<Rightarrow> 'r \<Rightarrow> DB \<times> 'r \<times> reg_err option" and upd :: "'r \<Rightarrow> 'r \<Rightarrow> 'r"
  assumes update_law: "update db n = (db', n', e) \<Longrightarrow>
      tbl db' = map (\<lambda>r. if key r = key n then upd n r else r) (tbl db) \<and>
      (e = None \<longleftrightarrow> key n \<in> key ` set (tbl db)) \<and> (e \<noteq> None \<longrightarrow> e = Some ErrNotFound)"
    and upd_key: "key (upd n r) = key n"
begin

lemma get_update:
  assumes "update db n = (db', n', e)"
  shows "get db' k = (if k \<noteq> key n then get db k
    else case selectRow key k (tbl db) of None \<Rightarrow> Inl ErrNotFound | Some r \<Rightarrow> Inr (shown (upd n r)))"
  using update_law [OF assms] selectRow_map [of key "key n" "upd n" k "tbl db"] upd_key
  by (simp add: get_law split: option.split)

lemma update_distinct:
  assumes "update db n = (db', n', e)" "distinct (map key (tbl db))"
  shows "distinct (map key (tbl db'))"
  using update_law [OF assms(1)] distinct_updateRows [of key "key n" "upd n" "tbl db"] assms(2) upd_key by simp

end

lemmas node_defs = CreateNode_def GetNode_def DeleteNode_def UpdateNode_def
lemmas model_defs = CreateModel_def GetModel_def DeleteModel_def UpdateModel_def
lemmas plan_defs = CreatePlan_def GetPlan_def DeletePlan_def
lemmas deployment_defs = CreateDeployment_def GetDeployment_def DeleteDeployment_def UpdateDeployment_def
lemmas cert_defs = CreateCert_def GetCert_def DeleteCert_def UpdateCert_def
lemmas key_defs = CreateAPIKey_def GetAPIKey_def DeleteAPIKey_def UpdateAPIKey_def
lemmas stmt_defs = exec_def insertRow_def deleteRows_def updateRows_def Let_def

interpretation nodes: crud_update nodesT rnID "storedNode now" id "CreateNode None now" "GetNode None" "DeleteNode None"
  "UpdateNode None now" "\<lambda>n r. (nodeRow (n\<lparr>rnUpdatedAt := now\<rparr>))\<lparr>rnCreatedAt := rnCreatedAt r\<rparr>" for now
  by unfold_locales
    (auto simp: node_defs stmt_defs storedNode_def nodeRow_def mustAffect_def filter_empty_conv split: if_splits option.splits
      intro: rev_image_eqI)

interpretation models: crud_update modelsT rmID "storedModel now" id "CreateModel None now" "GetModel None" "DeleteModel None"
  "UpdateModel None now" "\<lambda>n r. (modelRow (n\<lparr>rmUpdatedAt := now\<rparr>))\<lparr>rmCreatedAt := rmCreatedAt r\<rparr>" for now
  by unfold_locales
    (auto simp: model_defs stmt_defs storedModel_def modelRow_def mustAffect_def filter_empty_conv split: if_splits option.splits
      intro: rev_image_eqI)

interpretation plans: crud plansT rpID "storedPlan now" id "CreatePlan None now" "GetPlan None" "DeletePlan None" for now
  by unfold_locales
    (auto simp: plan_defs stmt_defs storedPlan_def planRow_def mustAffect_def filter_empty_conv split: if_splits option.splits
      intro: rev_image_eqI)

interpretation deployments: crud_update deploymentsT rdID "storedDeployment now" id "CreateDeployment None now" "GetDeployment None"
  "DeleteDeployment None" "UpdateDeployment None now"
  "\<lambda>n r. (deploymentRow (n\<lparr>rdUpdatedAt := now\<rparr>))\<lparr>rdCreatedAt := rdCreatedAt r\<rparr>" for now
  by unfold_locales
    (auto simp: deployment_defs stmt_defs storedDeployment_def deploymentRow_def mustAffect_def filter_empty_conv
      split: if_splits option.splits intro: rev_image_eqI)

interpretation certs: crud_update certsT ceSerial "storedCert now" id "CreateCert None now" "GetCert None" "DeleteCert None"
  "\<lambda>db c. case UpdateCert None db c of (db', e) \<Rightarrow> (db', c, e)" "\<lambda>n r. (certRow n)\<lparr>ceCreatedAt := ceCreatedAt r\<rparr>" for now
  by unfold_locales
    (auto simp: cert_defs stmt_defs storedCert_def certRow_def mustAffect_def filter_empty_conv split: if_splits option.splits
      intro: rev_image_eqI)

interpretation keys: crud apiKeysT akID "storedKey now" scanAPIKey "CreateAPIKey None now" "GetAPIKey None" "DeleteAPIKey None" for now
  by unfold_locales
    (auto simp: key_defs stmt_defs insertAPIKey_def storedKey_def apiKeyRow_def mustAffect_def filter_empty_conv
      split: if_splits option.splits intro: rev_image_eqI)

section \<open>The invariant\<close>

lemma wfDB_empty [simp]: "wfDB emptyDB"
  by (simp add: wfDB_def emptyDB_def)

lemma insertRow_distinct: "insertRow key col r t = Inr t' \<Longrightarrow> distinct (map key t) \<Longrightarrow> distinct (map key t')"
  by (auto simp: insertRow_Inr)

lemma updateRows_distinct:
  "updateRows key i f t = (t', n) \<Longrightarrow> (\<And>r. key r = i \<Longrightarrow> key (f r) = i) \<Longrightarrow> distinct (map key t) \<Longrightarrow> distinct (map key t')"
  using distinct_updateRows [of key i f t] by (simp add: updateRows_def)

lemma deleteRows_distinct: "deleteRows key i t = (t', n) \<Longrightarrow> distinct (map f t) \<Longrightarrow> distinct (map f t')"
  by (auto simp: deleteRows_def distinct_filter_map)

lemmas table_distinct = insertRow_distinct updateRows_distinct deleteRows_distinct
lemmas wf_simps = wfDB_def exec_Inr Let_def
lemmas wf_splits = sum.split prod.split

lemma nodes_wf:
  assumes "wfDB db"
  shows "wfDB (fst (CreateNode flt now db n))" "wfDB (fst (UpdateNode flt now db n))" "wfDB (fst (DeleteNode flt db i))"
  using assms by (auto simp: node_defs nodeRow_def wf_simps split: wf_splits intro: table_distinct)

lemma models_wf:
  assumes "wfDB db"
  shows "wfDB (fst (CreateModel flt now db m))" "wfDB (fst (UpdateModel flt now db m))" "wfDB (fst (DeleteModel flt db i))"
  using assms by (auto simp: model_defs modelRow_def wf_simps split: wf_splits intro: table_distinct)

lemma plans_wf:
  assumes "wfDB db"
  shows "wfDB (fst (CreatePlan flt now db p))" "wfDB (fst (DeletePlan flt db i))"
  using assms by (auto simp: plan_defs planRow_def wf_simps split: wf_splits intro: table_distinct)

lemma deployments_wf:
  assumes "wfDB db"
  shows "wfDB (fst (CreateDeployment flt now db d))" "wfDB (fst (UpdateDeployment flt now db d))" "wfDB (fst (DeleteDeployment flt db i))"
  using assms by (auto simp: deployment_defs deploymentRow_def wf_simps split: wf_splits intro: table_distinct)

lemma certs_wf:
  assumes "wfDB db"
  shows "wfDB (fst (CreateCert flt now db c))" "wfDB (fst (UpdateCert flt db c))" "wfDB (fst (DeleteCert flt db i))"
  using assms by (auto simp: cert_defs certRow_def wf_simps split: wf_splits intro: table_distinct)

lemma upsert_distinct:
  assumes "distinct (map key t)"
  shows "distinct (map key (if key row \<in> key ` set t then map (\<lambda>r. if key r = key row then row else r) t else t @ [row]))"
  using assms distinct_updateRows [of key "key row" "\<lambda>_. row" t] by (auto simp del: map_map)

lemma links_wf:
  assumes "wfDB db"
  shows "wfDB (fst (UpsertLink flt now db l))"
proof (cases flt)
  case None
  have t: "distinct (map linkKey (linksT db))" using assms by (simp add: wfDB_def)
  show ?thesis using assms unfolding UpsertLink_def None exec_def Let_def wfDB_def
    by (simp add: upsert_distinct [OF t] del: map_map)
qed (use assms in \<open>simp add: UpsertLink_def exec_def Let_def\<close>)

lemma usage_wf: "wfDB db \<Longrightarrow> wfDB (fst (RecordUsage flt now db k mID a b))"
  by (auto simp: RecordUsage_def wf_simps split: wf_splits)

lemma updated_hash_distinct:
  assumes "distinct (map akID t)" "distinct (map akKeyHash t)"
    "\<not> ((\<exists>r \<in> set t. akID r \<noteq> i \<and> akKeyHash r = h) \<and> i \<in> akID ` set t)"
    "\<And>r. akKeyHash (f r) = h"
  shows "distinct (map akKeyHash (map (\<lambda>r. if akID r = i then f r else r) t))"
proof (cases "i \<in> akID ` set t")
  case False
  then have "map (\<lambda>r. if akID r = i then f r else r) t = t" by (intro map_idI) auto
  then show ?thesis using assms(2) by metis
next
  case True
  then have other: "\<And>r. r \<in> set t \<Longrightarrow> akID r \<noteq> i \<Longrightarrow> akKeyHash r \<noteq> h" using assms(3) by auto
  have "inj_on (\<lambda>r. akKeyHash (if akID r = i then f r else r)) (set t)"
  proof (rule inj_onI)
    fix a b
    assume ab: "a \<in> set t" "b \<in> set t" "akKeyHash (if akID a = i then f a else a) = akKeyHash (if akID b = i then f b else b)"
    have "akID a = i \<longleftrightarrow> akID b = i" using ab other [of a] other [of b] assms(4) by (auto split: if_splits)
    then have "akID a = akID b \<or> akKeyHash a = akKeyHash b" using ab(3) by (auto split: if_splits)
    then show "a = b" using ab(1,2) assms(1,2) by (auto simp: distinct_map dest: inj_onD)
  qed
  moreover have "distinct t" using assms(1) by (simp add: distinct_map)
  ultimately show ?thesis by (simp add: distinct_map o_def)
qed

lemma keys_wf:
  assumes "wfDB db"
  shows "wfDB (fst (CreateAPIKey flt now db k))" "wfDB (fst (DeleteAPIKey flt db i))"
  using assms deleteRows_distinct [of akID i "apiKeysT db" _ _ akID] deleteRows_distinct [of akID i "apiKeysT db" _ _ akKeyHash]
  by (auto simp: CreateAPIKey_def DeleteAPIKey_def insertAPIKey_def insertRow_def apiKeyRow_def wf_simps split: wf_splits if_splits)

lemma UpdateAPIKey_wf:
  assumes "wfDB db"
  shows "wfDB (fst (UpdateAPIKey flt now db k))"
proof -
  let ?t = "map (\<lambda>r. if akID r = akID k then updatedKey now k r else r) (apiKeysT db)"
  have "distinct (map akID ?t)" using assms by (intro distinct_updateRows) (auto simp: wfDB_def updatedKey_def)
  moreover have "distinct (map akKeyHash ?t)" if "\<not> hashClash k (apiKeysT db)"
    using updated_hash_distinct [OF _ _ that [unfolded hashClash_def], of "updatedKey now k"] assms
    by (simp add: wfDB_def updatedKey_def)
  ultimately show ?thesis using assms
    by (auto simp: UpdateAPIKey_def updateRows_def wf_simps split: wf_splits if_splits)
qed

lemmas registry_wf = nodes_wf models_wf plans_wf deployments_wf certs_wf links_wf usage_wf keys_wf UpdateAPIKey_wf

section \<open>Looking a key up by its hash\<close>

lemma GetAPIKeyByHash_eq:
  "GetAPIKeyByHash None t db h =
     (case find (\<lambda>k. akKeyHash k = h \<and> liveKey t k) (apiKeysT db) of None \<Rightarrow> Inl ErrNotFound | Some k \<Rightarrow> Inr (scanAPIKey k))"
  by (simp add: GetAPIKeyByHash_def split: option.split)

lemma find_append_fresh:
  "\<not> (\<exists>x \<in> set xs. P x) \<Longrightarrow> find P (xs @ [y]) = (if P y then Some y else None)"
  by (induction xs) auto

lemma find_append_skip: "\<not> P y \<Longrightarrow> find P (xs @ [y]) = find P xs"
  by (induction xs) auto

lemma CreateAPIKey_ok:
  assumes "CreateAPIKey None now db k = (db', k', None)"
  shows "akKeyHash k \<notin> akKeyHash ` set (apiKeysT db)" "apiKeysT db' = apiKeysT db @ [storedKey now k]"
  using assms keys.create_law [OF assms]
  by (auto simp: CreateAPIKey_def exec_def insertAPIKey_def apiKeyRow_def Let_def split: if_splits sum.splits)

lemma storedKey_sel [simp]:
  "akKeyHash (storedKey now k) = akKeyHash k" "akID (storedKey now k) = akID k" "akEnabled (storedKey now k) = akEnabled k"
  "liveKey t (storedKey now k) = akEnabled k"
  by (simp_all add: storedKey_def apiKeyRow_def liveKey_def)

lemma GetAPIKeyByHash_None: "h \<notin> akKeyHash ` set (apiKeysT db) \<Longrightarrow> GetAPIKeyByHash None t db h = Inl ErrNotFound"
proof -
  assume "h \<notin> akKeyHash ` set (apiKeysT db)"
  then have "find (\<lambda>k. akKeyHash k = h \<and> liveKey t k) (apiKeysT db) = None" by (auto simp: find_None_iff)
  then show ?thesis by (simp add: GetAPIKeyByHash_eq)
qed

lemma GetAPIKeyByHash_create:
  assumes "CreateAPIKey None now db k = (db', k', None)"
  shows "GetAPIKeyByHash None t db' h =
    (if h = akKeyHash k then (if akEnabled k then Inr (scanAPIKey (storedKey now k)) else Inl ErrNotFound)
     else GetAPIKeyByHash None t db h)"
proof (cases "h = akKeyHash k")
  case True
  have "\<not> (\<exists>x \<in> set (apiKeysT db). akKeyHash x = akKeyHash k \<and> liveKey t x)" using CreateAPIKey_ok(1) [OF assms] by (metis image_eqI)
  from find_append_fresh [OF this, of "storedKey now k"] show ?thesis
    using True CreateAPIKey_ok(2) [OF assms] by (simp add: GetAPIKeyByHash_eq)
next
  case False
  then have "find (\<lambda>k. akKeyHash k = h \<and> liveKey t k) (apiKeysT db @ [storedKey now k]) =
      find (\<lambda>k. akKeyHash k = h \<and> liveKey t k) (apiKeysT db)"
    by (intro find_append_skip) simp
  then show ?thesis using False CreateAPIKey_ok(2) [OF assms] by (simp add: GetAPIKeyByHash_eq)
qed

lemma GetAPIKeyByHash_delete:
  assumes "wfDB db" "x \<in> set (apiKeysT db)" "DeleteAPIKey None db (akID x) = (db', e)"
  shows "GetAPIKeyByHash None t db' (akKeyHash x) = Inl ErrNotFound"
proof (rule GetAPIKeyByHash_None, rule notI)
  assume "akKeyHash x \<in> akKeyHash ` set (apiKeysT db')"
  then obtain y where y: "y \<in> set (apiKeysT db')" "akKeyHash y = akKeyHash x" by (metis imageE)
  have "apiKeysT db' = filter (\<lambda>r. akID r \<noteq> akID x) (apiKeysT db)" using keys.delete_law [OF assms(3)] by simp
  then have "y \<in> set (apiKeysT db)" "akID y \<noteq> akID x" using y(1) by simp_all
  moreover have "inj_on akKeyHash (set (apiKeysT db))" using assms(1) by (simp add: wfDB_def distinct_map)
  ultimately show False using y(2) assms(2) by (metis inj_onD)
qed

lemma UpdateAPIKey_ok:
  assumes "UpdateAPIKey None now db k = (db', k', None)"
  shows "akID k \<in> akID ` set (apiKeysT db)"
    "r \<in> set (apiKeysT db) \<Longrightarrow> akKeyHash r = akKeyHash k \<Longrightarrow> akID r = akID k"
    "apiKeysT db' = map (\<lambda>r. if akID r = akID k then updatedKey now k r else r) (apiKeysT db)"
proof -
  have no: "\<not> hashClash k (apiKeysT db)" using assms by (auto simp: UpdateAPIKey_def exec_def)
  then have eq: "db' = db\<lparr>apiKeysT := map (\<lambda>r. if akID r = akID k then updatedKey now k r else r) (apiKeysT db)\<rparr>"
      "mustAffect (length (filter (\<lambda>r. akID r = akID k) (apiKeysT db))) = None"
    using assms by (simp_all add: UpdateAPIKey_def exec_def updateRows_def)
  then show "akID k \<in> akID ` set (apiKeysT db)" by (simp add: mustAffect_iff)
  with no show "r \<in> set (apiKeysT db) \<Longrightarrow> akKeyHash r = akKeyHash k \<Longrightarrow> akID r = akID k" unfolding hashClash_def by blast
  show "apiKeysT db' = map (\<lambda>r. if akID r = akID k then updatedKey now k r else r) (apiKeysT db)" by (simp add: eq(1))
qed

lemma GetAPIKeyByHash_disabled:
  assumes "\<not> akEnabled k" "UpdateAPIKey None now db k = (db', k', None)"
  shows "GetAPIKeyByHash None t db' (akKeyHash k) = Inl ErrNotFound"
proof -
  have "\<not> (akKeyHash y = akKeyHash k \<and> liveKey t y)" if y: "y \<in> set (apiKeysT db')" for y
  proof -
    obtain r where r: "r \<in> set (apiKeysT db)" "y = (if akID r = akID k then updatedKey now k r else r)"
      using y unfolding UpdateAPIKey_ok(3) [OF assms(2)] by auto
    show ?thesis using UpdateAPIKey_ok(2) [OF assms(2) r(1)] r(2) assms(1)
      by (cases "akID r = akID k") (auto simp: updatedKey_def liveKey_def)
  qed
  then have "find (\<lambda>y. akKeyHash y = akKeyHash k \<and> liveKey t y) (apiKeysT db') = None"
    unfolding find_None_iff by blast
  then show ?thesis by (simp add: GetAPIKeyByHash_eq)
qed

section \<open>Properties\<close>



end
