(* ===== verification/Planning.thy ===== *)
theory Planning
  imports Convert Registry
begin

text \<open>
  The control plane's adapter between the registry and the planner,
  \<^verbatim>\<open>src/go/controlplane/planning/planning.go\<close>.

  The registry is the interface the adapter reads: a record of the results its calls give
  (\<open>RegistryReads\<close>), which \<open>sqliteReads\<close> builds from a state of the tables in \<open>Registry\<close>. \<^verbatim>\<open>protojson.Unmarshal\<close>, which is not part of the repository, is the pair of
  functions \<open>decodeHW\<close> and \<open>decodeSpec\<close>, from the stored bytes to a message or an error. The planner's
  environment (the context's polls, the order in which failover results arrive, the threshold)
  is the record \<open>PlanEnv\<close>.
\<close>

section \<open>What the adapter reads\<close>

record RegistryReads =
  regGetModel :: "string \<Rightarrow> reg_err + RModel"
  regListModels :: "reg_err + RModel list"
  regListNodes :: "reg_err + RNode list"
  regListLinks :: "reg_err + RLink list"

text \<open>The reads as the SQLite registry answers them on a database state.\<close>

definition sqliteReads :: "string option \<Rightarrow> DB \<Rightarrow> RegistryReads" where
  "sqliteReads flt db = \<lparr>regGetModel = GetModel flt db, regListModels = ListModels flt db,
     regListNodes = ListNodes flt db, regListLinks = ListLinks flt db\<rparr>"

record Decoders =
  decodeHW :: "string \<Rightarrow> string + PbHardwareProfile"
  decodeSpec :: "string \<Rightarrow> string + PbModelSpec"

record PlanEnv =
  peArrival :: "string list \<Rightarrow> string list"
  peCtx :: "nat \<Rightarrow> bool"
  peAltCtx :: "string \<Rightarrow> nat \<Rightarrow> bool"
  peThreshold :: int

section \<open>Errors and verdicts\<close>

record FitError =
  feReason :: reason
  feDeficitGB :: float64
  feSuggestions :: "string list"

datatype planning_err =
  RegistryErr reg_err
| ListNodesErr reg_err
| ListLinksErr reg_err
| DecodeHardwareErr string string
| DecodeSpecErr string string
| FitErr FitError
| PlannerErr plan_err

datatype fit_reason = NoReason | PlanReason reason | ErrText planning_err

record EstimateRange =
  DecodeMinTokS :: float64
  DecodeMaxTokS :: float64
  PrefillMinTokS :: float64
  PrefillMaxTokS :: float64
  erHeadroomGB :: float64

record Fit =
  fModelID :: string
  Deployable :: bool
  NodeCount :: nat
  fQuantization :: string
  fEstimated :: "EstimateRange option"
  fDeficitGB :: float64
  fReason :: fit_reason
  fSuggestions :: "string list"

section \<open>The operations\<close>

definition readyStates :: "string set" where
  "readyStates = {''NODE_STATE_READY'', ''NODE_STATE_RUNNING''}"

definition hasJSON :: "string \<Rightarrow> bool" where
  "hasJSON b \<longleftrightarrow> 0 < length b \<and> b \<noteq> ''{}'' \<and> b \<noteq> ''null''"

definition zeroHardwareProfile :: PbHardwareProfile where
  "zeroHardwareProfile = \<lparr>phNodeId = '''', phBackends = [], phGpus = [], phRamTotalGb = 0, phRamAvailableGb = 0,
     phMemBandwidthGbs = 0, phDiskFreeGb = 0, phEngineVersions = Map.empty, phPrefixCachingFactor = 0,
     phKvSsdOffload = False\<rparr>"

definition zeroPbModelSpec :: PbModelSpec where
  "zeroPbModelSpec = \<lparr>pmModelId = '''', pmFamily = '''', pmArchitecture = '''', pmParamsTotalB = 0,
     pmParamsActiveB = 0, pmLayers = 0, pmHiddenSize = 0, pmNKvHeads = 0, pmHeadDim = 0, pmAttentionType = 0,
     pmContextMax = 0, pmIsMoe = False, pmDraft = None, pmQuantizations = [], pmEngine = ''''\<rparr>"

text \<open>The fallbacks \<^verbatim>\<open>plannerNode\<close> applies to the converted profile, in the order of the code.\<close>

definition nodeFallbacks :: "RNode \<Rightarrow> Node \<Rightarrow> Node" where
  "nodeFallbacks rn n0 =
     (let n1 = (if nodeID n0 = '''' then n0\<lparr>nodeID := rnID rn\<rparr> else n0);
          n2 = (if RAMTotalGB n1 = 0 then n1\<lparr>RAMTotalGB := rnRAMGB rn\<rparr> else n1);
          n3 = (if RAMAvailableGB n2 = 0
                then (if RAMTotalGB n2 > 0 then n2\<lparr>RAMAvailableGB := RAMTotalGB n2\<rparr>
                      else n2\<lparr>RAMAvailableGB := rnRAMGB rn\<rparr>)
                else n2)
      in if VRAMGB n3 = 0 then n3\<lparr>VRAMGB := rnVRAMGB rn\<rparr> else n3)"

definition plannerNode :: "Decoders \<Rightarrow> RNode \<Rightarrow> planning_err + Node" where
  "plannerNode D rn =
     (case (if hasJSON (rnHardwareProfile rn) then decodeHW D (rnHardwareProfile rn) else Inr zeroHardwareProfile) of
       Inl err \<Rightarrow> Inl (DecodeHardwareErr (rnID rn) err)
     | Inr hw \<Rightarrow> Inr (nodeFallbacks rn (NodeFromHardwareProfile (Some hw))))"

definition modelSpec :: "Decoders \<Rightarrow> RModel \<Rightarrow> planning_err + ModelSpec" where
  "modelSpec D m =
     (case (if hasJSON (rmSpec m) then decodeSpec D (rmSpec m) else Inr zeroPbModelSpec) of
       Inl err \<Rightarrow> Inl (DecodeSpecErr (rmID m) err)
     | Inr spec \<Rightarrow>
         (let ms = ModelSpecFromProto (Some spec) in
          Inr (if modelID ms = '''' then ms\<lparr>modelID := rmID m\<rparr> else ms)))"

fun nodeLoop :: "Decoders \<Rightarrow> RNode list \<Rightarrow> Node list \<Rightarrow> planning_err + Node list" where
  "nodeLoop D [] nodes = Inr nodes"
| "nodeLoop D (rn # rns) nodes =
     (if rnState rn \<notin> readyStates then nodeLoop D rns nodes
      else case plannerNode D rn of
             Inl err \<Rightarrow> Inl err
           | Inr n \<Rightarrow> nodeLoop D rns (nodes @ [n]))"

definition linkOf :: "RLink \<Rightarrow> Link" where
  "linkOf rl = LinkFromMetric (Some \<lparr>plFromNode = rlFromNode rl, plToNode = rlToNode rl,
     plBandwidthGbs = rlBandwidthGBs rl, plRttMs = rlRTTMs rl\<rparr>)"

definition loadFleet :: "Decoders \<Rightarrow> RegistryReads \<Rightarrow> planning_err + (Node list \<times> Link list)" where
  "loadFleet D reg =
     (case regListNodes reg of
       Inl err \<Rightarrow> Inl (ListNodesErr err)
     | Inr regNodes \<Rightarrow>
         (case nodeLoop D regNodes [] of
           Inl err \<Rightarrow> Inl err
         | Inr nodes \<Rightarrow>
             (case regListLinks reg of
               Inl err \<Rightarrow> Inl (ListLinksErr err)
             | Inr regLinks \<Rightarrow> Inr (nodes, map linkOf regLinks))))"

definition ModelSpecFor :: "Decoders \<Rightarrow> RegistryReads \<Rightarrow> string \<Rightarrow> planning_err + ModelSpec" where
  "ModelSpecFor D reg i = (case regGetModel reg i of Inl err \<Rightarrow> Inl (RegistryErr err) | Inr m \<Rightarrow> modelSpec D m)"

text \<open>\<^verbatim>\<open>errors.As\<close> finds a \<^verbatim>\<open>*PlanError\<close> through the wrapping errors.\<close>

fun asPlanError :: "plan_err \<Rightarrow> PlanError option" where
  "asPlanError CtxErr = None"
| "asPlanError (PlanErr e) = Some e"
| "asPlanError (BadReplicaCount k) = None"
| "asPlanError (ModelDoesNotFitFleet e) = asPlanError e"
| "asPlanError (ReplicaFailed i e) = asPlanError e"

definition toFitError :: "plan_err \<Rightarrow> planning_err" where
  "toFitError err =
     (case asPlanError err of
       Some pe \<Rightarrow> FitErr \<lparr>feReason = Reason pe, feDeficitGB = DeficitGB pe, feSuggestions = Suggestions pe\<rparr>
     | None \<Rightarrow> PlannerErr err)"

definition planWith :: "PlanEnv \<Rightarrow> Node list \<Rightarrow> Link list \<Rightarrow> ModelSpec \<Rightarrow> Constraints \<Rightarrow> (plan_err + DeploymentPlan) go" where
  "planWith env nodes links spec c = Plan (peArrival env) (peCtx env) (peAltCtx env) (peThreshold env) nodes links spec c"

definition Planner_Plan ::
  "PlanEnv \<Rightarrow> Decoders \<Rightarrow> RegistryReads \<Rightarrow> string \<Rightarrow> Constraints \<Rightarrow> (planning_err + PbDeploymentPlan option) go" where
  "Planner_Plan env D reg i c =
     (case regGetModel reg i of
       Inl err \<Rightarrow> Some (Inl (RegistryErr err))
     | Inr model \<Rightarrow>
         (case modelSpec D model of
           Inl err \<Rightarrow> Some (Inl err)
         | Inr spec \<Rightarrow>
             (case loadFleet D reg of
               Inl err \<Rightarrow> Some (Inl err)
             | Inr (nodes, links) \<Rightarrow>
                 map_option (\<lambda>r. case r of
                     Inl perr \<Rightarrow> Inl (toFitError perr)
                   | Inr dp \<Rightarrow> Inr (DeploymentPlan_ToProto (Some dp)))
                   (planWith env nodes links spec c))))"

definition zeroConstraints :: Constraints where
  "zeroConstraints = \<lparr>Pinned = [], IncludeNodes = [], ExcludeNodes = [], ForceNodeCount = None,
     ForceQuant = None, ForceHost = None, QualityWeightBias = 0, mode = ModeAuto, ReplicaCount = 0,
     AllowedNodeIDs = []\<rparr>"

definition newFit :: "string \<Rightarrow> Fit" where
  "newFit i = \<lparr>fModelID = i, Deployable = False, NodeCount = 0, fQuantization = '''', fEstimated = None,
     fDeficitGB = 0, fReason = NoReason, fSuggestions = []\<rparr>"

text \<open>The projection of the planner's outcome in \<^verbatim>\<open>fit\<close>.\<close>

definition fitOutcome :: "Fit \<Rightarrow> plan_err + DeploymentPlan \<Rightarrow> Fit" where
  "fitOutcome f r =
     (case r of
       Inl perr \<Rightarrow>
         (case asPlanError perr of
           Some pe \<Rightarrow> f\<lparr>fReason := PlanReason (Reason pe), fDeficitGB := DeficitGB pe, fSuggestions := Suggestions pe\<rparr>
         | None \<Rightarrow> f\<lparr>fReason := ErrText (PlannerErr perr)\<rparr>)
     | Inr dp \<Rightarrow>
         f\<lparr>Deployable := True, NodeCount := length (PipelineOrder dp), fQuantization := QuantizationName dp,
           fEstimated := Some \<lparr>DecodeMinTokS = DecodeTokSMin (Estimated dp), DecodeMaxTokS = DecodeTokSMax (Estimated dp),
             PrefillMinTokS = PrefillTokSMin (Estimated dp), PrefillMaxTokS = PrefillTokSMax (Estimated dp),
             erHeadroomGB = HeadroomGB (Estimated dp)\<rparr>\<rparr>)"

definition fit :: "PlanEnv \<Rightarrow> Decoders \<Rightarrow> RModel \<Rightarrow> Node list \<Rightarrow> Link list \<Rightarrow> Fit go" where
  "fit env D model nodes links =
     (case modelSpec D model of
       Inl err \<Rightarrow> Some ((newFit (rmID model))\<lparr>fReason := ErrText err\<rparr>)
     | Inr spec \<Rightarrow> map_option (fitOutcome (newFit (rmID model))) (planWith env nodes links spec zeroConstraints))"

definition Planner_Fit :: "PlanEnv \<Rightarrow> Decoders \<Rightarrow> RegistryReads \<Rightarrow> string \<Rightarrow> (planning_err + Fit) go" where
  "Planner_Fit env D reg i =
     (case regGetModel reg i of
       Inl err \<Rightarrow> Some (Inl (RegistryErr err))
     | Inr model \<Rightarrow>
         (case loadFleet D reg of
           Inl err \<Rightarrow> Some (Inl err)
         | Inr (nodes, links) \<Rightarrow> map_option Inr (fit env D model nodes links)))"

fun fitLoop :: "PlanEnv \<Rightarrow> Decoders \<Rightarrow> Node list \<Rightarrow> Link list \<Rightarrow> RModel list \<Rightarrow> Fit list go" where
  "fitLoop env D nodes links [] = Some []"
| "fitLoop env D nodes links (m # ms) =
     Option.bind (fit env D m nodes links) (\<lambda>f. map_option (Cons f) (fitLoop env D nodes links ms))"

definition FitAll :: "PlanEnv \<Rightarrow> Decoders \<Rightarrow> RegistryReads \<Rightarrow> (planning_err + Fit list) go" where
  "FitAll env D reg =
     (case regListModels reg of
       Inl err \<Rightarrow> Some (Inl (RegistryErr err))
     | Inr models \<Rightarrow>
         (case loadFleet D reg of
           Inl err \<Rightarrow> Some (Inl err)
         | Inr (nodes, links) \<Rightarrow> map_option Inr (fitLoop env D nodes links models)))"

section \<open>Reference notions\<close>

text \<open>A registry with two ready nodes, one that is not, and the example model.\<close>

definition exRegModel :: RModel where
  "exRegModel = \<lparr>rmID = ''m'', rmFamily = '''', rmArchitecture = '''', rmParamsTotalB = 10, rmEngine = '''', rmType = '''',
     rmSpec = ''spec'', rmSource = ''{}'', rmCreatedAt = zeroTime, rmUpdatedAt = zeroTime\<rparr>"

definition exRegNode :: "string \<Rightarrow> string \<Rightarrow> RNode" where
  "exRegNode i s = \<lparr>rnID = i, rnHostname = i, rnOS = ''linux'', rnArch = ''amd64'', rnRAMGB = 16, rnVRAMGB = 0, rnState = s,
     rnAgentAddr = '''', rnInferenceAddr = '''', rnLastSeen = zeroTime, rnHardwareProfile = ''hw'',
     rnCreatedAt = zeroTime, rnUpdatedAt = zeroTime\<rparr>"

definition exReg :: RegistryReads where
  "exReg = sqliteReads None (emptyDB\<lparr>modelsT := [exRegModel],
     nodesT := [exRegNode ''a'' ''NODE_STATE_READY'', exRegNode ''b'' ''NODE_STATE_RUNNING'',
       exRegNode ''x'' ''NODE_STATE_PENDING'']\<rparr>)"

definition exDecoders :: Decoders where
  "exDecoders = \<lparr>decodeHW = (\<lambda>_. Inr (zeroHardwareProfile\<lparr>phMemBandwidthGbs := 100\<rparr>)),
     decodeSpec = (\<lambda>_. Inr (the (ModelSpec_ToProto exModel)))\<rparr>"

definition exEnv :: PlanEnv where
  "exEnv = \<lparr>peArrival = id, peCtx = (\<lambda>_. False), peAltCtx = (\<lambda>_ _. False), peThreshold = 10\<rparr>"

section \<open>The loaded fleet\<close>

lemma nodeLoop_nodes:
  "nodeLoop D rns acc = Inr nodes \<Longrightarrow>
   map Inr nodes = map Inr acc @ map (plannerNode D) (filter (\<lambda>rn. rnState rn \<in> readyStates) rns)"
  by (induction D rns acc rule: nodeLoop.induct) (auto split: if_splits sum.splits)

lemma loadFleet_nodes:
  assumes "loadFleet D reg = Inr (nodes, links)" "regListNodes reg = Inr rns"
  shows "map Inr nodes = map (plannerNode D) (filter (\<lambda>rn. rnState rn \<in> readyStates) rns)"
  using assms nodeLoop_nodes [of D rns "[]" nodes] by (auto simp: loadFleet_def split: sum.splits)

lemma nodeFallbacks_profile:
  "nodeID n \<noteq> '''' \<Longrightarrow> nodeID (nodeFallbacks rn n) = nodeID n"
  "nodeID n = '''' \<Longrightarrow> nodeID (nodeFallbacks rn n) = rnID rn"
  by (simp_all add: nodeFallbacks_def Let_def)

lemma modelSpec_fits32: "modelSpec D m = Inr spec \<Longrightarrow> fits32 (Layers spec)"
  by (auto simp: modelSpec_def ModelSpecFromProto_def Let_def split: sum.splits if_splits)

lemma withoutFailover_sel [simp]:
  "PlanID (withoutFailover p) = PlanID p" "ModelID (withoutFailover p) = ModelID p"
  "QuantizationName (withoutFailover p) = QuantizationName p"
  "Assignments (withoutFailover p) = Assignments p" "PipelineOrder (withoutFailover p) = PipelineOrder p"
  "Cost (withoutFailover p) = Cost p" "Estimated (withoutFailover p) = Estimated p"
  "Explanation (withoutFailover p) = Explanation p" "FailoverAlt (withoutFailover p) = Map.empty"
  by (cases p; simp)+

lemma validPlan_withoutFailover [simp]: "validPlan fleet model (withoutFailover p) = validPlan fleet model p"
  by (simp add: validPlan_def)

lemma Planner_Plan_Inr:
  assumes "Planner_Plan env D reg i c = Some (Inr w)"
  obtains model spec nodes links dp where "regGetModel reg i = Inr model" "modelSpec D model = Inr spec"
    "loadFleet D reg = Inr (nodes, links)" "planWith env nodes links spec c = Some (Inr dp)"
    "w = DeploymentPlan_ToProto (Some dp)"
  using assms by (auto simp: Planner_Plan_def split: sum.splits)

lemma Planner_Fit_Inr:
  assumes "Planner_Fit env D reg i = Some (Inr f)"
  obtains model nodes links where "regGetModel reg i = Inr model" "loadFleet D reg = Inr (nodes, links)"
    "fit env D model nodes links = Some f"
  using assms by (auto simp: Planner_Fit_def split: sum.splits)

lemma fitOutcome_Deployable [simp]: "Deployable (fitOutcome (newFit i) r) \<longleftrightarrow> (\<exists>dp. r = Inr dp)"
  by (cases r) (simp_all add: fitOutcome_def newFit_def split: option.splits)

lemma fitOutcome_ModelID [simp]: "fModelID (fitOutcome f r) = fModelID f"
  by (cases r) (simp_all add: fitOutcome_def split: option.splits)

lemma fit_ModelID: "fit env D m nodes links = Some f \<Longrightarrow> fModelID f = rmID m"
  by (auto simp: fit_def newFit_def split: sum.splits)

lemma fitLoop_nth:
  "fitLoop env D nodes links ms = Some fs \<Longrightarrow> length fs = length ms \<and> (\<forall>k < length ms. fit env D (ms ! k) nodes links = Some (fs ! k))"
proof (induction ms arbitrary: fs)
  case (Cons m ms)
  then obtain f fs' where *: "fit env D m nodes links = Some f" "fitLoop env D nodes links ms = Some fs'" "fs = f # fs'"
    by (auto simp: bind_eq_Some_conv)
  with Cons.IH [of fs'] show ?case by (auto simp: nth_Cons' less_Suc_eq_0_disj)
qed simp

section \<open>The example registry\<close>

lemmas example_reg_defs = exReg_def sqliteReads_def GetModel_def ListModels_def ListNodes_def ListLinks_def exec_def selectRow_def
  emptyDB_def exRegNode_def exRegModel_def

lemma example_spec: "modelSpec exDecoders exRegModel = Inr exModel"
proof -
  have "wireModel exModel" by (simp add: wireModel_def exModel_def fits32_def)
  from ModelSpec_roundtrip [OF this]
  have "ModelSpecFromProto (Some (the (ModelSpec_ToProto exModel))) = exModel"
    by (simp add: ModelSpec_ToProto_def exModel_def)
  then show ?thesis by (simp add: modelSpec_def exDecoders_def exRegModel_def hasJSON_def Let_def exModel_def)
qed

lemma example_load: "loadFleet exDecoders exReg = Inr ([exNode ''a'' 16, exNode ''b'' 16], [])"
  by (simp add: loadFleet_def example_reg_defs exDecoders_def plannerNode_def readyStates_def hasJSON_def
      nodeFallbacks_def Let_def NodeFromHardwareProfile_def zeroHardwareProfile_def gpuLoop_def exNode_def zeroNode_def)

lemma example_get: "regGetModel exReg ''m'' = Inr exRegModel"
  by (simp add: example_reg_defs)

lemma example_planWith:
  "\<exists>p. planWith exEnv [exNode ''a'' 16, exNode ''b'' 16] [] exModel zeroConstraints = Some (Inr p) \<and>
     PipelineOrder p = [''a'', ''b'']"
  using example_plan by (simp add: planWith_def exEnv_def zeroConstraints_def noConstraints_def)

lemma example_Planner_Plan: "\<exists>w. Planner_Plan exEnv exDecoders exReg ''m'' zeroConstraints = Some (Inr w)"
  using example_planWith by (auto simp: Planner_Plan_def example_get example_spec example_load)

lemma example_fit: "\<exists>f. fit exEnv exDecoders exRegModel [exNode ''a'' 16, exNode ''b'' 16] [] = Some f"
  using example_planWith by (auto simp: fit_def example_spec)

section \<open>Properties\<close>



text \<open>C15: The verdict on a model and planning it agree: it is deployable exactly when planning it without
  constraints returns a plan, and then the verdict has the plan's quantization and number of stages.\<close>

theorem Planner_Fit_agrees:
  assumes "Planner_Fit env D reg i = Some (Inr f)"
  shows "(Deployable f \<longleftrightarrow> (\<exists>w. Planner_Plan env D reg i zeroConstraints = Some (Inr w))) \<and>
    (\<forall>w. Planner_Plan env D reg i zeroConstraints = Some (Inr (Some w)) \<longrightarrow>
       NodeCount f = length (ppPipelineOrder w) \<and> fQuantization f = ppQuantization w \<and> fReason f = NoReason) \<and>
    (\<forall>fe. Planner_Plan env D reg i zeroConstraints = Some (Inl (FitErr fe)) \<longrightarrow>
       fReason f = PlanReason (feReason fe) \<and> fDeficitGB f = feDeficitGB fe \<and> fSuggestions f = feSuggestions fe)"
proof -
  obtain model nodes links where *: "regGetModel reg i = Inr model" "loadFleet D reg = Inr (nodes, links)"
    "fit env D model nodes links = Some f" by (rule Planner_Fit_Inr [OF assms])
  show ?thesis
  proof (cases "modelSpec D model")
    case (Inl e)
    with * have "f = (newFit (rmID model))\<lparr>fReason := ErrText e\<rparr>" by (simp add: fit_def)
    moreover have "e \<noteq> FitErr fe" for fe using Inl by (auto simp: modelSpec_def Let_def split: sum.splits)
    ultimately show ?thesis using * Inl by (simp add: Planner_Plan_def newFit_def)
  next
    case (Inr spec)
    with * obtain r where r: "planWith env nodes links spec zeroConstraints = Some r" "f = fitOutcome (newFit (rmID model)) r"
      by (auto simp: fit_def)
    have plan: "Planner_Plan env D reg i zeroConstraints =
        Some (case r of Inl perr \<Rightarrow> Inl (toFitError perr) | Inr dp \<Rightarrow> Inr (DeploymentPlan_ToProto (Some dp)))"
      using * Inr r by (simp add: Planner_Plan_def)
    show ?thesis unfolding plan r(2)
      by (cases r) (auto simp: fitOutcome_def newFit_def toFitError_def DeploymentPlan_ToProto_def split: option.splits)
  qed
qed

theorem Planner_Fit_agrees_witness:
  "\<exists>f w. Planner_Fit exEnv exDecoders exReg ''m'' = Some (Inr f) \<and> Deployable f \<and>
     Planner_Plan exEnv exDecoders exReg ''m'' zeroConstraints = Some (Inr w)"
proof -
  obtain f where f: "Planner_Fit exEnv exDecoders exReg ''m'' = Some (Inr f)"
    using example_fit by (auto simp: Planner_Fit_def example_get example_load)
  obtain w where w: "Planner_Plan exEnv exDecoders exReg ''m'' zeroConstraints = Some (Inr w)"
    using example_Planner_Plan by blast
  from Planner_Fit_agrees [OF f] f w show ?thesis by blast
qed

text \<open>C16: Listing the verdicts of all models gives, in the order of the catalogue, the verdict that asking for each
  model alone gives.\<close>

theorem FitAll_pointwise:
  assumes "regListModels reg = Inr models" "FitAll env D reg = Some (Inr fs)" "k < length models"
    "regGetModel reg (rmID (models ! k)) = Inr (models ! k)"
  shows "map fModelID fs = map rmID models \<and> Planner_Fit env D reg (rmID (models ! k)) = Some (Inr (fs ! k))"
proof -
  obtain nodes links where *: "loadFleet D reg = Inr (nodes, links)" "fitLoop env D nodes links models = Some fs"
    using assms(1,2) by (auto simp: FitAll_def split: sum.splits)
  have nth: "length fs = length models" "\<And>k. k < length models \<Longrightarrow> fit env D (models ! k) nodes links = Some (fs ! k)"
    using fitLoop_nth [OF *(2)] by auto
  have "map fModelID fs = map rmID models"
    by (rule nth_equalityI) (simp_all add: nth fit_ModelID [OF nth(2)])
  then show ?thesis using assms(3,4) * nth(2) by (simp add: Planner_Fit_def)
qed

theorem FitAll_pointwise_witness:
  "\<exists>fs. FitAll exEnv exDecoders exReg = Some (Inr fs) \<and> map fModelID fs = [''m''] \<and>
     Planner_Fit exEnv exDecoders exReg ''m'' = Some (Inr (fs ! 0))"
proof -
  have list: "regListModels exReg = Inr [exRegModel]" by (simp add: example_reg_defs)
  have i: "rmID exRegModel = ''m''" by (simp add: exRegModel_def)
  obtain fs where fs: "FitAll exEnv exDecoders exReg = Some (Inr fs)"
    using example_fit by (auto simp: FitAll_def list example_load)
  have "regGetModel exReg (rmID ([exRegModel] ! 0)) = Inr ([exRegModel] ! 0)" using example_get by (simp add: i)
  from FitAll_pointwise [OF list fs _ this] fs i show ?thesis by auto
qed

end
