(* ===== verification/Permissions.thy ===== *)
theory Permissions
  imports GoLib
begin

text \<open>
  The permission engine, \<^verbatim>\<open>src/go/controlplane/permissions\<close>: the catalogue of permissions, the check of a
  required permission against an effective set with its wildcards, the built-in roles, the permissions of
  a legacy key, and the merge of permission sets.
\<close>

section \<open>Catalogue\<close>

record PermDesc =
  Key :: string
  Description :: string
  Scope :: string

definition All :: "PermDesc list" where
  "All =
     [\<lparr>Key = ''platform:users:view'', Description = ''List and read platform users'', Scope = ''platform''\<rparr>,
      \<lparr>Key = ''platform:users:manage'', Description = ''Create and deactivate platform users'', Scope = ''platform''\<rparr>,
      \<lparr>Key = ''platform:orgs:view'', Description = ''List and read organisations'', Scope = ''platform''\<rparr>,
      \<lparr>Key = ''platform:orgs:manage'', Description = ''Create and manage organisations'', Scope = ''platform''\<rparr>,
      \<lparr>Key = ''platform:audit:view'', Description = ''Read the platform-level audit log'', Scope = ''platform''\<rparr>,
      \<lparr>Key = ''org:members:view'', Description = ''List org members'', Scope = ''org''\<rparr>,
      \<lparr>Key = ''org:members:manage'', Description = ''Add and remove org members'', Scope = ''org''\<rparr>,
      \<lparr>Key = ''org:roles:view'', Description = ''List custom roles in an org'', Scope = ''org''\<rparr>,
      \<lparr>Key = ''org:roles:manage'', Description = ''Create, edit, and delete custom roles in an org'', Scope = ''org''\<rparr>,
      \<lparr>Key = ''org:teams:view'', Description = ''List teams within an org'', Scope = ''org''\<rparr>,
      \<lparr>Key = ''org:teams:manage'', Description = ''Create and manage teams within an org'', Scope = ''org''\<rparr>,
      \<lparr>Key = ''org:billing:view'', Description = ''View billing and quota information'', Scope = ''org''\<rparr>,
      \<lparr>Key = ''org:billing:manage'', Description = ''Adjust billing limits and quotas'', Scope = ''org''\<rparr>,
      \<lparr>Key = ''org:audit:view'', Description = ''Read the org-level audit log'', Scope = ''org''\<rparr>,
      \<lparr>Key = ''org:policy:view'', Description = ''Read OPA/Rego policies in an org'', Scope = ''org''\<rparr>,
      \<lparr>Key = ''org:policy:manage'', Description = ''Create and edit policies within an org'', Scope = ''org''\<rparr>,
      \<lparr>Key = ''team:models:view'', Description = ''List models registered to the team'', Scope = ''team''\<rparr>,
      \<lparr>Key = ''team:models:deploy'', Description = (''Deploy models to the team'' @ [CHR 0x27] @ ''s node pool''), Scope = ''team''\<rparr>,
      \<lparr>Key = ''team:models:delete'', Description = ''Remove model deployments in the team'', Scope = ''team''\<rparr>,
      \<lparr>Key = ''team:nodes:view'', Description = ''List nodes registered to the team'', Scope = ''team''\<rparr>,
      \<lparr>Key = ''team:nodes:manage'', Description = ''Enroll and drain nodes in the team'', Scope = ''team''\<rparr>,
      \<lparr>Key = ''team:metrics:view'', Description = (''Read live metrics for the team'' @ [CHR 0x27] @ ''s resources''), Scope = ''team''\<rparr>,
      \<lparr>Key = ''team:audit:view'', Description = ''Read the team-level audit log'', Scope = ''team''\<rparr>,
      \<lparr>Key = ''team:apikeys:view'', Description = ''List API keys scoped to the team'', Scope = ''team''\<rparr>,
      \<lparr>Key = ''team:apikeys:manage'', Description = ''Create and revoke API keys in the team'', Scope = ''team''\<rparr>,
      \<lparr>Key = ''team:config:view'', Description = (''Read the team'' @ [CHR 0x27] @ ''s desired-state config''), Scope = ''team''\<rparr>,
      \<lparr>Key = ''team:config:apply'', Description = ''Apply config-as-code to the team'', Scope = ''team''\<rparr>,
      \<lparr>Key = ''team:approval:vote'', Description = ''Cast an approval vote for team deployments'', Scope = ''team''\<rparr>,
      \<lparr>Key = ''inference:call'', Description = ''Call the inference API (/v1/...)'', Scope = ''inference''\<rparr>,
      \<lparr>Key = ''inference:stream'', Description = ''Stream inference responses'', Scope = ''inference''\<rparr>,
      \<lparr>Key = ''inference:audit:view'', Description = ''Read inference audit logs for the team'', Scope = ''inference''\<rparr>,
      \<lparr>Key = ''inference:usage:view'', Description = ''Read per-request token usage'', Scope = ''inference''\<rparr>,
      \<lparr>Key = ''inference:quota:manage'', Description = ''Adjust inference quotas'', Scope = ''inference''\<rparr>]"

section \<open>The check\<close>

fun Has :: "string list \<Rightarrow> string \<Rightarrow> bool" where
  "Has [] required = False"
| "Has (p # effective) required =
     (if p = required then True
      else if HasSuffix p '':*'' \<and> HasPrefix required (TrimSuffix p ''*'') then True
      else if p = ''inference:*'' \<and> HasPrefix required ''inference:'' then True
      else Has effective required)"

fun HasAll :: "string list \<Rightarrow> string list \<Rightarrow> bool" where
  "HasAll effective [] = True"
| "HasAll effective (r # required) = (if \<not> Has effective r then False else HasAll effective required)"

fun HasAny :: "string list \<Rightarrow> string list \<Rightarrow> bool" where
  "HasAny effective [] = False"
| "HasAny effective (r # required) = (if Has effective r then True else HasAny effective required)"

section \<open>Roles\<close>

record BuiltinRole =
  brID :: string
  brName :: string
  brPermissions :: "string list"

definition SystemRoles :: "BuiltinRole list" where
  "SystemRoles =
     [\<lparr>brID = ''platform_admin'', brName = ''Platform Administrator'', brPermissions =
        [''platform:orgs:create'', ''platform:orgs:delete'', ''platform:pools:manage'',
         ''platform:users:invite'', ''org:teams:create'', ''org:teams:delete'',
         ''org:members:invite'', ''org:members:remove'', ''org:roles:create'',
         ''org:roles:delete'', ''org:pools:request'', ''team:models:deploy'',
         ''team:models:undeploy'', ''team:keys:create'', ''team:keys:revoke'',
         ''team:members:view'', ''team:members:invite'', ''team:members:remove'',
         ''team:metrics:view'', ''team:approvals:view'', ''team:approvals:review'',
         ''inference:call'']\<rparr>,
      \<lparr>brID = ''org_admin'', brName = ''Organization Administrator'', brPermissions =
        [''org:teams:create'', ''org:teams:delete'', ''org:members:invite'',
         ''org:members:remove'', ''org:roles:create'', ''org:roles:delete'', ''org:pools:request'',
         ''team:models:deploy'', ''team:models:undeploy'', ''team:keys:create'',
         ''team:keys:revoke'', ''team:members:view'', ''team:members:invite'',
         ''team:members:remove'', ''team:metrics:view'', ''team:approvals:view'',
         ''team:approvals:review'', ''inference:call'']\<rparr>,
      \<lparr>brID = ''team_admin'', brName = ''Team Administrator'', brPermissions =
        [''team:models:deploy'', ''team:models:undeploy'', ''team:keys:create'',
         ''team:keys:revoke'', ''team:members:view'', ''team:members:invite'',
         ''team:members:remove'', ''team:metrics:view'', ''team:approvals:view'',
         ''team:approvals:review'', ''inference:call'']\<rparr>,
      \<lparr>brID = ''developer'', brName = ''Developer'', brPermissions =
        [''team:models:deploy'', ''team:models:undeploy'', ''team:keys:create'',
         ''team:metrics:view'', ''inference:call'']\<rparr>,
      \<lparr>brID = ''viewer'', brName = ''Viewer'', brPermissions =
        [''team:members:view'', ''team:metrics:view'', ''team:approvals:view'']\<rparr>,
      \<lparr>brID = ''inference_only'', brName = ''Inference Only'', brPermissions =
        [''inference:call'']\<rparr>]"

record Context =
  UserID :: string
  Email :: string
  TeamID :: string
  OrgID :: string
  ctxPermissions :: "string list"
  IsOrgAdmin :: bool
  IsPlatformAdmin :: bool
  LegacyAPIKeyRole :: string

text \<open>The loop that returns the permissions of the role with a given id; \<^verbatim>\<open>nil\<close> when there is none.\<close>

fun rolePerms :: "BuiltinRole list \<Rightarrow> string \<Rightarrow> string list" where
  "rolePerms [] i = []"
| "rolePerms (r # rs) i = (if brID r = i then brPermissions r else rolePerms rs i)"

definition legacyRolePerms :: "string \<Rightarrow> string list" where
  "legacyRolePerms role =
     (if role = ''admin'' then rolePerms SystemRoles ''platform_admin''
      else if role = ''viewer'' then rolePerms SystemRoles ''viewer''
      else if role = ''inference'' then [''inference:call'']
      else [])"

definition FromLegacyRole :: "string \<Rightarrow> string \<Rightarrow> Context" where
  "FromLegacyRole keyID role =
     \<lparr>UserID = keyID, Email = '''', TeamID = '''', OrgID = '''', ctxPermissions = legacyRolePerms role,
      IsOrgAdmin = False, IsPlatformAdmin = (role = ''admin''), LegacyAPIKeyRole = role\<rparr>"

section \<open>Merging\<close>

text \<open>The two nested loops with the map \<^verbatim>\<open>seen\<close>, then \<^verbatim>\<open>sort.Strings\<close>.\<close>

fun mergeLoop :: "string list \<Rightarrow> (string \<Rightarrow> bool) \<times> string list \<Rightarrow> (string \<Rightarrow> bool) \<times> string list" where
  "mergeLoop [] st = st"
| "mergeLoop (p # ps) (seen, result) =
     (if \<not> seen p then mergeLoop ps (seen(p := True), result @ [p]) else mergeLoop ps (seen, result))"

definition Merge :: "string list list \<Rightarrow> string list" where
  "Merge permSets = sort (snd (foldl (\<lambda>st ps. mergeLoop ps st) (\<lambda>_. False, []) permSets))"

section \<open>Reference notions\<close>

text \<open>What holding a permission grants: the permission itself, and with a trailing \<open>:*\<close> everything below it.\<close>

definition grants :: "string \<Rightarrow> string \<Rightarrow> bool" where
  "grants p r \<longleftrightarrow> p = r \<or> (\<exists>x t. p = x @ '':*'' \<and> r = x @ '':'' @ t)"

section \<open>Lemmas\<close>

lemma wildcard_iff:
  "HasSuffix p '':*'' \<and> HasPrefix r (TrimSuffix p ''*'') \<longleftrightarrow> (\<exists>x t. p = x @ '':*'' \<and> r = x @ '':'' @ t)"
proof -
  have "TrimSuffix (x @ '':*'') ''*'' = x @ '':''" for x
    using TrimSuffix_append [of "x @ '':''" "''*''"] by simp
  then show ?thesis by (auto simp: HasSuffix_iff HasPrefix_iff)
qed

lemma Has_iff: "Has effective r \<longleftrightarrow> (\<exists>p \<in> set effective. grants p r)"
proof (induction effective)
  case (Cons p ps)
  have "grants p r" if *: "p = ''inference:*''" "HasPrefix r ''inference:''"
  proof -
    obtain t where "r = ''inference:'' @ t" using *(2) by (auto simp only: HasPrefix_iff)
    with *(1) have eq: "p = ''inference'' @ '':*'' \<and> r = ''inference'' @ '':'' @ t" by simp
    show ?thesis unfolding grants_def by (rule disjI2, rule exI, rule exI, rule eq)
  qed
  moreover have "grants p r \<longleftrightarrow> p = r \<or> HasSuffix p '':*'' \<and> HasPrefix r (TrimSuffix p ''*'')"
    by (simp only: grants_def wildcard_iff)
  ultimately show ?case unfolding Has.simps list.set bex_simps Cons.IH by argo
qed simp

lemma HasAll_iff [simp]: "HasAll effective rs \<longleftrightarrow> (\<forall>r \<in> set rs. Has effective r)"
  by (induction rs) auto

lemma HasAny_iff [simp]: "HasAny effective rs \<longleftrightarrow> (\<exists>r \<in> set rs. Has effective r)"
  by (induction rs) auto

lemma mergeLoop_eq:
  "mergeLoop ps (\<lambda>x. x \<in> set res, res) = (\<lambda>x. x \<in> set (appendNew res ps), appendNew res ps)"
proof (induction ps arbitrary: res)
  case (Cons p ps)
  have "(\<lambda>x. x \<in> set res)(p := True) = (\<lambda>x. x \<in> set (res @ [p]))" by (rule ext) simp
  then show ?case using Cons.IH [of res] Cons.IH [of "res @ [p]"] by (simp del: set_append)
qed simp

lemma Merge_fold:
  "foldl (\<lambda>st ps. mergeLoop ps st) (\<lambda>x. x \<in> set res, res) pss =
     (\<lambda>x. x \<in> set (foldl appendNew res pss), foldl appendNew res pss)"
  by (induction pss arbitrary: res) (simp_all add: mergeLoop_eq del: set_appendNew)

lemma foldl_appendNew:
  "set (foldl appendNew res pss) = set res \<union> \<Union> (set (map set pss))"
  "distinct (foldl appendNew res pss) = distinct res"
  by (induction pss arbitrary: res) auto

lemma Merge_spec: "sorted (Merge pss) \<and> distinct (Merge pss) \<and> set (Merge pss) = \<Union> (set (map set pss))"
  using Merge_fold [of "[]" pss] foldl_appendNew [of "[]" pss] by (simp add: Merge_def)

text \<open>The catalogue is grouped by scope, but neither the scopes nor the keys within one are sorted.\<close>

lemma All_not_sorted: "\<not> sorted (map Scope All)" "\<not> sorted (map Key (filter (\<lambda>d. Scope d = ''platform'') All))"
  by code_simp+

text \<open>The administrator role, which is what a legacy key with role \<^verbatim>\<open>admin\<close> gets, holds none of the permissions
  of the catalogue's scopes platform and org.\<close>

lemma admin_lacks_catalogue:
  "filter (\<lambda>d. Scope d \<in> {''platform'', ''org''} \<and> Has (legacyRolePerms ''admin'') (Key d)) All = []"
  by code_simp

section \<open>Properties\<close>

text \<open>C17: A required permission is found exactly when some permission of the effective set is equal to it or is a
  wildcard for a prefix of it that ends in a colon; the special case for inference adds nothing.\<close>

theorem Has_correct: "Has effective r \<longleftrightarrow> (\<exists>p \<in> set effective. grants p r)"
  by (rule Has_iff)

text \<open>C18: Merging permission sets gives a sorted list without duplicates that grants exactly what one of the sets
  grants.\<close>

theorem Merge_correct:
  "sorted (Merge pss) \<and> distinct (Merge pss) \<and> (Has (Merge pss) r \<longleftrightarrow> (\<exists>ps \<in> set pss. Has ps r))"
  using Merge_spec [of pss] by (auto simp: Has_iff)


end
