(* ===== verification/Encoding.thy ===== *)
theory Encoding
  imports GoLib "HOL-Library.Word"
begin

text \<open>
  The encodings of Go's standard library that the audit chains use: \<^verbatim>\<open>crypto/sha256\<close>,
  \<^verbatim>\<open>encoding/hex\<close>, the varints and the big-endian integers of \<^verbatim>\<open>encoding/binary\<close>. A byte is a
  \<open>char\<close>, a byte slice a \<open>string\<close>.

  What the chains rely on is proved here: a digest has 32 bytes, hexadecimal text decodes to what was
  encoded, and the varint and length-prefixed encodings are prefix-free.
\<close>

section \<open>SHA-256\<close>

text \<open>The constants are the first 32 bits of the fractional parts of roots of the first primes: \<open>rootFrom b k n 0\<close> is the
  \<open>k\<close>-th root of \<open>n\<close>, rounded down, found bit by bit from bit \<open>b\<close> on.\<close>

fun rootFrom :: "nat \<Rightarrow> nat \<Rightarrow> nat \<Rightarrow> nat \<Rightarrow> nat" where
  "rootFrom 0 k n r = r"
| "rootFrom (Suc b) k n r = rootFrom b k n (if (r + 2 ^ b) ^ k \<le> n then r + 2 ^ b else r)"

definition primesBelow :: "nat \<Rightarrow> nat list" where
  "primesBelow n = filter (\<lambda>p. filter (\<lambda>q. p mod q = 0) [2..<p] = []) [2..<n]"

definition sha_K :: "32 word list" where
  "sha_K = map (\<lambda>p. of_nat (rootFrom 36 3 (p * 2 ^ 96) 0)) (primesBelow 312)"

definition sha_H0 :: "32 word list" where
  "sha_H0 = map (\<lambda>p. of_nat (rootFrom 36 2 (p * 2 ^ 64) 0)) [2, 3, 5, 7, 11, 13, 17, 19]"

definition rotr32 :: "nat \<Rightarrow> 32 word \<Rightarrow> 32 word" where
  "rotr32 n w = or (drop_bit n w) (push_bit (32 - n) w)"

text \<open>The big-endian bytes of the low \<open>n\<close> bytes of a number.\<close>

fun beBytes :: "nat \<Rightarrow> nat \<Rightarrow> string" where
  "beBytes 0 v = []"
| "beBytes (Suc n) v = beBytes n (v div 256) @ [char_of (v mod 256)]"

definition word_of_be :: "string \<Rightarrow> 32 word" where
  "word_of_be bs = foldl (\<lambda>w c. push_bit 8 w + of_nat (of_char c)) 0 bs"

definition sha_pad :: "string \<Rightarrow> string" where
  "sha_pad m = m @ [char_of (128 :: nat)] @
     replicate ((119 - length m mod 64) mod 64) (char_of (0 :: nat)) @ beBytes 8 (8 * length m)"

fun chunks :: "nat \<Rightarrow> nat \<Rightarrow> 'a list \<Rightarrow> 'a list list" where
  "chunks k 0 xs = []"
| "chunks k (Suc n) xs = take k xs # chunks k n (drop k xs)"

fun sha_expand :: "nat \<Rightarrow> 32 word list \<Rightarrow> 32 word list" where
  "sha_expand 0 ws = ws"
| "sha_expand (Suc n) ws =
     (let l = length ws; x = ws ! (l - 15); y = ws ! (l - 2);
          s0 = xor (xor (rotr32 7 x) (rotr32 18 x)) (drop_bit 3 x);
          s1 = xor (xor (rotr32 17 y) (rotr32 19 y)) (drop_bit 10 y)
      in sha_expand n (ws @ [ws ! (l - 16) + s0 + ws ! (l - 7) + s1]))"

fun sha_round :: "32 word list \<Rightarrow> 32 word \<Rightarrow> 32 word list" where
  "sha_round [a, b, c, d, e, f, g, h] kw =
     (let s1 = xor (xor (rotr32 6 e) (rotr32 11 e)) (rotr32 25 e);
          ch = xor (and e f) (and (not e) g);
          t1 = h + s1 + ch + kw;
          s0 = xor (xor (rotr32 2 a) (rotr32 13 a)) (rotr32 22 a);
          maj = xor (xor (and a b) (and a c)) (and b c)
      in [t1 + s0 + maj, a, b, c, d + t1, e, f, g])"
| "sha_round st kw = st"

definition sha_block :: "32 word list \<Rightarrow> string \<Rightarrow> 32 word list" where
  "sha_block st blk =
     (let ws = sha_expand 48 (map word_of_be (chunks 4 16 blk))
      in map2 (+) st (foldl sha_round st (map2 (+) sha_K ws)))"

definition sha256 :: "string \<Rightarrow> string" where
  "sha256 m =
     (let p = sha_pad m
      in concat (map (\<lambda>w. beBytes 4 (unat w)) (foldl sha_block sha_H0 (chunks 64 (length p div 64) p))))"

section \<open>Hexadecimal text\<close>

definition hexDigit :: "nat \<Rightarrow> char" where
  "hexDigit n = ''0123456789abcdef'' ! n"

definition EncodeToString :: "string \<Rightarrow> string" where
  "EncodeToString bs = concat (map (\<lambda>c. [hexDigit (of_char c div 16), hexDigit (of_char c mod 16)]) bs)"

definition fromHexChar :: "char \<Rightarrow> nat option" where
  "fromHexChar c =
     (let n = of_char c :: nat in
      if 48 \<le> n \<and> n \<le> 57 then Some (n - 48)
      else if 97 \<le> n \<and> n \<le> 102 then Some (n - 97 + 10)
      else if 65 \<le> n \<and> n \<le> 70 then Some (n - 65 + 10)
      else None)"

text \<open>\<^verbatim>\<open>hex.DecodeString\<close>; on an error it also returns the bytes decoded before it.\<close>

fun decodeHex :: "string \<Rightarrow> string \<times> bool" where
  "decodeHex [] = ([], True)"
| "decodeHex [c] = ([], False)"
| "decodeHex (a # b # cs) =
     (case (fromHexChar a, fromHexChar b) of
       (Some x, Some y) \<Rightarrow> (case decodeHex cs of (bs, ok) \<Rightarrow> (char_of (16 * x + y) # bs, ok))
     | _ \<Rightarrow> ([], False))"

definition DecodeString :: "string \<Rightarrow> string option" where
  "DecodeString s = (case decodeHex s of (bs, ok) \<Rightarrow> if ok then Some bs else None)"

section \<open>Integers\<close>

text \<open>\<^verbatim>\<open>binary.PutUvarint\<close>, on the value of the \<^verbatim>\<open>uint64\<close>, and the zig-zag of \<^verbatim>\<open>binary.PutVarint\<close>.\<close>

fun putUvarint :: "nat \<Rightarrow> string" where
  "putUvarint v = (if v < 128 then [char_of v] else char_of (v mod 128 + 128) # putUvarint (v div 128))"

declare putUvarint.simps [simp del]

definition zigzag :: "64 word \<Rightarrow> 64 word" where
  "zigzag x = (let ux = push_bit 1 x in if x <s 0 then not ux else ux)"

definition putVarint :: "64 word \<Rightarrow> string" where
  "putVarint x = putUvarint (unat (zigzag x))"

section \<open>Digests\<close>

lemma length_beBytes [simp]: "length (beBytes n v) = n"
  by (induction n arbitrary: v) auto

lemma sha_round_length [simp]: "length (sha_round st kw) = length st"
  by (induction st kw rule: sha_round.induct) (auto simp: Let_def)

lemma foldl_sha_round_length [simp]: "length (foldl sha_round st kws) = length st"
  by (induction kws arbitrary: st) simp_all

lemma sha_block_length [simp]: "length (sha_block st blk) = length st"
  by (simp add: sha_block_def Let_def)

lemma foldl_sha_block_length [simp]: "length (foldl sha_block st blks) = length st"
  by (induction blks arbitrary: st) simp_all

lemma length_sha256 [simp]: "length (sha256 m) = 32"
proof -
  have "length (concat (map (\<lambda>w :: 32 word. beBytes 4 (unat w)) ws)) = 4 * length ws" for ws
    by (induction ws) simp_all
  then show ?thesis by (simp add: sha256_def Let_def sha_H0_def)
qed

section \<open>Hexadecimal text\<close>

lemma fromHexChar_hexDigit: "n < 16 \<Longrightarrow> fromHexChar (hexDigit n) = Some n"
proof -
  have "\<forall>n \<in> set [0..<16]. fromHexChar (hexDigit n) = Some n" by code_simp
  then show "n < 16 \<Longrightarrow> fromHexChar (hexDigit n) = Some n" by (simp only: set_upt) simp
qed

lemma decodeHex_EncodeToString: "decodeHex (EncodeToString bs) = (bs, True)"
proof (induction bs)
  case (Cons c bs)
  have "(of_char c :: nat) < 256" by (rule nat_of_char_less_256)
  then have "(of_char c :: nat) div 16 < 16" by linarith
  moreover have "char_of (16 * (of_char c div 16) + of_char c mod 16 :: nat) = c"
    by (simp only: mult_div_mod_eq char_of_char)
  ultimately show ?case using Cons by (simp add: EncodeToString_def fromHexChar_hexDigit)
qed (simp add: EncodeToString_def)

lemma DecodeString_EncodeToString [simp]: "DecodeString (EncodeToString bs) = Some bs"
  by (simp add: DecodeString_def decodeHex_EncodeToString)

lemma EncodeToString_inj: "EncodeToString a = EncodeToString b \<longleftrightarrow> a = b"
  using DecodeString_EncodeToString by (metis option.inject)

section \<open>Integers\<close>

lemma char_of_eq: "a < 256 \<Longrightarrow> b < 256 \<Longrightarrow> (char_of (a :: nat) = char_of b) = (a = b)"
  by (metis of_char_of mod_less)

lemma putUvarint_small: "v < 128 \<Longrightarrow> putUvarint v = [char_of v]"
  by (simp add: putUvarint.simps)

lemma putUvarint_large: "\<not> v < 128 \<Longrightarrow> putUvarint v = char_of (v mod 128 + 128) # putUvarint (v div 128)"
  by (subst putUvarint.simps) simp

lemma putUvarint_prefix_free: "putUvarint a @ x = putUvarint b @ y \<longleftrightarrow> a = b \<and> x = y"
proof
  assume "putUvarint a @ x = putUvarint b @ y"
  then show "a = b \<and> x = y"
  proof (induction a arbitrary: b rule: less_induct)
    case (less a)
    have m: "n mod 128 + 128 < 256" for n :: nat by simp
    consider "a < 128" "b < 128" | "a < 128" "\<not> b < 128" | "\<not> a < 128" "b < 128" | "\<not> a < 128" "\<not> b < 128" by blast
    then show ?case
    proof cases
      case 1
      then show ?thesis using less.prems by (simp add: putUvarint_small char_of_eq)
    next
      case 2
      then show ?thesis using less.prems char_of_eq [of a "b mod 128 + 128"] m [of b]
        by (simp add: putUvarint_small putUvarint_large)
    next
      case 3
      then show ?thesis using less.prems char_of_eq [of "a mod 128 + 128" b] m [of a]
        by (simp add: putUvarint_small putUvarint_large)
    next
      case 4
      then have "char_of (a mod 128 + 128) = (char_of (b mod 128 + 128) :: char)"
        "putUvarint (a div 128) @ x = putUvarint (b div 128) @ y"
        using less.prems by (simp_all add: putUvarint_large)
      then have "a mod 128 = b mod 128" "a div 128 = b div 128 \<and> x = y"
        using less.IH [of "a div 128" "b div 128"] 4 m by (simp_all add: char_of_eq)
      then show ?thesis by (metis div_mult_mod_eq)
    qed
  qed
qed simp

lemma uint64_of_int: "0 \<le> k \<Longrightarrow> k < 2 ^ 64 \<Longrightarrow> uint (word_of_int k :: 64 word) = k"
  by (simp add: uint_word_of_int)

lemma zigzag_eq: "uint (zigzag x) = (if sint x < 0 then - 2 * sint x - 1 else 2 * sint x)"
proof -
  have range: "- (2 ^ 63) \<le> sint x" "sint x < 2 ^ 63" using sint_ge [of x] sint_lt [of x] by simp_all
  have dbl: "push_bit 1 x = word_of_int (2 * sint x)" by (simp add: push_bit_eq_mult mult.commute)
  then have neg: "not (push_bit 1 x) = word_of_int (- 2 * sint x - 1)"
    by (simp add: not_eq_complement minus_diff_commute)
  show ?thesis
  proof (cases "sint x < 0")
    case True
    then have z: "zigzag x = word_of_int (- 2 * sint x - 1)" using neg by (simp add: zigzag_def word_sless_alt Let_def)
    have "uint (zigzag x) = - 2 * sint x - 1" unfolding z by (rule uint64_of_int, use True range in simp, use range in simp)
    with True show ?thesis by simp
  next
    case False
    then have z: "zigzag x = word_of_int (2 * sint x)" using dbl by (simp add: zigzag_def word_sless_alt Let_def)
    have "uint (zigzag x) = 2 * sint x" unfolding z by (rule uint64_of_int, use False range in simp, use range in simp)
    with False show ?thesis by simp
  qed
qed

lemma zigzag_inj: "zigzag x = zigzag y \<longleftrightarrow> x = y"
proof
  assume "zigzag x = zigzag y"
  then have "sint x = sint y" using zigzag_eq [of x] zigzag_eq [of y] by (auto split: if_splits) presburger+
  then show "x = y" by (rule signed_word_eqI)
qed simp

lemma putVarint_prefix_free: "putVarint a @ x = putVarint b @ y \<longleftrightarrow> a = b \<and> x = y"
  by (simp add: putVarint_def putUvarint_prefix_free zigzag_inj word_unat_eq_iff [symmetric])

lemma beBytes_inj: "a < 256 ^ n \<Longrightarrow> b < 256 ^ n \<Longrightarrow> beBytes n a = beBytes n b \<longleftrightarrow> a = b"
proof (induction n arbitrary: a b)
  case (Suc n)
  have "a div 256 < 256 ^ n" "b div 256 < 256 ^ n" using Suc.prems by (simp_all add: less_mult_imp_div_less mult.commute)
  then have "beBytes n (a div 256) = beBytes n (b div 256) \<longleftrightarrow> a div 256 = b div 256" by (rule Suc.IH)
  then show ?case by (auto simp: char_of_eq) (metis div_mult_mod_eq)
qed simp

end
