(* ===== verification/AuditLog.thy ===== *)
theory AuditLog
  imports Encoding "HOL-Library.Finite_Map"
begin

text \<open>
  The hash-chained audit log, \<^verbatim>\<open>src/go/controlplane/audit\<close>: the canonical encoding and hash of an entry, the
  verification of a chain (\<^verbatim>\<open>audit.go\<close>), the store interface with its in-memory implementation
  (\<^verbatim>\<open>store.go\<close>), and the log that is the store's only writer (\<^verbatim>\<open>log.go\<close>).

  \<^verbatim>\<open>uint64\<close> and \<^verbatim>\<open>int64\<close> fields are words. A details map is a finite map, so that copying it
  (\<^verbatim>\<open>cloneDetails\<close>, \<^verbatim>\<open>Entry.clone\<close>) is the identity. The mutexes make every operation atomic: an operation is
  one step on the store's state. \<^verbatim>\<open>ctx.Err()\<close> is a boolean per poll. The store interface is a record of
  operations; the locale \<open>audit_store\<close> states what \<^verbatim>\<open>Store\<close> promises, and what the log does on top is
  proved from that.
\<close>

section \<open>Entries\<close>

record Entry =
  Seq :: "64 word"
  TimeUnixNano :: "64 word"
  Actor :: string
  Action :: string
  Target :: string
  Details :: "(string, string) fmap"
  PrevHash :: string
  Hash :: string

definition GenesisPrevHash :: string where
  "GenesisPrevHash = replicate 64 (CHR ''0'')"

definition FirstSeq :: "64 word" where
  "FirstSeq = 1"

definition canonicalVersion :: string where
  "canonicalVersion = ''purser.audit.v1''"

datatype audit_err =
  AuditCtxErr
| InvalidPrevHash string
| NonContiguousSeq "64 word" "64 word"
| TailMismatch string string
| StoreErr string

definition writeBytesField :: "string \<Rightarrow> string" where
  "writeBytesField b = putUvarint (length b) @ b"

text \<open>The details: the keys sorted, their number, then each key with its value.\<close>

definition detailsBytes :: "(string, string) fmap \<Rightarrow> string" where
  "detailsBytes d =
     (let keys = sorted_list_of_fset (fmdom d)
      in putUvarint (length keys) @
         concat (map (\<lambda>k. writeBytesField k @ writeBytesField (the (fmlookup d k))) keys))"

definition CanonicalBytes :: "Entry \<Rightarrow> string" where
  "CanonicalBytes e =
     writeBytesField canonicalVersion @ putUvarint (unat (Seq e)) @ putVarint (TimeUnixNano e) @
     writeBytesField (Actor e) @ writeBytesField (Action e) @ writeBytesField (Target e) @
     detailsBytes (Details e)"

definition ComputeHash :: "Entry \<Rightarrow> audit_err + string" where
  "ComputeHash e =
     (case DecodeString (PrevHash e) of
       None \<Rightarrow> Inl (InvalidPrevHash (PrevHash e))
     | Some prev \<Rightarrow> Inr (EncodeToString (sha256 (prev @ CanonicalBytes e))))"

section \<open>Verification\<close>

datatype verify_kind = KindSeq | KindLink | KindHash

datatype verify_msg =
  ExpectedSeq "64 word" "64 word"
| DoesNotLink string string
| HashError audit_err
| HashMismatch string string

record VerifyError =
  veIndex :: nat
  veSeq :: "64 word"
  veKind :: verify_kind
  veMsg :: verify_msg

fun verifyLoop :: "nat \<Rightarrow> string \<Rightarrow> Entry list \<Rightarrow> VerifyError option" where
  "verifyLoop i prev [] = None"
| "verifyLoop i prev (e # es) =
     (let wantSeq = FirstSeq + of_nat i in
      if Seq e \<noteq> wantSeq then
        Some \<lparr>veIndex = i, veSeq = Seq e, veKind = KindSeq, veMsg = ExpectedSeq wantSeq (Seq e)\<rparr>
      else if PrevHash e \<noteq> prev then
        Some \<lparr>veIndex = i, veSeq = Seq e, veKind = KindLink, veMsg = DoesNotLink (PrevHash e) prev\<rparr>
      else case ComputeHash e of
        Inl err \<Rightarrow> Some \<lparr>veIndex = i, veSeq = Seq e, veKind = KindHash, veMsg = HashError err\<rparr>
      | Inr want \<Rightarrow>
          if Hash e \<noteq> want then
            Some \<lparr>veIndex = i, veSeq = Seq e, veKind = KindHash, veMsg = HashMismatch (Hash e) want\<rparr>
          else verifyLoop (Suc i) (Hash e) es)"

definition Verify :: "Entry list \<Rightarrow> VerifyError option" where
  "Verify entries = verifyLoop 0 GenesisPrevHash entries"

section \<open>Stores\<close>

record 's StoreOps =
  soAppend :: "bool \<Rightarrow> 's \<Rightarrow> Entry \<Rightarrow> 's \<times> (audit_err + Entry)"
  soList :: "bool \<Rightarrow> 's \<Rightarrow> audit_err + Entry list"
  soLast :: "bool \<Rightarrow> 's \<Rightarrow> audit_err + Entry option"

record MemStore =
  entries :: "Entry list"

definition NewMemStore :: MemStore where
  "NewMemStore = \<lparr>entries = []\<rparr>"

definition MemStore_Append :: "bool \<Rightarrow> MemStore \<Rightarrow> Entry \<Rightarrow> MemStore \<times> (audit_err + Entry)" where
  "MemStore_Append cancelled m e =
     (if cancelled then (m, Inl AuditCtxErr)
      else let wantSeq = FirstSeq + of_nat (length (entries m));
               wantPrev = (if 0 < length (entries m) then Hash (entries m ! (length (entries m) - 1)) else GenesisPrevHash)
      in if Seq e \<noteq> wantSeq then (m, Inl (NonContiguousSeq (Seq e) wantSeq))
         else if PrevHash e \<noteq> wantPrev then (m, Inl (TailMismatch (PrevHash e) wantPrev))
         else (m\<lparr>entries := entries m @ [e]\<rparr>, Inr e))"

definition MemStore_List :: "bool \<Rightarrow> MemStore \<Rightarrow> audit_err + Entry list" where
  "MemStore_List cancelled m = (if cancelled then Inl AuditCtxErr else Inr (entries m))"

definition MemStore_Last :: "bool \<Rightarrow> MemStore \<Rightarrow> audit_err + Entry option" where
  "MemStore_Last cancelled m =
     (if cancelled then Inl AuditCtxErr
      else if length (entries m) = 0 then Inr None
      else Inr (Some (entries m ! (length (entries m) - 1))))"

definition MemOps :: "MemStore StoreOps" where
  "MemOps = \<lparr>soAppend = MemStore_Append, soList = MemStore_List, soLast = MemStore_Last\<rparr>"

section \<open>The log\<close>

text \<open>\<open>ctx k\<close> is what the \<open>k\<close>-th poll of the context gives, \<open>now\<close> the clock's \<^verbatim>\<open>UnixNano\<close>.\<close>

definition Log_Append ::
  "'s StoreOps \<Rightarrow> (nat \<Rightarrow> bool) \<Rightarrow> 64 word \<Rightarrow> 's \<Rightarrow> string \<Rightarrow> string \<Rightarrow> string \<Rightarrow> (string, string) fmap \<Rightarrow>
   's \<times> (audit_err + Entry)" where
  "Log_Append ops ctx now s actor action target details =
     (if ctx 0 then (s, Inl AuditCtxErr)
      else case soLast ops (ctx 1) s of
        Inl err \<Rightarrow> (s, Inl err)
      | Inr lst \<Rightarrow>
          (let e = \<lparr>Seq = (case lst of Some l \<Rightarrow> Seq l + 1 | None \<Rightarrow> FirstSeq), TimeUnixNano = now,
                    Actor = actor, Action = action, Target = target, Details = details,
                    PrevHash = (case lst of Some l \<Rightarrow> Hash l | None \<Rightarrow> GenesisPrevHash), Hash = ''''\<rparr>
           in case ComputeHash e of
                Inl err \<Rightarrow> (s, Inl err)
              | Inr hash \<Rightarrow> soAppend ops (ctx 2) s (e\<lparr>Hash := hash\<rparr>)))"

definition Log_List :: "'s StoreOps \<Rightarrow> bool \<Rightarrow> 's \<Rightarrow> audit_err + Entry list" where
  "Log_List ops cancelled s = soList ops cancelled s"

definition Log_Verify :: "'s StoreOps \<Rightarrow> bool \<Rightarrow> 's \<Rightarrow> audit_err + VerifyError option" where
  "Log_Verify ops cancelled s =
     (case soList ops cancelled s of Inl err \<Rightarrow> Inl err | Inr es \<Rightarrow> Inr (Verify es))"

text \<open>The states of a store that the log writes, from one that holds no entries.\<close>

inductive log_reachable :: "'s StoreOps \<Rightarrow> 's \<Rightarrow> 's \<Rightarrow> bool" for ops :: "'s StoreOps" and s0 :: 's where
  initial: "log_reachable ops s0 s0"
| append: "log_reachable ops s0 s \<Longrightarrow> Log_Append ops ctx now s actor action target details = (s', r) \<Longrightarrow>
    log_reachable ops s0 s'"

section \<open>Reference notions\<close>

text \<open>The content of an entry: what its canonical encoding covers.\<close>

definition content :: "Entry \<Rightarrow> 64 word \<times> 64 word \<times> string \<times> string \<times> string \<times> (string, string) fmap" where
  "content e = (Seq e, TimeUnixNano e, Actor e, Action e, Target e, Details e)"

text \<open>The hash an entry must link to: that of the last entry before it.\<close>

definition tailHash :: "Entry list \<Rightarrow> string" where
  "tailHash es = (if es = [] then GenesisPrevHash else Hash (last es))"

text \<open>\<open>e\<close> extends the chain \<open>es\<close>.\<close>

definition extends :: "Entry list \<Rightarrow> Entry \<Rightarrow> bool" where
  "extends es e \<longleftrightarrow> Seq e = FirstSeq + of_nat (length es) \<and> PrevHash e = tailHash es"

text \<open>The bytes that are hashed.\<close>

definition hashInput :: "Entry \<Rightarrow> string" where
  "hashInput e = (case DecodeString (PrevHash e) of None \<Rightarrow> [] | Some prev \<Rightarrow> prev @ CanonicalBytes e)"

definition collision :: "Entry \<Rightarrow> Entry \<Rightarrow> bool" where
  "collision e e' \<longleftrightarrow> hashInput e \<noteq> hashInput e' \<and> sha256 (hashInput e) = sha256 (hashInput e')"

section \<open>Reference notions\<close>

text \<open>The entry that \<^verbatim>\<open>Log.Append\<close> makes for a chain, before its hash is filled in.\<close>

definition nextEntry :: "Entry list \<Rightarrow> 64 word \<Rightarrow> string \<Rightarrow> string \<Rightarrow> string \<Rightarrow> (string, string) fmap \<Rightarrow> Entry" where
  "nextEntry es now actor action target details =
     \<lparr>Seq = (if es = [] then FirstSeq else Seq (last es) + 1), TimeUnixNano = now, Actor = actor,
      Action = action, Target = target, Details = details, PrevHash = tailHash es, Hash = ''''\<rparr>"

section \<open>The canonical encoding\<close>

lemma writeBytesField_prefix_free: "writeBytesField a @ x = writeBytesField b @ y \<longleftrightarrow> a = b \<and> x = y"
  by (auto simp: writeBytesField_def putUvarint_prefix_free)

lemma fields_inj:
  assumes "length ks = length ks'"
    "concat (map (\<lambda>k. writeBytesField k @ writeBytesField (f k)) ks) = concat (map (\<lambda>k. writeBytesField k @ writeBytesField (g k)) ks')"
  shows "ks = ks' \<and> (\<forall>k \<in> set ks. f k = g k)"
  using assms by (induction ks ks' rule: list_induct2) (auto simp: writeBytesField_prefix_free)

lemma detailsBytes_inj: "detailsBytes d = detailsBytes d' \<longleftrightarrow> d = d'"
proof
  assume eq: "detailsBytes d = detailsBytes d'"
  let ?ks = "sorted_list_of_fset (fmdom d)" and ?ks' = "sorted_list_of_fset (fmdom d')"
  have "length ?ks = length ?ks'"
    "concat (map (\<lambda>k. writeBytesField k @ writeBytesField (the (fmlookup d k))) ?ks) =
     concat (map (\<lambda>k. writeBytesField k @ writeBytesField (the (fmlookup d' k))) ?ks')"
    using eq by (auto simp only: detailsBytes_def Let_def putUvarint_prefix_free)
  note * = fields_inj [OF this]
  have "fset_of_list ?ks = fset_of_list ?ks'" using * by simp
  then have dom: "fmdom d = fmdom d'" by simp
  show "d = d'"
  proof (rule fmap_ext)
    fix k
    show "fmlookup d k = fmlookup d' k"
    proof (cases "k |\<in>| fmdom d")
      case True
      then have "the (fmlookup d k) = the (fmlookup d' k)" using * by simp
      with True dom show ?thesis by (metis fmdom_notD fmdom_notI option.expand)
    next
      case False
      with dom show ?thesis by (simp add: fmdom_notD)
    qed
  qed
qed simp

lemma CanonicalBytes_inj: "CanonicalBytes e = CanonicalBytes e' \<longleftrightarrow> content e = content e'"
  by (simp add: CanonicalBytes_def content_def writeBytesField_prefix_free putUvarint_prefix_free
      putVarint_prefix_free detailsBytes_inj word_unat_eq_iff [symmetric])

section \<open>Verification\<close>

lemma tailHash_snoc [simp]: "tailHash (es @ [e]) = Hash e"
  by (simp add: tailHash_def)

lemma verifyLoop_append:
  "verifyLoop i prev (es @ es') =
     (case verifyLoop i prev es of
       Some err \<Rightarrow> Some err
     | None \<Rightarrow> verifyLoop (i + length es) (if es = [] then prev else Hash (last es)) es')"
proof (induction es arbitrary: i prev)
  case (Cons e es)
  show ?case
  proof (cases "Seq e = FirstSeq + of_nat i \<and> PrevHash e = prev \<and> ComputeHash e = Inr (Hash e)")
    case True
    then show ?thesis using Cons.IH [of "Suc i" "Hash e"] by (cases "es = []") (simp_all split: option.split)
  next
    case False
    then show ?thesis by (auto simp: Let_def split: sum.splits)
  qed
qed simp

lemma Verify_Nil [simp]: "Verify [] = None"
  by (simp add: Verify_def)

lemma Verify_snoc:
  "Verify (es @ [e]) = None \<longleftrightarrow> Verify es = None \<and> extends es e \<and> ComputeHash e = Inr (Hash e)"
  by (auto simp: Verify_def verifyLoop_append extends_def tailHash_def Let_def split: option.splits sum.splits)

lemma Verify_append: "Verify (es @ es') = None \<Longrightarrow> Verify es = None"
  by (simp add: Verify_def verifyLoop_append split: option.splits)

lemma verifyLoop_first:
  "verifyLoop i prev es = Some v \<Longrightarrow> i \<le> veIndex v \<and> veIndex v < i + length es \<and>
     veSeq v = Seq (es ! (veIndex v - i)) \<and> verifyLoop i prev (take (veIndex v - i) es) = None \<and>
     verifyLoop i prev (take (Suc (veIndex v - i)) es) = Some v"
proof (induction i prev es rule: verifyLoop.induct)
  case (2 i prev e es)
  show ?case
  proof (cases "Seq e = FirstSeq + of_nat i \<and> PrevHash e = prev \<and> ComputeHash e = Inr (Hash e)")
    case True
    then have "verifyLoop (Suc i) (Hash e) es = Some v" using "2.prems" by simp
    from "2.IH" [OF refl _ _ _ _ this, of "Hash e"] True
    have "Suc i \<le> veIndex v" "veIndex v < Suc i + length es" "veSeq v = Seq (es ! (veIndex v - Suc i))"
      "verifyLoop (Suc i) (Hash e) (take (veIndex v - Suc i) es) = None"
      "verifyLoop (Suc i) (Hash e) (take (Suc (veIndex v - Suc i)) es) = Some v" by auto
    moreover then have "veIndex v - i = Suc (veIndex v - Suc i)" by simp
    ultimately show ?thesis using True by simp
  next
    case False
    then have "veIndex v = i" "veSeq v = Seq e" "verifyLoop i prev [e] = Some v"
      using "2.prems" by (auto simp: Let_def split: if_splits sum.splits)
    then show ?thesis by simp
  qed
qed simp

lemma GenesisPrevHash_hex: "GenesisPrevHash = EncodeToString (replicate 32 (char_of (0 :: nat)))"
  by code_simp

lemma ComputeHash_hex: "ComputeHash e = Inr h \<Longrightarrow> h = EncodeToString (sha256 (hashInput e))"
  by (auto simp: ComputeHash_def hashInput_def split: option.splits)

lemma tailHash_hex: "Verify es = None \<Longrightarrow> \<exists>bs. tailHash es = EncodeToString bs \<and> length bs = 32"
proof (cases es rule: rev_cases)
  case Nil
  then show ?thesis by (auto simp: tailHash_def GenesisPrevHash_hex intro: length_replicate)
next
  case (snoc xs e)
  assume "Verify es = None"
  then have "Hash e = EncodeToString (sha256 (hashInput e))" using snoc by (simp add: Verify_snoc ComputeHash_hex)
  then show ?thesis using snoc length_sha256 by auto
qed

text \<open>What equal hash inputs of two entries of verified chains mean.\<close>

lemma hashInput_inj:
  assumes "Verify (xs @ [e]) = None" "Verify (ys @ [e']) = None" "hashInput e = hashInput e'"
  shows "tailHash xs = tailHash ys \<and> content e = content e'"
proof -
  obtain p q where p: "tailHash xs = EncodeToString p" "length p = 32" and q: "tailHash ys = EncodeToString q" "length q = 32"
    using tailHash_hex [of xs] tailHash_hex [of ys] assms(1,2) by (auto simp: Verify_snoc)
  then have "PrevHash e = EncodeToString p" "PrevHash e' = EncodeToString q"
    using assms(1,2) by (simp_all add: Verify_snoc extends_def)
  then have "p @ CanonicalBytes e = q @ CanonicalBytes e'" using assms(3) by (simp add: hashInput_def)
  then show ?thesis using p q by (simp add: CanonicalBytes_inj)
qed

lemma of_nat_64_inj:
  assumes "(of_nat a :: 64 word) = of_nat b" "a < 2 ^ 64" "b < 2 ^ 64"
  shows "a = b"
proof -
  have "unat (of_nat a :: 64 word) = unat (of_nat b :: 64 word)" by (rule arg_cong [OF assms(1)])
  then show ?thesis using assms(2,3) by (simp only: unat_of_nat) (simp add: take_bit_eq_mod)
qed

lemma anchored_chains:
  assumes "Verify es = None" "Verify es' = None" "length es < 2 ^ 64" "length es' < 2 ^ 64"
    "es \<noteq> []" "es' \<noteq> []" "Hash (last es) = Hash (last es')"
  shows "es = es' \<or> (\<exists>e \<in> set es. \<exists>e' \<in> set es'. collision e e')"
  using assms
proof (induction es arbitrary: es' rule: rev_induct)
  case (snoc e xs)
  obtain ys e' where es': "es' = ys @ [e']" using snoc.prems(6) by (metis rev_exhaust)
  have eq: "sha256 (hashInput e) = sha256 (hashInput e')"
    using snoc.prems(1,2,7) ComputeHash_hex [of e "Hash e"] ComputeHash_hex [of e' "Hash e'"] es'
    by (simp add: Verify_snoc EncodeToString_inj)
  show ?case
  proof (cases "hashInput e = hashInput e'")
    case False
    then have "collision e e'" using eq by (simp add: collision_def)
    then show ?thesis unfolding es' by auto
  next
    case True
    have *: "tailHash xs = tailHash ys" "content e = content e'"
      using hashInput_inj [OF snoc.prems(1) snoc.prems(2) [unfolded es'] True] by auto
    have "(of_nat (length xs) :: 64 word) = of_nat (length ys)"
      using *(2) snoc.prems(1,2) es' by (auto simp: Verify_snoc extends_def content_def)
    then have len: "length xs = length ys" using snoc.prems(3,4) es' by (intro of_nat_64_inj) simp_all
    have "e = e'" using * snoc.prems(1,2,7) es' by (auto simp: Verify_snoc extends_def content_def)
    show ?thesis
    proof (cases "xs = []")
      case True
      then show ?thesis using len es' \<open>e = e'\<close> by simp
    next
      case False
      then have "ys \<noteq> []" using len by auto
      then have "xs = ys \<or> (\<exists>e \<in> set xs. \<exists>e' \<in> set ys. collision e e')"
        using snoc.IH [of ys] snoc.prems(1-4) es' False *(1) by (auto simp: Verify_snoc tailHash_def)
      then show ?thesis using es' \<open>e = e'\<close> by auto
    qed
  qed
qed simp

section \<open>What a store promises, and the log on top of it\<close>

lemma ComputeHash_Hash [simp]: "ComputeHash (e\<lparr>Hash := h\<rparr>) = ComputeHash e"
  by (simp add: ComputeHash_def CanonicalBytes_def split: option.split)

locale audit_store =
  fixes ops :: "'s StoreOps" and chain :: "'s \<Rightarrow> Entry list"
  assumes last_law: "soLast ops cx s = Inr lst \<Longrightarrow> lst = (if chain s = [] then None else Some (last (chain s)))"
    and append_law: "soAppend ops cx s e = (s', Inr e') \<Longrightarrow> e' = e \<and> extends (chain s) e \<and> chain s' = chain s @ [e]"
    and append_error: "soAppend ops cx s e = (s', Inl err) \<Longrightarrow> chain s' = chain s"
    and list_law: "soList ops cx s = Inr es \<Longrightarrow> es = chain s"
    and last_live: "\<exists>lst. soLast ops False s = Inr lst"
    and append_live: "extends (chain s) e \<Longrightarrow> \<exists>s'. soAppend ops False s e = (s', Inr e)"
    and list_live: "\<exists>es. soList ops False s = Inr es"
begin

lemma Log_Append_eq:
  assumes "\<not> ctx 0" "soLast ops (ctx 1) s = Inr lst"
  shows "Log_Append ops ctx now s actor action target details =
    (let e = nextEntry (chain s) now actor action target details in
     case ComputeHash e of Inl err \<Rightarrow> (s, Inl err) | Inr hash \<Rightarrow> soAppend ops (ctx 2) s (e\<lparr>Hash := hash\<rparr>))"
  using last_law [OF assms(2)] assms
  by (cases "chain s = []") (simp_all add: Log_Append_def nextEntry_def tailHash_def Let_def split: sum.split)

lemma Log_Append_result:
  assumes "Log_Append ops ctx now s actor action target details = (s', r)"
  shows "(\<exists>err. r = Inl err \<and> chain s' = chain s) \<or>
    (\<exists>e h. e = nextEntry (chain s) now actor action target details \<and> ComputeHash e = Inr h \<and> r = Inr (e\<lparr>Hash := h\<rparr>) \<and>
       extends (chain s) (e\<lparr>Hash := h\<rparr>) \<and> chain s' = chain s @ [e\<lparr>Hash := h\<rparr>])"
proof (cases "ctx 0 \<or> (\<exists>err. soLast ops (ctx 1) s = Inl err)")
  case True
  then have "\<exists>err. (s', r) = (s, Inl err)" using assms by (cases "ctx 0") (auto simp: Log_Append_def)
  then show ?thesis by auto
next
  case False
  then obtain lst where lst: "\<not> ctx 0" "soLast ops (ctx 1) s = Inr lst" by (metis sum.exhaust_sel)
  let ?e = "nextEntry (chain s) now actor action target details"
  show ?thesis
  proof (cases "ComputeHash ?e")
    case (Inl err)
    then show ?thesis using assms Log_Append_eq [OF lst, of now actor action target details] by (auto simp: Let_def)
  next
    case (Inr h)
    then have app: "soAppend ops (ctx 2) s (?e\<lparr>Hash := h\<rparr>) = (s', r)"
      using assms Log_Append_eq [OF lst, of now actor action target details] by (simp add: Let_def)
    show ?thesis
    proof (cases r)
      case (Inl err)
      then show ?thesis using append_error [OF app [unfolded Inl]] by simp
    next
      case r: (Inr e')
      from append_law [OF app [unfolded r]] Inr r show ?thesis by simp
    qed
  qed
qed

lemma Log_Append_verified:
  assumes "Verify (chain s) = None" "Log_Append ops ctx now s actor action target details = (s', r)"
  shows "Verify (chain s') = None"
  using Log_Append_result [OF assms(2)] assms(1) by (auto simp: Verify_snoc)

lemma nextEntry_extends:
  assumes "Verify (chain s) = None"
  shows "extends (chain s) ((nextEntry (chain s) now actor action target details)\<lparr>Hash := h\<rparr>)"
proof (cases "chain s" rule: rev_cases)
  case (snoc es e)
  then show ?thesis using assms by (simp add: nextEntry_def extends_def Verify_snoc)
qed (simp add: nextEntry_def extends_def)

lemma Log_Append_live:
  assumes "Verify (chain s) = None" "\<And>k. \<not> ctx k"
  shows "\<exists>s' e. Log_Append ops ctx now s actor action target details = (s', Inr e) \<and> chain s' = chain s @ [e]"
proof -
  let ?e = "nextEntry (chain s) now actor action target details"
  obtain lst where lst: "soLast ops (ctx 1) s = Inr lst" using last_live assms(2) by auto
  obtain bs where "tailHash (chain s) = EncodeToString bs" using tailHash_hex [OF assms(1)] by blast
  then obtain h where h: "ComputeHash ?e = Inr h" by (simp add: ComputeHash_def nextEntry_def)
  obtain s' where s': "soAppend ops False s (?e\<lparr>Hash := h\<rparr>) = (s', Inr (?e\<lparr>Hash := h\<rparr>))"
    using append_live [OF nextEntry_extends [OF assms(1)]] by blast
  have "Log_Append ops ctx now s actor action target details = (s', Inr (?e\<lparr>Hash := h\<rparr>))"
    using Log_Append_eq [of ctx, OF assms(2) lst, of now actor action target details] h s' assms(2) by (simp add: Let_def)
  then show ?thesis using append_law [OF s'] by blast
qed

lemma reachable_verified:
  assumes "log_reachable ops s0 s" "chain s0 = []"
  shows "Verify (chain s) = None"
  using assms by (induction rule: log_reachable.induct) (auto intro: Log_Append_verified)

lemma reachable_prefix:
  assumes "log_reachable ops s s'"
  shows "\<exists>es. chain s' = chain s @ es"
  using assms
proof (induction rule: log_reachable.induct)
  case (append s1 ctx now actor action target details s2 r)
  then show ?case using Log_Append_result [OF append.hyps(2)] by auto
qed simp

lemma Log_Verify_eq: "Log_Verify ops False s = Inr (Verify (chain s))"
  using list_live [of s] list_law [of False s] by (auto simp: Log_Verify_def)

end

lemma MemStore_tail: "(if 0 < length es then Hash (es ! (length es - 1)) else GenesisPrevHash) = tailHash es"
  by (simp add: tailHash_def last_conv_nth)

interpretation mem: audit_store MemOps entries
proof
  fix cx s e s' e' err lst es
  show "soLast MemOps cx s = Inr lst \<Longrightarrow> lst = (if entries s = [] then None else Some (last (entries s)))"
    by (auto simp: MemOps_def MemStore_Last_def last_conv_nth split: if_splits)
  show "soAppend MemOps cx s e = (s', Inr e') \<Longrightarrow> e' = e \<and> extends (entries s) e \<and> entries s' = entries s @ [e]"
    unfolding MemOps_def MemStore_Append_def MemStore_tail
    by (auto simp: extends_def Let_def split: if_splits)
  show "soAppend MemOps cx s e = (s', Inl err) \<Longrightarrow> entries s' = entries s"
    by (auto simp: MemOps_def MemStore_Append_def Let_def split: if_splits)
  show "soList MemOps cx s = Inr es \<Longrightarrow> es = entries s"
    by (auto simp: MemOps_def MemStore_List_def split: if_splits)
  show "\<exists>lst. soLast MemOps False s = Inr lst"
    by (simp add: MemOps_def MemStore_Last_def)
  show "extends (entries s) e \<Longrightarrow> \<exists>s'. soAppend MemOps False s e = (s', Inr e)"
    unfolding MemOps_def MemStore_Append_def MemStore_tail by (simp add: extends_def)
  show "\<exists>es. soList MemOps False s = Inr es"
    by (simp add: MemOps_def MemStore_List_def)
qed

lemma example_chain:
  "\<exists>e s'. Log_Append MemOps (\<lambda>_. False) 0 NewMemStore ''admin'' ''node.delete'' ''n1'' fmempty = (s', Inr e) \<and>
     Verify [e] = None \<and> Actor e = ''admin''"
proof -
  obtain s' e where *: "Log_Append MemOps (\<lambda>_. False) 0 NewMemStore ''admin'' ''node.delete'' ''n1'' fmempty = (s', Inr e)"
      "entries s' = [e]"
    using mem.Log_Append_live [of NewMemStore "\<lambda>_. False" 0 "''admin''" "''node.delete''" "''n1''" fmempty]
    by (auto simp: NewMemStore_def)
  have "Verify [e] = None"
    using mem.Log_Append_verified [OF _ *(1)] *(2) by (simp add: NewMemStore_def)
  moreover have "Actor e = ''admin''"
    using mem.Log_Append_result [OF *(1)] by (auto simp: nextEntry_def)
  ultimately show ?thesis using *(1) by blast
qed

section \<open>Windows\<close>

text \<open>A window of an intact chain that does not start at its first entry is reported as broken.\<close>

lemma Verify_window:
  assumes "Verify (xs @ e # ys) = None" "xs \<noteq> []" "length xs < 2 ^ 64"
  shows "\<exists>v. Verify (e # ys) = Some v \<and> veIndex v = 0 \<and> veKind v = KindSeq"
proof -
  have "Verify ((xs @ [e]) @ ys) = None" using assms(1) by simp
  then have "Seq e = FirstSeq + of_nat (length xs)" using Verify_append Verify_snoc extends_def by blast
  moreover have "(of_nat (length xs) :: 64 word) \<noteq> of_nat 0"
    using of_nat_64_inj [of "length xs" 0] assms(2,3) by auto
  ultimately show ?thesis by (simp add: Verify_def Let_def)
qed

section \<open>Properties\<close>

text \<open>C20: The canonical encoding is injective: two entries have the same bytes exactly when they have the same
  sequence number, time, actor, action, target and details.\<close>

theorem CanonicalBytes_injective: "CanonicalBytes e = CanonicalBytes e' \<longleftrightarrow> content e = content e'"
  by (rule CanonicalBytes_inj)

text \<open>C21: A chain verifies exactly when every entry has the next sequence number, links to the hash of the entry
  before it (or the genesis value), and carries the hash of its own content; when it does not verify, the
  reported index is that of the first entry with which the chain breaks.\<close>

theorem Verify_correct:
  "(Verify es = None \<longleftrightarrow> (\<forall>i < length es. extends (take i es) (es ! i) \<and> ComputeHash (es ! i) = Inr (Hash (es ! i)))) \<and>
   (\<forall>v. Verify es = Some v \<longrightarrow> veIndex v < length es \<and> veSeq v = Seq (es ! veIndex v) \<and>
      Verify (take (veIndex v) es) = None \<and> Verify (take (Suc (veIndex v)) es) = Some v)"
proof
  show "Verify es = None \<longleftrightarrow> (\<forall>i < length es. extends (take i es) (es ! i) \<and> ComputeHash (es ! i) = Inr (Hash (es ! i)))"
  proof (induction es rule: rev_induct)
    case (snoc e es)
    let ?ok = "\<lambda>es i. extends (take i es) (es ! i) \<and> ComputeHash (es ! i) = Inr (Hash (es ! i))"
    have "?ok (es @ [e]) i = ?ok es i" if "i < length es" for i using that by (simp add: nth_append)
    then have "(\<forall>i < length (es @ [e]). ?ok (es @ [e]) i) \<longleftrightarrow> (\<forall>i < length es. ?ok es i) \<and> ?ok (es @ [e]) (length es)"
      by (auto simp: less_Suc_eq)
    then show ?case using snoc by (simp add: Verify_snoc)
  qed simp
  show "\<forall>v. Verify es = Some v \<longrightarrow> veIndex v < length es \<and> veSeq v = Seq (es ! veIndex v) \<and>
      Verify (take (veIndex v) es) = None \<and> Verify (take (Suc (veIndex v)) es) = Some v"
    using verifyLoop_first [of 0 GenesisPrevHash es] by (auto simp: Verify_def)
qed

theorem Verify_correct_witness:
  "\<exists>e v. ComputeHash e = Inr (Hash e) \<and> Verify [e] = None \<and> Verify [e, e] = Some v \<and> veIndex v = 1"
proof -
  obtain e where e: "Verify [e] = None" using example_chain by blast
  then have ok: "extends [] e \<and> ComputeHash e = Inr (Hash e)" using Verify_correct [of "[e]"] by simp
  then have "Seq e \<noteq> FirstSeq + of_nat (length [e])" by (simp add: extends_def FirstSeq_def)
  then have "Verify [e, e] \<noteq> None" using Verify_correct [of "[e, e]"] by (force simp: extends_def)
  then obtain v where v: "Verify [e, e] = Some v" by blast
  then have "veIndex v < 2 \<and> Verify (take (Suc (veIndex v)) [e, e]) = Some v" using Verify_correct [of "[e, e]"] by simp
  moreover then have "veIndex v \<noteq> 0" using e by (metis option.discI take0 take_Suc_Cons)
  ultimately show ?thesis using ok e v by (auto intro!: exI [of _ e] exI [of _ v])
qed

text \<open>C22: Tamper evidence: two chains that verify and end in the same hash are equal, or they exhibit two different
  inputs with the same SHA-256 digest. So a chain whose last hash is known cannot be changed, reordered,
  shortened or extended without breaking the hash function.\<close>

theorem Verify_tamper_evident:
  assumes "Verify es = None" "Verify es' = None" "length es < 2 ^ 64" "length es' < 2 ^ 64"
    "es \<noteq> []" "es' \<noteq> []" "Hash (last es) = Hash (last es')"
  shows "es = es' \<or> (\<exists>e \<in> set es. \<exists>e' \<in> set es'. collision e e')"
  using assms by (rule anchored_chains)

theorem Verify_tamper_evident_witness:
  "\<exists>e. Verify [e] = None \<and> Actor e = ''admin'' \<and> ([e] = [e] \<or> collision e e)"
proof -
  obtain e where e: "Verify [e] = None" "Actor e = ''admin''" using example_chain by blast
  from Verify_tamper_evident [OF e(1) e(1)] e show ?thesis by auto
qed

text \<open>C23: Every state of the in-memory store that any sequence of appends reaches, whatever fails on the way, holds a
  chain that verifies, and extends the chain of every state before it.\<close>

theorem Log_chain_invariant:
  assumes "log_reachable MemOps NewMemStore s" "log_reachable MemOps s s'"
  shows "Log_Verify MemOps False s' = Inr None \<and> (\<exists>es. entries s' = entries s @ es)"
proof -
  have v: "Verify (entries s) = None"
    using mem.reachable_verified [OF assms(1)] by (simp add: NewMemStore_def)
  have "Verify (entries s') = None"
    using assms(2) v by (induction rule: log_reachable.induct) (auto intro: mem.Log_Append_verified)
  then show ?thesis using mem.Log_Verify_eq [of s'] mem.reachable_prefix [OF assms(2)] by simp
qed

theorem Log_chain_invariant_witness:
  "\<exists>s e. Log_Append MemOps (\<lambda>_. False) 0 NewMemStore ''admin'' ''node.delete'' ''n1'' fmempty = (s, Inr e) \<and>
     Log_Verify MemOps False s = Inr None"
proof -
  obtain s e where *: "Log_Append MemOps (\<lambda>_. False) 0 NewMemStore ''admin'' ''node.delete'' ''n1'' fmempty = (s, Inr e)"
    using example_chain by blast
  have "log_reachable MemOps NewMemStore s" by (rule log_reachable.append [OF log_reachable.initial *])
  from Log_chain_invariant [OF this log_reachable.initial] * show ?thesis by blast
qed

text \<open>C24: An append to a chain that verifies succeeds when the context stays live: the log never refuses its own
  entry.\<close>

theorem Log_Append_succeeds:
  assumes "Verify (entries s) = None" "\<And>k. \<not> ctx k"
  shows "\<exists>s' e. Log_Append MemOps ctx now s actor action target details = (s', Inr e) \<and> entries s' = entries s @ [e]"
  using assms by (rule mem.Log_Append_live)

theorem Log_Append_succeeds_witness:
  "\<exists>s' e. Log_Append MemOps (\<lambda>_. False) 7 NewMemStore ''admin'' ''node.delete'' ''n1'' fmempty = (s', Inr e) \<and> entries s' = [e]"
  using Log_Append_succeeds [of NewMemStore "\<lambda>_. False" 7 "''admin''" "''node.delete''" "''n1''" fmempty]
  by (simp add: NewMemStore_def)

end
