(* ===== verification/AuditTables.thy ===== *)
theory AuditTables
  imports Registry AuditLog
begin

text \<open>
  The administrative audit log as the registry keeps it: \<^verbatim>\<open>ChainEntry\<close>, \<^verbatim>\<open>detailsToMap\<close>,
  \<^verbatim>\<open>AppendAudit\<close> and \<^verbatim>\<open>ListAudit\<close> of \<^verbatim>\<open>src/go/controlplane/registry/sqlite.go\<close>, and the chain report
  of the handler \<^verbatim>\<open>handleEnterpriseAuditLog\<close> in \<^verbatim>\<open>src/go/controlplane/server/server.go\<close>.

  \<open>JsonLib\<close> holds what the code uses of \<^verbatim>\<open>encoding/json\<close>: decoding an object into its members, decoding a
  string, and compacting a value. The four statements of a transaction (begin, read the tail, insert,
  commit) can fail one by one: \<open>flt k\<close> is the fault of the \<open>k\<close>-th.
\<close>

section \<open>Entries\<close>

record AuditEntry =
  aeID :: int
  aeActor :: string
  aeAction :: string
  aeTarget :: string
  aeDetails :: string
  aeCreatedAt :: Time
  aeSeq :: "64 word"
  aePrevHash :: string
  aeHash :: string

record JsonLib =
  jObject :: "string \<Rightarrow> (string \<times> string) list option"
  jString :: "string \<Rightarrow> string option"
  jCompact :: "string \<Rightarrow> string option"

definition detailsToMap :: "JsonLib \<Rightarrow> string \<Rightarrow> (string, string) fmap" where
  "detailsToMap J raw =
     (if length raw = 0 then fmempty
      else case jObject J raw of
        None \<Rightarrow> fmempty
      | Some obj \<Rightarrow> fmap_of_list (map (\<lambda>(k, v).
          (k, case jString J v of
                Some s \<Rightarrow> s
              | None \<Rightarrow> (case jCompact J v of Some b \<Rightarrow> b | None \<Rightarrow> v))) obj))"

definition ChainEntry :: "JsonLib \<Rightarrow> AuditEntry \<Rightarrow> Entry" where
  "ChainEntry J e =
     \<lparr>Seq = aeSeq e, TimeUnixNano = word_of_int (tNanos (aeCreatedAt e)), Actor = aeActor e, Action = aeAction e,
      Target = aeTarget e, Details = detailsToMap J (aeDetails e), PrevHash = aePrevHash e, Hash = aeHash e\<rparr>"

section \<open>The table\<close>

text \<open>\<^verbatim>\<open>SELECT ... WHERE seq IS NOT NULL ORDER BY seq DESC LIMIT 1\<close>.\<close>

definition auditTail :: "AuditRow list \<Rightarrow> AuditRow option" where
  "auditTail t =
     (let rows = sort_key (\<lambda>r. the (arSeq r)) (filter (\<lambda>r. arSeq r \<noteq> None) t)
      in if rows = [] then None else Some (last rows))"

definition rowHash :: "AuditRow \<Rightarrow> string" where
  "rowHash r = (case arHash r of Some h \<Rightarrow> h | None \<Rightarrow> '''')"

definition nextAuditID :: "AuditRow list \<Rightarrow> int" where
  "nextAuditID t = foldl max 0 (map arID t) + 1"

text \<open>The entry with its timestamp and chain fields, as \<^verbatim>\<open>AppendAudit\<close> fills them in from the tail.\<close>

definition fillEntry :: "Time \<Rightarrow> AuditRow option \<Rightarrow> AuditEntry \<Rightarrow> AuditEntry" where
  "fillEntry now lst e =
     (let e1 = (if IsZero (aeCreatedAt e) then e\<lparr>aeCreatedAt := now\<rparr> else e)
      in case lst of
           None \<Rightarrow> e1\<lparr>aeSeq := FirstSeq, aePrevHash := GenesisPrevHash\<rparr>
         | Some r \<Rightarrow> e1\<lparr>aeSeq := word_of_int (the (arSeq r)) + 1, aePrevHash := rowHash r\<rparr>)"

definition auditRow :: "int \<Rightarrow> AuditEntry \<Rightarrow> AuditRow" where
  "auditRow i e = \<lparr>arID = i, arActor = aeActor e, arAction = aeAction e, arTarget = aeTarget e,
     arDetails = jsonOrEmpty (aeDetails e), arCreatedAt = UTC (aeCreatedAt e), arSeq = Some (sint (aeSeq e)),
     arPrevHash = Some (aePrevHash e), arHash = Some (aeHash e)\<rparr>"

datatype append_err = AppendFault string db_err | AppendHash audit_err

definition AppendAudit ::
  "JsonLib \<Rightarrow> (nat \<Rightarrow> string option) \<Rightarrow> Time \<Rightarrow> DB \<Rightarrow> AuditEntry \<Rightarrow> DB \<times> AuditEntry \<times> append_err option" where
  "AppendAudit J flt now db e =
     (let e0 = (if IsZero (aeCreatedAt e) then e\<lparr>aeCreatedAt := now\<rparr> else e) in
      case flt 0 of Some f \<Rightarrow> (db, e0, Some (AppendFault ''begin'' (DBFault f))) | None \<Rightarrow>
      (case flt 1 of Some f \<Rightarrow> (db, e0, Some (AppendFault ''read tail'' (DBFault f))) | None \<Rightarrow>
       (let e1 = fillEntry now (auditTail (auditT db)) e in
        case ComputeHash (ChainEntry J e1) of Inl err \<Rightarrow> (db, e1, Some (AppendHash err)) | Inr h \<Rightarrow>
        (let e2 = e1\<lparr>aeHash := h\<rparr>; row = auditRow (nextAuditID (auditT db)) e2 in
         case flt 2 of Some f \<Rightarrow> (db, e2, Some (AppendFault '''' (DBFault f))) | None \<Rightarrow>
         (if arSeq row \<in> arSeq ` set (auditT db) then (db, e2, Some (AppendFault '''' (UniqueViolation ''audit_log.seq'')))
          else let e3 = e2\<lparr>aeID := arID row\<rparr> in
            case flt 3 of Some f \<Rightarrow> (db, e3, Some (AppendFault ''commit'' (DBFault f))) | None \<Rightarrow>
            (db\<lparr>auditT := auditT db @ [row]\<rparr>, e3, None))))))"

definition scanAudit :: "AuditRow \<Rightarrow> AuditEntry" where
  "scanAudit r = \<lparr>aeID = arID r, aeActor = arActor r, aeAction = arAction r, aeTarget = arTarget r,
     aeDetails = arDetails r, aeCreatedAt = arCreatedAt r,
     aeSeq = (case arSeq r of Some s \<Rightarrow> word_of_int s | None \<Rightarrow> 0),
     aePrevHash = (case arPrevHash r of Some h \<Rightarrow> h | None \<Rightarrow> ''''), aeHash = rowHash r\<rparr>"

definition ListAudit :: "string option \<Rightarrow> DB \<Rightarrow> int \<Rightarrow> reg_err + AuditEntry list" where
  "ListAudit flt db limit =
     (let n = (if limit \<le> 0 then 100 else limit)
      in exec flt ''list audit'' '''' (Inr (map scanAudit (take (nat n) (rev (sort_key arID (auditT db)))))))"

section \<open>The report\<close>

definition defaultAuditLimit :: int where
  "defaultAuditLimit = 100"

text \<open>The entries and the verdict of \<^verbatim>\<open>handleEnterpriseAuditLog\<close>, after the licence check; \<open>q\<close> is the parsed query parameter
  \<open>limit\<close>, \<open>None\<close> when it is absent or not a number.\<close>

definition auditReport :: "JsonLib \<Rightarrow> string option \<Rightarrow> DB \<Rightarrow> int option \<Rightarrow> reg_err + (Entry list \<times> VerifyError option)" where
  "auditReport J flt db q =
     (let limit = (case q of Some n \<Rightarrow> if n > 0 then n else defaultAuditLimit | None \<Rightarrow> defaultAuditLimit)
      in case ListAudit flt db limit of
           Inl err \<Rightarrow> Inl err
         | Inr rows \<Rightarrow>
             (let es = map (ChainEntry J) (filter (\<lambda>r. \<not> aeSeq r < FirstSeq) (rev rows))
              in Inr (es, Verify es)))"

section \<open>Reference notions\<close>

text \<open>The chain that the table holds, and what is kept of it: ids and sequence numbers count up, and the chain
  verifies.\<close>

definition chained :: "DB \<Rightarrow> AuditRow list" where
  "chained db = filter (\<lambda>r. arSeq r \<noteq> None) (auditT db)"

definition auditChain :: "JsonLib \<Rightarrow> DB \<Rightarrow> Entry list" where
  "auditChain J db = map (\<lambda>r. ChainEntry J (scanAudit r)) (chained db)"

definition auditInv :: "JsonLib \<Rightarrow> DB \<Rightarrow> bool" where
  "auditInv J db \<longleftrightarrow> sorted (map arID (auditT db)) \<and> distinct (map arID (auditT db)) \<and>
     map arSeq (chained db) = map (\<lambda>i. Some (int i)) [1..<Suc (length (chained db))] \<and>
     Verify (auditChain J db) = None"

text \<open>What the code relies on of the JSON library: the empty object has no members.\<close>

definition jsonOK :: "JsonLib \<Rightarrow> bool" where
  "jsonOK J \<longleftrightarrow> jObject J ''{}'' = Some []"

section \<open>Reference notions\<close>

definition exampleJson :: JsonLib where
  "exampleJson = \<lparr>jObject = (\<lambda>s. if s = ''{}'' then Some [] else None), jString = (\<lambda>_. None), jCompact = (\<lambda>_. None)\<rparr>"

definition exampleEvent :: AuditEntry where
  "exampleEvent = \<lparr>aeID = 0, aeActor = ''admin'', aeAction = ''node.delete'', aeTarget = ''n1'', aeDetails = ''{}'',
     aeCreatedAt = zeroTime, aeSeq = 0, aePrevHash = '''', aeHash = ''''\<rparr>"

section \<open>The chain of the table\<close>

lemma auditInv_seq:
  assumes "auditInv J db" "i < length (chained db)"
  shows "arSeq (chained db ! i) = Some (int (Suc i))"
proof -
  have "map arSeq (chained db) ! i = map (\<lambda>i. Some (int i)) [1..<Suc (length (chained db))] ! i"
    using assms(1) by (simp only: auditInv_def)
  then show ?thesis using assms(2) by (simp del: upt_Suc)
qed

lemma auditTail_chained:
  assumes "auditInv J db"
  shows "auditTail (auditT db) = (if chained db = [] then None else Some (last (chained db)))"
proof -
  have "sorted (map (\<lambda>r. the (arSeq r)) (chained db))"
    unfolding sorted_iff_nth_mono using auditInv_seq [OF assms] by simp
  then have "sort_key (\<lambda>r. the (arSeq r)) (chained db) = chained db" by (simp add: sort_key_id_if_sorted)
  then show ?thesis by (simp add: auditTail_def chained_def Let_def)
qed

lemma last_chained:
  assumes "auditInv J db" "chained db \<noteq> []"
  shows "arSeq (last (chained db)) = Some (int (length (chained db)))"
  using auditInv_seq [OF assms(1), of "length (chained db) - 1"] assms(2) by (simp add: last_conv_nth)

lemma detailsToMap_jsonOrEmpty: "jsonOK J \<Longrightarrow> detailsToMap J (jsonOrEmpty d) = detailsToMap J d"
  by (simp add: detailsToMap_def jsonOrEmpty_def jsonOK_def)

lemma ChainEntry_scan:
  assumes "jsonOK J"
  shows "ChainEntry J (scanAudit (auditRow i e)) = ChainEntry J e"
  using assms by (simp add: ChainEntry_def scanAudit_def auditRow_def rowHash_def detailsToMap_jsonOrEmpty)

text \<open>The entry with its chain fields is the one that extends the chain.\<close>

lemma fillEntry_chain:
  assumes "auditInv J db"
  shows "aePrevHash (fillEntry now (auditTail (auditT db)) e) = tailHash (auditChain J db)"
    "aeSeq (fillEntry now (auditTail (auditT db)) e) = FirstSeq + of_nat (length (chained db))"
    "aeDetails (fillEntry now (auditTail (auditT db)) e) = aeDetails e"
proof -
  have "tailHash (auditChain J db) = (if chained db = [] then GenesisPrevHash else rowHash (last (chained db)))"
    by (simp add: tailHash_def auditChain_def last_map ChainEntry_def scanAudit_def)
  then show "aePrevHash (fillEntry now (auditTail (auditT db)) e) = tailHash (auditChain J db)"
    by (simp add: auditTail_chained [OF assms] fillEntry_def)
  show "aeSeq (fillEntry now (auditTail (auditT db)) e) = FirstSeq + of_nat (length (chained db))"
    using last_chained [OF assms] by (simp add: auditTail_chained [OF assms] fillEntry_def FirstSeq_def)
  show "aeDetails (fillEntry now (auditTail (auditT db)) e) = aeDetails e"
    by (simp add: fillEntry_def split: option.split)
qed

lemma foldl_max_ge: "x \<in> set xs \<Longrightarrow> x \<le> foldl max m xs" "m \<le> foldl max m (xs :: int list)"
proof -
  show m: "m \<le> foldl max m xs" for m by (induction xs arbitrary: m) (auto intro: order_trans [rotated] max.cobounded1)
  show "x \<in> set xs \<Longrightarrow> x \<le> foldl max m xs"
  proof (induction xs arbitrary: m)
    case (Cons y ys)
    have "max m y \<le> foldl max (max m y) ys" for m by (induction ys arbitrary: m y) (auto intro: order_trans)
    then show ?case using Cons by (auto intro: order_trans [OF max.cobounded2])
  qed simp
qed

lemma nextAuditID_fresh: "r \<in> set t \<Longrightarrow> arID r < nextAuditID t"
  using foldl_max_ge(1) [of "arID r" "map arID t" 0] by (simp add: nextAuditID_def)

lemma sint_of_small: "0 \<le> i \<Longrightarrow> i < 2 ^ 63 \<Longrightarrow> sint (word_of_int i :: 64 word) = i"
  by (simp add: sint_sbintrunc' signed_take_bit_int_eq_self_iff)

text \<open>Appending the next row keeps the invariant.\<close>

lemma auditInv_append:
  assumes "auditInv J db" "jsonOK J" "length (chained db) < 2 ^ 63 - 1"
    "e = (fillEntry now (auditTail (auditT db)) e0)\<lparr>aeHash := h\<rparr>"
    "ComputeHash (ChainEntry J (fillEntry now (auditTail (auditT db)) e0)) = Inr h"
    "db' = db\<lparr>auditT := auditT db @ [auditRow (nextAuditID (auditT db)) e]\<rparr>"
  shows "auditInv J db' \<and> auditChain J db' = auditChain J db @ [ChainEntry J e] \<and>
    sint (aeSeq e) = int (Suc (length (chained db)))"
proof -
  let ?r = "auditRow (nextAuditID (auditT db)) e"
  have ch: "chained db' = chained db @ [?r]" by (simp add: chained_def assms(6) auditRow_def)
  have chain: "auditChain J db' = auditChain J db @ [ChainEntry J e]"
    by (simp add: auditChain_def ch ChainEntry_scan [OF assms(2)])
  have seq: "aeSeq e = FirstSeq + of_nat (length (chained db))" by (simp add: assms(4) fillEntry_chain [OF assms(1)])
  have w: "aeSeq e = word_of_int (int (Suc (length (chained db))))" by (simp add: seq FirstSeq_def)
  have sq: "sint (aeSeq e) = int (Suc (length (chained db)))"
    unfolding w by (rule sint_of_small) (use assms(3) in simp_all)
  have "ComputeHash (ChainEntry J e) = Inr (Hash (ChainEntry J e))"
    using assms(5) by (simp add: assms(4) ChainEntry_def ComputeHash_def CanonicalBytes_def split: option.splits)
  moreover have "extends (auditChain J db) (ChainEntry J e)"
    using fillEntry_chain(1) [OF assms(1)] seq by (simp add: extends_def ChainEntry_def assms(4) auditChain_def)
  ultimately have v: "Verify (auditChain J db') = None" using assms(1) by (simp add: chain Verify_snoc auditInv_def)
  have ids: "\<forall>x \<in> set (auditT db). arID x < arID ?r" using nextAuditID_fresh by (simp add: auditRow_def)
  have "map arSeq (chained db') = map (\<lambda>i. Some (int i)) [1..<Suc (length (chained db'))]"
    using assms(1) sq by (simp add: ch auditInv_def auditRow_def)
  then show ?thesis using assms(1) ids v chain sq
    by (auto simp: auditInv_def assms(6) sorted_append intro: less_imp_le)
qed

section \<open>Appending\<close>

lemma nextEntry_fill:
  assumes "auditInv J db"
  shows "nextEntry (auditChain J db) (word_of_int (tNanos (aeCreatedAt (fillEntry now (auditTail (auditT db)) e))))
      (aeActor e) (aeAction e) (aeTarget e) (detailsToMap J (aeDetails e)) =
    (ChainEntry J (fillEntry now (auditTail (auditT db)) e))\<lparr>Hash := ''''\<rparr>"
proof -
  let ?e = "fillEntry now (auditTail (auditT db)) e"
  have fields: "aeActor ?e = aeActor e" "aeAction ?e = aeAction e" "aeTarget ?e = aeTarget e"
    by (simp_all add: fillEntry_def Let_def split: option.split)
  have "Verify (auditChain J db) = None" using assms by (simp add: auditInv_def)
  then have "auditChain J db \<noteq> [] \<Longrightarrow> Seq (last (auditChain J db)) + 1 = FirstSeq + of_nat (length (chained db))"
    by (cases "auditChain J db" rule: rev_cases)
      (auto simp: Verify_snoc extends_def auditChain_def dest!: arg_cong [of "map _ _" _ length])
  then show ?thesis using fillEntry_chain [OF assms, of now e] fields
    by (auto simp: nextEntry_def ChainEntry_def auditChain_def)
qed

lemma fill_hash:
  assumes "auditInv J db"
  shows "\<exists>h. ComputeHash (ChainEntry J (fillEntry now (auditTail (auditT db)) e)) = Inr h"
proof -
  have "Verify (auditChain J db) = None" using assms by (simp add: auditInv_def)
  from tailHash_hex [OF this] obtain bs where "tailHash (auditChain J db) = EncodeToString bs" by blast
  then show ?thesis using fillEntry_chain(1) [OF assms, of now e] by (simp add: ComputeHash_def ChainEntry_def)
qed

lemma chained_seq: "Some y \<in> arSeq ` set (auditT db) \<Longrightarrow> Some y \<in> arSeq ` set (chained db)"
proof -
  assume "Some y \<in> arSeq ` set (auditT db)"
  then obtain r where "r \<in> set (auditT db)" "arSeq r = Some y" by (metis imageE)
  then have "r \<in> set (chained db)" by (simp add: chained_def)
  then show ?thesis using \<open>arSeq r = Some y\<close> by (metis imageI)
qed

lemma AppendAudit_cases:
  assumes "auditInv J db" "jsonOK J" "length (chained db) < 2 ^ 63 - 1" "AppendAudit J flt now db e0 = (db', e', r)"
  shows "(r \<noteq> None \<and> db' = db \<and> (\<exists>k < 4. flt k \<noteq> None)) \<or>
    (\<exists>h. r = None \<and> ComputeHash (ChainEntry J (fillEntry now (auditTail (auditT db)) e0)) = Inr h \<and>
       e' = (fillEntry now (auditTail (auditT db)) e0)\<lparr>aeHash := h, aeID := nextAuditID (auditT db)\<rparr> \<and>
       db' = db\<lparr>auditT := auditT db @ [auditRow (nextAuditID (auditT db)) ((fillEntry now (auditTail (auditT db)) e0)\<lparr>aeHash := h\<rparr>)]\<rparr>)"
proof (cases "\<exists>k < 4. flt k \<noteq> None")
  case True
  obtain h where h: "ComputeHash (ChainEntry J (fillEntry now (auditTail (auditT db)) e0)) = Inr h" using fill_hash [OF assms(1)] by blast
  show ?thesis using assms(4) True h
    by (auto simp: AppendAudit_def auditRow_def Let_def less_Suc_eq numeral_eq_Suc split: option.splits if_splits)
next
  case False
  then have flt: "flt 0 = None" "flt 1 = None" "flt 2 = None" "flt 3 = None" by simp_all
  obtain h where h: "ComputeHash (ChainEntry J (fillEntry now (auditTail (auditT db)) e0)) = Inr h" using fill_hash [OF assms(1)] by blast
  let ?e = "(fillEntry now (auditTail (auditT db)) e0)\<lparr>aeHash := h\<rparr>"
  have seq: "sint (aeSeq ?e) = int (Suc (length (chained db)))"
    using auditInv_append [OF assms(1-3) refl h refl] by simp
  have "Some (int (Suc (length (chained db)))) \<notin> arSeq ` set (chained db)"
  proof
    assume "Some (int (Suc (length (chained db)))) \<in> arSeq ` set (chained db)"
    then obtain i where "i < length (chained db)" "arSeq (chained db ! i) = Some (int (Suc (length (chained db))))"
      by (metis imageE in_set_conv_nth)
    then show False using auditInv_seq [OF assms(1), of i] by simp
  qed
  then have "Some (sint (aeSeq ?e)) \<notin> arSeq ` set (auditT db)" using chained_seq [of _ db] unfolding seq by blast
  then show ?thesis using assms(4) h flt by (auto simp: AppendAudit_def auditRow_def Let_def)
qed

section \<open>Properties\<close>

text \<open>C26: The audit table refines the append-only log: whatever statement of the transaction fails, the table is unchanged;
  otherwise the entry it appends is the one that \<^verbatim>\<open>Log.Append\<close> makes for the same event on the chain the table
  held, and the chain still verifies.\<close>

theorem AppendAudit_refines_Log:
  assumes "auditInv J db" "jsonOK J" "length (chained db) < 2 ^ 63 - 1" "entries s = auditChain J db"
    "AppendAudit J flt now db e = (db', e', r)"
  shows "auditInv J db' \<and> (r = None \<longleftrightarrow> (\<forall>k < 4. flt k = None)) \<and> (r \<noteq> None \<longrightarrow> db' = db) \<and>
    (r = None \<longrightarrow> (\<exists>s'. Log_Append MemOps (\<lambda>_. False) (TimeUnixNano (ChainEntry J e')) s (aeActor e) (aeAction e) (aeTarget e)
         (detailsToMap J (aeDetails e)) = (s', Inr (ChainEntry J e')) \<and> entries s' = auditChain J db'))"
  using AppendAudit_cases [OF assms(1-3,5)]
proof (elim disjE exE conjE)
  fix k
  assume "r \<noteq> None" "db' = db" "k < 4" "flt k \<noteq> None"
  then show ?thesis using assms(1) by auto
next
  fix h
  let ?f = "fillEntry now (auditTail (auditT db)) e"
  assume h: "ComputeHash (ChainEntry J ?f) = Inr h" and e': "e' = ?f\<lparr>aeHash := h, aeID := nextAuditID (auditT db)\<rparr>" and r: "r = None"
    and db': "db' = db\<lparr>auditT := auditT db @ [auditRow (nextAuditID (auditT db)) (?f\<lparr>aeHash := h\<rparr>)]\<rparr>"
  note inv = auditInv_append [OF assms(1-3) refl h db']
  have ce: "ChainEntry J e' = ChainEntry J (?f\<lparr>aeHash := h\<rparr>)" "TimeUnixNano (ChainEntry J e') = word_of_int (tNanos (aeCreatedAt ?f))"
    by (simp_all add: e' ChainEntry_def)
  have flt: "\<forall>k < 4. flt k = None"
    using assms(5) r h by (auto simp: AppendAudit_def Let_def less_Suc_eq numeral_eq_Suc split: option.splits if_splits)
  have v: "Verify (entries s) = None" using assms(1,4) by (simp add: auditInv_def)
  obtain s' x where x: "Log_Append MemOps (\<lambda>_. False) (TimeUnixNano (ChainEntry J e')) s (aeActor e) (aeAction e) (aeTarget e)
      (detailsToMap J (aeDetails e)) = (s', Inr x)" "entries s' = entries s @ [x]"
    using mem.Log_Append_live [OF v, of "\<lambda>_. False"] by blast
  have "x = (ChainEntry J ?f)\<lparr>Hash := h\<rparr>"
    using mem.Log_Append_result [OF x(1)] nextEntry_fill [OF assms(1), of now e] h unfolding ce(2) assms(4) by auto
  then have "x = ChainEntry J e'" unfolding ce(1) by (simp add: ChainEntry_def)
  then show ?thesis using inv x r flt assms(4) ce by simp
qed

section \<open>The report of the handler\<close>

lemma reportLimit_pos: "0 < (case q of Some n \<Rightarrow> if n > 0 then n else defaultAuditLimit | None \<Rightarrow> defaultAuditLimit)"
  by (auto simp: defaultAuditLimit_def split: option.split)

lemma auditReport_rows:
  assumes "auditInv J db" "chained db = auditT db" "length (auditT db) < 2 ^ 63"
    "limit = (case q of Some n \<Rightarrow> if n > 0 then n else defaultAuditLimit | None \<Rightarrow> defaultAuditLimit)"
  shows "auditReport J None db q =
    (let es = drop (length (auditT db) - nat limit) (auditChain J db) in Inr (es, Verify es))"
proof -
  have srt: "sort_key arID (auditT db) = auditT db" using assms(1) by (simp add: auditInv_def sort_key_id_if_sorted)
  have seq: "\<not> aeSeq (scanAudit r) < FirstSeq" if "r \<in> set (auditT db)" for r
  proof -
    obtain i where i: "i < length (auditT db)" "r = auditT db ! i" using \<open>r \<in> set (auditT db)\<close> by (metis in_set_conv_nth)
    then have "arSeq r = Some (int (Suc i))" using auditInv_seq [OF assms(1), of i] assms(2) by simp
    moreover have "sint (word_of_int (int (Suc i)) :: 64 word) = int (Suc i)"
      using i assms(3) by (intro sint_of_small) simp_all
    then have "(word_of_int (int (Suc i)) :: 64 word) \<noteq> 0" by force
    ultimately show ?thesis by (simp add: scanAudit_def FirstSeq_def word_less_1)
  qed
  have lim: "(if limit \<le> 0 then 100 else limit) = limit" using reportLimit_pos [of q] assms(4) by auto
  have "filter (\<lambda>r. \<not> aeSeq r < FirstSeq) (map scanAudit (drop k (auditT db))) = map scanAudit (drop k (auditT db))" for k
    using seq by (subst filter_id_conv) (auto dest: in_set_dropD)
  then show ?thesis
    unfolding auditReport_def ListAudit_def Let_def assms(4) [symmetric] lim
    by (simp add: exec_def srt rev_map take_rev auditChain_def assms(2) drop_map o_def)
qed

text \<open>There are intact logs of every length below the bound.\<close>

lemma auditInv_length:
  assumes "jsonOK J" "n < 2 ^ 63"
  shows "\<exists>db. auditInv J db \<and> chained db = auditT db \<and> length (auditT db) = n"
  using assms(2)
proof (induction n)
  case 0
  show ?case by (rule exI [of _ emptyDB]) (simp add: auditInv_def chained_def auditChain_def emptyDB_def)
next
  case (Suc n)
  then obtain db where db: "auditInv J db" "chained db = auditT db" "length (auditT db) = n" by auto
  obtain h where h: "ComputeHash (ChainEntry J (fillEntry zeroTime (auditTail (auditT db)) exampleEvent)) = Inr h"
    using fill_hash [OF db(1)] by blast
  let ?r = "auditRow (nextAuditID (auditT db)) ((fillEntry zeroTime (auditTail (auditT db)) exampleEvent)\<lparr>aeHash := h\<rparr>)"
  have "auditInv J (db\<lparr>auditT := auditT db @ [?r]\<rparr>)"
    using auditInv_append [OF db(1) assms(1) _ refl h refl] db Suc.prems by simp
  moreover have "chained (db\<lparr>auditT := auditT db @ [?r]\<rparr>) = auditT db @ [?r]"
    using db(2) by (simp add: chained_def auditRow_def)
  ultimately show ?case using db(3) by (intro exI [of _ "db\<lparr>auditT := auditT db @ [?r]\<rparr>"]) simp
qed

lemma exampleJson_ok: "jsonOK exampleJson"
  by (simp add: jsonOK_def exampleJson_def)

text \<open>C27: The verdict on a log that is intact: \<^verbatim>\<open>verified\<close> exactly when the whole log fits the limit; a longer log is
  reported broken at index 0.\<close>

theorem auditReport_verdict:
  assumes "auditInv J db" "chained db = auditT db" "length (auditT db) < 2 ^ 63"
    "limit = (case q of Some n \<Rightarrow> if n > 0 then n else defaultAuditLimit | None \<Rightarrow> defaultAuditLimit)"
  shows "\<exists>es v. auditReport J None db q = Inr (es, v) \<and> length es = min (length (auditT db)) (nat limit) \<and>
    (v = None \<longleftrightarrow> int (length (auditT db)) \<le> limit) \<and>
    (\<forall>b. v = Some b \<longrightarrow> veIndex b = 0 \<and> veKind b = KindSeq)"
proof -
  let ?k = "length (auditT db) - nat limit"
  let ?c = "auditChain J db"
  have len: "length ?c = length (auditT db)" by (simp add: auditChain_def assms(2))
  have ok: "Verify ?c = None" using assms(1) by (simp add: auditInv_def)
  have pos: "0 < limit" using reportLimit_pos [of q] assms(4) by simp
  show ?thesis
  proof (cases "int (length (auditT db)) \<le> limit")
    case True
    then have "?k = 0" by simp
    then show ?thesis using True ok len by (simp add: auditReport_rows [OF assms] Let_def)
  next
    case False
    then have k: "0 < ?k" "?k < length ?c" using pos len by simp_all
    then have split: "?c = take ?k ?c @ ?c ! ?k # drop (Suc ?k) ?c" by (metis id_take_nth_drop)
    have "?c \<noteq> []" using k(2) by auto
    then have "\<exists>v. Verify (?c ! ?k # drop (Suc ?k) ?c) = Some v \<and> veIndex v = 0 \<and> veKind v = KindSeq"
      using ok k len assms(3) by (intro Verify_window [of "take ?k ?c"]) (simp_all flip: split)
    then obtain v where v: "Verify (drop ?k ?c) = Some v" "veIndex v = 0" "veKind v = KindSeq"
      using k by (metis Cons_nth_drop_Suc)
    show ?thesis using False v len by (auto simp: auditReport_rows [OF assms] Let_def)
  qed
qed

theorem auditReport_verdict_witness:
  "\<exists>db es b. Verify (auditChain exampleJson db) = None \<and> length (auditT db) = 2 \<and>
     auditReport exampleJson None db (Some 1) = Inr (es, Some b) \<and> veKind b = KindSeq"
proof -
  obtain db where db: "auditInv exampleJson db" "chained db = auditT db" "length (auditT db) = 2"
    using auditInv_length [OF exampleJson_ok, of 2] by auto
  then have "Verify (auditChain exampleJson db) = None" by (simp add: auditInv_def)
  then show ?thesis using auditReport_verdict [OF db(1,2), of 1 "Some 1"] db(3) by fastforce
qed

theorem AppendAudit_refines_Log_witness:
  "\<exists>db' e' s'. AppendAudit exampleJson (\<lambda>_. None) zeroTime emptyDB exampleEvent = (db', e', None) \<and> auditInv exampleJson db' \<and>
     Log_Append MemOps (\<lambda>_. False) (TimeUnixNano (ChainEntry exampleJson e')) NewMemStore ''admin'' ''node.delete'' ''n1''
       fmempty = (s', Inr (ChainEntry exampleJson e')) \<and> entries s' = auditChain exampleJson db'"
proof -
  obtain db' e' r where a: "AppendAudit exampleJson (\<lambda>_. None) zeroTime emptyDB exampleEvent = (db', e', r)"
    by (metis prod_cases3)
  have "auditInv exampleJson emptyDB" "length (chained emptyDB) < 2 ^ 63 - 1" "entries NewMemStore = auditChain exampleJson emptyDB"
    by (simp_all add: auditInv_def chained_def auditChain_def emptyDB_def NewMemStore_def)
  from AppendAudit_refines_Log [OF this(1) exampleJson_ok this(2,3) a] show ?thesis
    using a by (simp add: exampleEvent_def exampleJson_def detailsToMap_def)
qed

end
