(* ===== verification/InferenceAudit.thy ===== *)
theory InferenceAudit
  imports AuditTables
begin

text \<open>
  The log of inference requests, \<^verbatim>\<open>src/go/controlplane/registry/inference_audit_sqlite.go\<close> and
  \<^verbatim>\<open>inference_audit_verify.go\<close>, and its pseudonymisation, \<^verbatim>\<open>EraseInferenceEventsBySubject\<close> in
  \<^verbatim>\<open>enterprise_sqlite.go\<close>.

  \<^item> A row is the event as it is scanned back, with the three columns of its hash chain. The row id is the
    field \<open>ieID\<close> of the event.
  \<^item> \<open>flt k\<close> is the fault of the \<open>k\<close>-th statement of the transaction (begin, read the tail, insert, commit),
    as in \<open>AuditTables\<close>.
  \<^item> \<open>infChain\<close>, \<open>pageAll\<close> and \<open>infCollision\<close> are reference notions: a chain said recursively, a client that
    follows the page tokens, and two different inputs of the hash function with the same digest.
\<close>

section \<open>The hash chain\<close>

definition inferenceFirstSeq :: int where
  "inferenceFirstSeq = 1"

definition inferenceGenesisPrevHash :: string where
  "inferenceGenesisPrevHash = replicate 64 (CHR ''0'')"

text \<open>The two local functions of \<^verbatim>\<open>canonicalInferenceEventBytes\<close>.\<close>

definition writeStr :: "string \<Rightarrow> string" where
  "writeStr s = beBytes 4 (length s mod 2 ^ 32) @ s"

definition writePrevHash :: "string \<Rightarrow> string" where
  "writePrevHash h = (let b = fst (decodeHex h) in if length b = 0 then replicate 32 (char_of (0 :: nat)) else b)"

definition canonicalInferenceEventBytes :: "InferenceEvent \<Rightarrow> int \<Rightarrow> string \<Rightarrow> string" where
  "canonicalInferenceEventBytes e seq prevHash =
     writePrevHash prevHash @ beBytes 8 (nat (seq mod 2 ^ 64)) @ writeStr (ieRequestID e) @ writeStr (ieAPIKeyHash e) @
     writeStr (ieModelID e) @ writeStr (ieTenantID e) @ writeStr (rfc3339 (ieTimestamp e)) @ writeStr (ieEndpoint e) @
     writeStr (ieFinishReason e)"

definition inferenceHash :: "InferenceEvent \<Rightarrow> int \<Rightarrow> string \<Rightarrow> string" where
  "inferenceHash e seq prevHash = EncodeToString (sha256 (canonicalInferenceEventBytes e seq prevHash))"

text \<open>\<^verbatim>\<open>String\<close> of a nullable text column.\<close>

definition nullString :: "string option \<Rightarrow> string" where
  "nullString s = (case s of Some x \<Rightarrow> x | None \<Rightarrow> '''')"

text \<open>\<^verbatim>\<open>WHERE seq IS NOT NULL ORDER BY seq ASC\<close>.\<close>

definition chainRows :: "InferenceRow list \<Rightarrow> InferenceRow list" where
  "chainRows t = sort_key (\<lambda>r. the (irSeq r)) (filter (\<lambda>r. irSeq r \<noteq> None) t)"

definition nextInferenceID :: "InferenceRow list \<Rightarrow> int" where
  "nextInferenceID t = foldl max 0 (map (\<lambda>r. ieID (irEvent r)) t) + 1"

text \<open>The sequence number and the previous hash for the next row.\<close>

definition inferenceNext :: "InferenceRow list \<Rightarrow> int \<times> string" where
  "inferenceNext t =
     (let rows = chainRows t
      in if rows = [] then (inferenceFirstSeq, inferenceGenesisPrevHash)
         else (wrap64 (the (irSeq (last rows)) + 1), nullString (irHash (last rows))))"

definition inferenceRow :: "int \<Rightarrow> InferenceEvent \<Rightarrow> int \<Rightarrow> string \<Rightarrow> InferenceRow" where
  "inferenceRow i e seq prevHash =
     \<lparr>irEvent = e\<lparr>ieID := i, ieTimestamp := UTC (ieTimestamp e)\<rparr>, irSeq = Some seq, irPrevHash = Some prevHash,
      irHash = Some (inferenceHash e seq prevHash)\<rparr>"

definition RecordInferenceEvent ::
  "(nat \<Rightarrow> string option) \<Rightarrow> Time \<Rightarrow> DB \<Rightarrow> InferenceEvent option \<Rightarrow> DB \<times> append_err option" where
  "RecordInferenceEvent flt now db event =
     (case event of None \<Rightarrow> (db, None) | Some event \<Rightarrow>
      (let ev = (if IsZero (ieTimestamp event) then event\<lparr>ieTimestamp := UTC now\<rparr> else event) in
       case flt 0 of Some f \<Rightarrow> (db, Some (AppendFault ''begin'' (DBFault f))) | None \<Rightarrow>
       (case flt 1 of Some f \<Rightarrow> (db, Some (AppendFault ''read tail'' (DBFault f))) | None \<Rightarrow>
        (case inferenceNext (inferenceT db) of (seq, prevHash) \<Rightarrow>
         (let row = inferenceRow (nextInferenceID (inferenceT db)) ev seq prevHash in
          case flt 2 of Some f \<Rightarrow> (db, Some (AppendFault '''' (DBFault f))) | None \<Rightarrow>
          (let t = (if ieRequestID ev \<in> (\<lambda>r. ieRequestID (irEvent r)) ` set (inferenceT db) \<or> Some seq \<in> irSeq ` set (inferenceT db)
                    then inferenceT db else inferenceT db @ [row]) in
           case flt 3 of Some f \<Rightarrow> (db, Some (AppendFault ''commit'' (DBFault f))) | None \<Rightarrow>
           (db\<lparr>inferenceT := t\<rparr>, None)))))))"

text \<open>The loop over the rows: the previous hash and sequence number, and the rows passed so far.\<close>

fun verifyRows :: "string \<Rightarrow> int \<Rightarrow> int \<Rightarrow> InferenceRow list \<Rightarrow> int \<times> bool \<times> int" where
  "verifyRows prevHash prevSeq len [] = (len, True, - 1)"
| "verifyRows prevHash prevSeq len (r # rs) =
     (let seq = the (irSeq r) in
      if prevSeq \<ge> 0 \<and> seq \<noteq> wrap64 (prevSeq + 1) then (len, False, seq)
      else if prevSeq < 0 \<and> seq \<noteq> inferenceFirstSeq then (len, False, seq)
      else if nullString (irPrevHash r) \<noteq> prevHash then (len, False, seq)
      else if inferenceHash (irEvent r) seq (nullString (irPrevHash r)) \<noteq> nullString (irHash r) then (len, False, seq)
      else verifyRows (nullString (irHash r)) seq (wrap64 (len + 1)) rs)"

definition VerifyInferenceChain :: "string option \<Rightarrow> DB \<Rightarrow> reg_err + (int \<times> bool \<times> int)" where
  "VerifyInferenceChain flt db =
     exec flt ''verify inference chain'' '''' (Inr (verifyRows inferenceGenesisPrevHash (- 1) 0 (chainRows (inferenceT db))))"

section \<open>Erasure\<close>

definition erasedHash :: "Time \<Rightarrow> string" where
  "erasedHash now = ''ERASED-'' @ compactDate (UTC now)"

definition eraseRow :: "Time \<Rightarrow> InferenceRow \<Rightarrow> InferenceRow" where
  "eraseRow now r = r\<lparr>irEvent := (irEvent r)\<lparr>ieAPIKeyHash := erasedHash now, ieClientIPPrefix := ''0.0.0.0/0'',
     ieTenantID := (if ieTenantID (irEvent r) \<noteq> '''' then ''ERASED'' else '''')\<rparr>\<rparr>"

definition EraseInferenceEventsBySubject :: "string option \<Rightarrow> Time \<Rightarrow> DB \<Rightarrow> string \<Rightarrow> DB \<times> (reg_err + nat)" where
  "EraseInferenceEventsBySubject flt now db subjectHash =
     (case exec flt ''erase_inference_events'' ''''
             (Inr (updateRows (\<lambda>r. ieAPIKeyHash (irEvent r)) subjectHash (eraseRow now) (inferenceT db))) of
        Inl err \<Rightarrow> (db, Inl err)
      | Inr (t, n) \<Rightarrow> (db\<lparr>inferenceT := t\<rparr>, Inr n))"

section \<open>Listing\<close>

definition defaultInferenceLimit :: int where
  "defaultInferenceLimit = 100"

definition maxInferenceLimit :: int where
  "maxInferenceLimit = 1000"

record ListInferenceEventsRequest =
  lrAPIKeyHash :: string
  lrModelID :: string
  lrTenantID :: string
  lrAfter :: Time
  lrBefore :: Time
  lrLimit :: "32 word"
  lrPageToken :: string

record ListInferenceEventsResponse =
  lsEvents :: "InferenceEvent list"
  lsNextPageToken :: string

datatype list_err = InvalidPageToken string | ListFailure reg_err

definition pageLimit :: "32 word \<Rightarrow> int" where
  "pageLimit w = (let limit = sint w in if limit \<le> 0 then defaultInferenceLimit
     else if limit > maxInferenceLimit then maxInferenceLimit else limit)"

text \<open>The clauses on the columns, apart from the cursor.\<close>

definition eventMatches :: "ListInferenceEventsRequest \<Rightarrow> InferenceEvent \<Rightarrow> bool" where
  "eventMatches req e \<longleftrightarrow>
     (lrAPIKeyHash req \<noteq> '''' \<longrightarrow> ieAPIKeyHash e = lrAPIKeyHash req) \<and>
     (lrModelID req \<noteq> '''' \<longrightarrow> ieModelID e = lrModelID req) \<and>
     (lrTenantID req \<noteq> '''' \<longrightarrow> ieTenantID e = lrTenantID req) \<and>
     (\<not> IsZero (lrAfter req) \<longrightarrow> rfc3339Nano (UTC (lrAfter req)) < rfc3339Nano (UTC (ieTimestamp e))) \<and>
     (\<not> IsZero (lrBefore req) \<longrightarrow> rfc3339Nano (UTC (ieTimestamp e)) < rfc3339Nano (UTC (lrBefore req)))"

definition emptyRequest :: ListInferenceEventsRequest where
  "emptyRequest = \<lparr>lrAPIKeyHash = '''', lrModelID = '''', lrTenantID = '''', lrAfter = zeroTime, lrBefore = zeroTime,
     lrLimit = 0, lrPageToken = ''''\<rparr>"

definition ListInferenceEvents ::
  "string option \<Rightarrow> DB \<Rightarrow> ListInferenceEventsRequest option \<Rightarrow> list_err + ListInferenceEventsResponse" where
  "ListInferenceEvents flt db r =
     (let req = (case r of None \<Rightarrow> emptyRequest | Some req \<Rightarrow> req);
          limit = nat (pageLimit (lrLimit req));
          query = (\<lambda>cursor. case exec flt ''list inference events'' ''''
                     (Inr (take (limit + 1) (filter (\<lambda>e. cursor (ieID e) \<and> eventMatches req e)
                        (sort_key ieID (map irEvent (inferenceT db)))))) of
                   Inl err \<Rightarrow> Inl (ListFailure err)
                 | Inr events \<Rightarrow>
                     Inr (if length events > limit
                          then \<lparr>lsEvents = take limit events, lsNextPageToken = itoa (ieID (events ! (limit - 1)))\<rparr>
                          else \<lparr>lsEvents = events, lsNextPageToken = ''''\<rparr>))
      in if lrPageToken req \<noteq> '''' then
           (case ParseInt 64 (lrPageToken req) of
              None \<Rightarrow> Inl (InvalidPageToken (lrPageToken req))
            | Some cursorID \<Rightarrow> query (\<lambda>i. i > cursorID))
         else query (\<lambda>i. True))"

section \<open>Reference notions\<close>

primrec infChain :: "string \<Rightarrow> nat \<Rightarrow> InferenceRow list \<Rightarrow> bool" where
  "infChain p k [] \<longleftrightarrow> True"
| "infChain p k (r # rs) \<longleftrightarrow> irSeq r = Some (int k) \<and> nullString (irPrevHash r) = p \<and>
     nullString (irHash r) = inferenceHash (irEvent r) (int k) p \<and> infChain (nullString (irHash r)) (Suc k) rs"

definition infCollision :: "InferenceRow \<Rightarrow> InferenceEvent \<Rightarrow> bool" where
  "infCollision r e \<longleftrightarrow>
     (let x = canonicalInferenceEventBytes (irEvent r) (the (irSeq r)) (nullString (irPrevHash r));
          y = canonicalInferenceEventBytes e (the (irSeq r)) (nullString (irPrevHash r))
      in x \<noteq> y \<and> sha256 x = sha256 y)"

primrec pageAll :: "nat \<Rightarrow> DB \<Rightarrow> ListInferenceEventsRequest \<Rightarrow> InferenceEvent list option" where
  "pageAll 0 db req = None"
| "pageAll (Suc n) db req =
     (case ListInferenceEvents None db (Some req) of
        Inl err \<Rightarrow> None
      | Inr resp \<Rightarrow> if lsNextPageToken resp = '''' then Some (lsEvents resp)
                   else map_option (\<lambda>es. lsEvents resp @ es) (pageAll n db (req\<lparr>lrPageToken := lsNextPageToken resp\<rparr>)))"

section \<open>Reference notions\<close>

text \<open>One round of the loop; \<open>expected\<close> is the sequence number it asks for.\<close>

definition expected :: "int \<Rightarrow> int" where
  "expected prevSeq = (if prevSeq < 0 then inferenceFirstSeq else wrap64 (prevSeq + 1))"

definition prevOf :: "nat \<Rightarrow> int" where
  "prevOf k = (if k = 1 then - 1 else int k - 1)"

text \<open>A successful call with a new request id appends one row at the end of the chain.\<close>

definition recordable :: "DB \<Rightarrow> InferenceEvent \<Rightarrow> bool" where
  "recordable db e \<longleftrightarrow> ieRequestID e \<notin> (\<lambda>r. ieRequestID (irEvent r)) ` set (inferenceT db)"

definition stamped :: "Time \<Rightarrow> InferenceEvent \<Rightarrow> InferenceEvent" where
  "stamped now e = (if IsZero (ieTimestamp e) then e\<lparr>ieTimestamp := UTC now\<rparr> else e)"

definition exInference :: InferenceEvent where
  "exInference = \<lparr>ieID = 0, ieRequestID = ''req-1'', ieAPIKeyHash = ''k1'', ieModelID = ''m1'', ieTenantID = ''t1'',
     ieTimestamp = zeroTime, iePromptTokens = 10, ieCompletionTokens = 20, ieEndpoint = ''openai'', ieClientIPPrefix = ''10.0.0.0'',
     ieLatencyMs = 12, ieFinishReason = ''stop'', ieModelRevision = [], ieModelQuantization = [], ieNodeID = [],
     ieInferenceEngine = []\<rparr>"

text \<open>The rows behind a cursor, and the page they give.\<close>

definition cursorOf :: "string \<Rightarrow> (int \<Rightarrow> bool) option" where
  "cursorOf tok = (if tok = '''' then Some (\<lambda>_. True) else map_option (\<lambda>c i. i > c) (ParseInt 64 tok))"

definition rowsFrom :: "DB \<Rightarrow> ListInferenceEventsRequest \<Rightarrow> (int \<Rightarrow> bool) \<Rightarrow> InferenceEvent list" where
  "rowsFrom db req c = filter (\<lambda>e. c (ieID e) \<and> eventMatches req e) (sort_key ieID (map irEvent (inferenceT db)))"

definition exInferenceLog :: DB where
  "exInferenceLog = emptyDB\<lparr>inferenceT := [inferenceRow 1 exInference 1 inferenceGenesisPrevHash,
     \<lparr>irEvent = exInference\<lparr>ieID := 2, ieRequestID := ''req-0''\<rparr>, irSeq = None, irPrevHash = None, irHash = None\<rparr>]\<rparr>"

section \<open>Verification\<close>

lemma infChain_append:
  "infChain p k (xs @ ys) \<longleftrightarrow>
     infChain p k xs \<and> infChain (if xs = [] then p else nullString (irHash (last xs))) (k + length xs) ys"
  by (induction xs arbitrary: p k) auto

lemma verifyRows_Cons:
  "verifyRows p prevSeq n (r # rs) =
     (if the (irSeq r) = expected prevSeq \<and> nullString (irPrevHash r) = p \<and>
         inferenceHash (irEvent r) (the (irSeq r)) p = nullString (irHash r)
      then verifyRows (nullString (irHash r)) (the (irSeq r)) (wrap64 (n + 1)) rs else (n, False, the (irSeq r)))"
  by (cases "prevSeq < 0"; cases "nullString (irPrevHash r) = p") (simp_all add: expected_def Let_def)

lemma expected_next: "1 \<le> k \<Longrightarrow> int k < 2 ^ 63 \<Longrightarrow> expected (prevOf k) = int k" "1 \<le> k \<Longrightarrow> prevOf (Suc k) = int k"
  "prevOf 1 = - 1"
  by (simp_all add: expected_def prevOf_def inferenceFirstSeq_def wrap64_id)

lemmas verifyRows_unfold = verifyRows_Cons expected_next

declare verifyRows.simps(2) [simp del]

text \<open>The loop accepts exactly the chains, and counts them.\<close>

lemma verifyRows_chain:
  assumes "infChain p k rs" "1 \<le> k" "int k + int (length rs) < 2 ^ 63" "0 \<le> n" "n + int (length rs) < 2 ^ 63"
  shows "verifyRows p (prevOf k) n rs = (n + int (length rs), True, - 1)"
  using assms
proof (induction rs arbitrary: p k n)
  case (Cons r rs)
  have k: "int k < 2 ^ 63" "wrap64 (n + 1) = n + 1" using Cons.prems(3-5) by (simp_all add: wrap64_id)
  have "verifyRows (nullString (irHash r)) (prevOf (Suc k)) (n + 1) rs = (n + 1 + int (length rs), True, - 1)"
    by (rule Cons.IH) (use Cons.prems in auto)
  then show ?case using Cons.prems(1,2) k by (simp add: verifyRows_unfold)
qed simp

lemma verifyRows_True:
  assumes "verifyRows p (prevOf k) n rs = (m, True, b)" "1 \<le> k" "int k + int (length rs) < 2 ^ 63"
    "\<forall>r \<in> set rs. irSeq r \<noteq> None"
  shows "infChain p k rs"
  using assms
proof (induction rs arbitrary: p k n)
  case (Cons r rs)
  have k: "int k < 2 ^ 63" using Cons.prems(3) by simp
  have seq: "the (irSeq r) = int k" "nullString (irPrevHash r) = p"
    "inferenceHash (irEvent r) (int k) p = nullString (irHash r)"
    "verifyRows (nullString (irHash r)) (prevOf (Suc k)) (wrap64 (n + 1)) rs = (m, True, b)"
    using Cons.prems(1,2) k by (auto simp: verifyRows_unfold split: if_splits)
  have "infChain (nullString (irHash r)) (Suc k) rs"
    by (rule Cons.IH [OF seq(4)]) (use Cons.prems(3,4) in auto)
  then show ?case using seq(1-3) Cons.prems(4) by auto
qed simp

text \<open>A changed row is where the loop stops.\<close>

lemma verifyRows_break:
  assumes "infChain p k (xs @ r # ys)" "irSeq r' = irSeq r" "irPrevHash r' = irPrevHash r" "irHash r' = irHash r"
    "inferenceHash (irEvent r') (the (irSeq r)) (nullString (irPrevHash r)) \<noteq> nullString (irHash r)"
    "1 \<le> k" "int k + int (length xs) < 2 ^ 63" "0 \<le> n" "n + int (length xs) < 2 ^ 63"
  shows "verifyRows p (prevOf k) n (xs @ r' # ys') = (n + int (length xs), False, int (k + length xs))"
  using assms(1,6-)
proof (induction xs arbitrary: p k n)
  case Nil
  then show ?case using assms(2-5) by (auto simp: verifyRows_unfold)
next
  case (Cons x xs)
  have k: "int k < 2 ^ 63" "wrap64 (n + 1) = n + 1" using Cons.prems(3-5) by (simp_all add: wrap64_id)
  have "verifyRows (nullString (irHash x)) (prevOf (Suc k)) (n + 1) (xs @ r' # ys') =
      (n + 1 + int (length xs), False, int (Suc k + length xs))"
    by (rule Cons.IH) (use Cons.prems in auto)
  then show ?case using Cons.prems(1,2) k by (simp add: verifyRows_unfold)
qed

section \<open>The rows of the chain\<close>

lemma insort_key_max: "f a \<le> f y \<Longrightarrow> insort_key f a (zs @ [y]) = insort_key f a zs @ [y]"
  by (induction zs) auto

lemma sort_key_max: "\<forall>x \<in> set xs. f x \<le> f y \<Longrightarrow> sort_key f (xs @ [y]) = sort_key f xs @ [y]"
  by (induction xs) (auto simp: insort_key_max)

lemma insort_key_map: "(\<And>x. f (g x) = f x) \<Longrightarrow> insort_key f (g x) (map g xs) = map g (insort_key f x xs)"
  by (induction xs) auto

lemma sort_key_map: "(\<And>x. f (g x) = f x) \<Longrightarrow> sort_key f (map g xs) = map g (sort_key f xs)"
  by (induction xs) (simp_all add: insort_key_map)

lemma set_chainRows: "set (chainRows t) = {r \<in> set t. irSeq r \<noteq> None}"
  by (auto simp: chainRows_def)

lemma length_chainRows: "length (chainRows t) \<le> length t"
  by (simp add: chainRows_def)

lemma infChain_seq: "infChain p k rs \<Longrightarrow> i < length rs \<Longrightarrow> irSeq (rs ! i) = Some (int (k + i))"
  by (induction rs arbitrary: p k i) (auto simp: nth_Cons split: nat.split)

lemma Verify_chain_iff:
  assumes "length (inferenceT db) < 2 ^ 63 - 1"
  shows "VerifyInferenceChain None db = Inr (n, True, b) \<longleftrightarrow>
      infChain inferenceGenesisPrevHash 1 (chainRows (inferenceT db)) \<and> n = int (length (chainRows (inferenceT db))) \<and> b = - 1"
proof -
  let ?rs = "chainRows (inferenceT db)"
  have len: "int (length ?rs) < 2 ^ 63 - 1"
    using assms length_chainRows [of "inferenceT db"] by simp
  have "infChain inferenceGenesisPrevHash 1 ?rs" if "VerifyInferenceChain None db = Inr (n, True, b)"
    by (rule verifyRows_True [of _ 1 0 _ n b, unfolded expected_next(3)])
      (use len that in \<open>auto simp: VerifyInferenceChain_def exec_def set_chainRows\<close>)
  moreover have "VerifyInferenceChain None db = Inr (int (length ?rs), True, - 1)" if "infChain inferenceGenesisPrevHash 1 ?rs"
    using verifyRows_chain [of inferenceGenesisPrevHash 1 ?rs 0, unfolded expected_next(3)] len that
    by (auto simp: VerifyInferenceChain_def exec_def)
  ultimately show ?thesis by auto
qed

section \<open>Canonical bytes\<close>

lemma writeStr_same: "writeStr a = writeStr b \<longleftrightarrow> a = b"
  by (auto simp: writeStr_def append_eq_append_conv)

lemma writeStr_inj:
  assumes "length a < 2 ^ 32" "length b < 2 ^ 32" "writeStr a @ x = writeStr b @ y"
  shows "a = b"
proof -
  have "beBytes 4 (length a) = beBytes 4 (length b)" "a @ x = b @ y"
    using assms by (auto simp: writeStr_def append_eq_append_conv)
  moreover have "beBytes 4 (length a) = beBytes 4 (length b) \<longleftrightarrow> length a = length b"
    using assms(1,2) by (intro beBytes_inj) simp_all
  ultimately show ?thesis by simp
qed

lemma eraseRow_bytes:
  assumes "length (ieAPIKeyHash (irEvent r)) < 2 ^ 32" "length (erasedHash now) < 2 ^ 32" "ieAPIKeyHash (irEvent r) \<noteq> erasedHash now"
  shows "canonicalInferenceEventBytes (irEvent r) s p \<noteq> canonicalInferenceEventBytes (irEvent (eraseRow now r)) s p"
  using writeStr_inj [OF assms(1,2)] assms(3) by (auto simp: canonicalInferenceEventBytes_def eraseRow_def)

lemma offset_bytes:
  assumes "tOffset (ieTimestamp e) \<noteq> 0"
  shows "canonicalInferenceEventBytes (e\<lparr>ieTimestamp := UTC (ieTimestamp e)\<rparr>) s p \<noteq> canonicalInferenceEventBytes e s p"
  using rfc3339_UTC_iff [of "ieTimestamp e"] assms by (auto simp: canonicalInferenceEventBytes_def writeStr_same)

lemma canonical_id [simp]: "canonicalInferenceEventBytes (e\<lparr>ieID := i\<rparr>) s p = canonicalInferenceEventBytes e s p"
  by (simp add: canonicalInferenceEventBytes_def)

lemma inferenceHash_id [simp]: "inferenceHash (e\<lparr>ieID := i\<rparr>) s p = inferenceHash e s p"
  by (simp add: inferenceHash_def)

lemma inferenceHash_eq: "inferenceHash e s p = inferenceHash e' s p \<longleftrightarrow>
   sha256 (canonicalInferenceEventBytes e s p) = sha256 (canonicalInferenceEventBytes e' s p)"
  by (simp add: inferenceHash_def EncodeToString_inj)

section \<open>Erasing\<close>

lemma eraseRow_sel [simp]: "irSeq (eraseRow now r) = irSeq r" "irPrevHash (eraseRow now r) = irPrevHash r" "irHash (eraseRow now r) = irHash r"
  by (simp_all add: eraseRow_def)

lemma chainRows_map:
  assumes "\<And>r. irSeq (g r) = irSeq r"
  shows "chainRows (map g t) = map g (chainRows t)"
  using assms sort_key_map [of "\<lambda>r. the (irSeq r)" g] by (simp add: chainRows_def filter_map o_def)

lemma erase_breaks:
  assumes "length (inferenceT db) < 2 ^ 63 - 1" "VerifyInferenceChain None db = Inr (n, True, b)"
    "EraseInferenceEventsBySubject None now db subject = (db', Inr c)"
    "r \<in> set (inferenceT db)" "irSeq r \<noteq> None" "ieAPIKeyHash (irEvent r) = subject"
    "subject \<noteq> erasedHash now" "length subject < 2 ^ 32" "length (erasedHash now) < 2 ^ 32"
  shows "(\<exists>k. 0 \<le> k \<and> k < n \<and> VerifyInferenceChain None db' = Inr (k, False, k + 1)) \<or>
    (\<exists>r \<in> set (inferenceT db). ieAPIKeyHash (irEvent r) = subject \<and> infCollision r (irEvent (eraseRow now r)))"
proof -
  let ?g = "\<lambda>r. if ieAPIKeyHash (irEvent r) = subject then eraseRow now r else r"
  let ?rs = "chainRows (inferenceT db)"
  have t: "inferenceT db' = map ?g (inferenceT db)"
    using assms(3) by (auto simp: EraseInferenceEventsBySubject_def exec_def updateRows_def)
  have ch: "chainRows (inferenceT db') = map ?g ?rs" unfolding t by (rule chainRows_map) simp
  have c: "infChain inferenceGenesisPrevHash 1 ?rs" and n: "n = int (length ?rs)"
    using Verify_chain_iff [OF assms(1)] assms(2) by auto
  have "\<exists>x \<in> set ?rs. ieAPIKeyHash (irEvent x) = subject" using assms(4-6) by (auto simp: set_chainRows)
  from split_list_first_prop [OF this] obtain xs x ys
    where rs: "?rs = xs @ x # ys" "ieAPIKeyHash (irEvent x) = subject" "\<forall>z \<in> set xs. ieAPIKeyHash (irEvent z) \<noteq> subject"
    by blast
  have map: "map ?g ?rs = xs @ eraseRow now x # map ?g ys" using rs(2,3) unfolding rs(1) by (simp add: map_idI)
  have len: "int (length ?rs) < 2 ^ 63 - 1" using assms(1) length_chainRows [of "inferenceT db"] by simp
  have hash: "nullString (irHash x) = inferenceHash (irEvent x) (the (irSeq x)) (nullString (irPrevHash x))"
    using c unfolding rs(1) infChain_append by auto
  show ?thesis
  proof (cases "inferenceHash (irEvent (eraseRow now x)) (the (irSeq x)) (nullString (irPrevHash x)) = nullString (irHash x)")
    case True
    then have "infCollision x (irEvent (eraseRow now x))"
      using eraseRow_bytes [of x now] assms(7-9) rs(2) hash by (auto simp: infCollision_def inferenceHash_eq Let_def)
    moreover have "x \<in> set (inferenceT db)" using rs(1) set_chainRows [of "inferenceT db"] by auto
    ultimately show ?thesis using rs(2) by blast
  next
    case False
    have "verifyRows inferenceGenesisPrevHash (prevOf 1) 0 (xs @ eraseRow now x # map ?g ys) = (0 + int (length xs), False, int (1 + length xs))"
      by (rule verifyRows_break [OF c [unfolded rs(1)] _ _ _ False]) (use len rs(1) in simp_all)
    then have "VerifyInferenceChain None db' = Inr (int (length xs), False, int (length xs) + 1)"
      unfolding VerifyInferenceChain_def ch map expected_next(3) by (simp add: exec_def)
    then show ?thesis using n rs(1) by (intro disjI1 exI [of _ "int (length xs)"]) simp
  qed
qed

section \<open>Recording\<close>

text \<open>The next row of a chain: its number and previous hash.\<close>

lemma inferenceNext_chain:
  assumes "infChain inferenceGenesisPrevHash 1 (chainRows t)" "length t < 2 ^ 63 - 1"
  shows "inferenceNext t = (1 + int (length (chainRows t)),
     if chainRows t = [] then inferenceGenesisPrevHash else nullString (irHash (last (chainRows t))))"
proof (cases "chainRows t = []")
  case False
  then have "irSeq (last (chainRows t)) = Some (int (length (chainRows t)))"
    using infChain_seq [OF assms(1), of "length (chainRows t) - 1"] by (simp add: last_conv_nth)
  moreover have "wrap64 (int (length (chainRows t)) + 1) = int (length (chainRows t)) + 1"
    using assms(2) length_chainRows [of t] by (intro wrap64_id) simp_all
  ultimately show ?thesis using False by (simp add: inferenceNext_def Let_def)
qed (simp add: inferenceNext_def inferenceFirstSeq_def)

lemma chain_seq_fresh:
  assumes "infChain inferenceGenesisPrevHash 1 (chainRows t)" "r \<in> set t" "irSeq r = Some s"
  shows "1 \<le> s \<and> s \<le> int (length (chainRows t))"
proof -
  have "r \<in> set (chainRows t)" using assms(2,3) by (simp add: set_chainRows)
  then obtain i where "i < length (chainRows t)" "r = chainRows t ! i" by (metis in_set_conv_nth)
  then show ?thesis using infChain_seq [OF assms(1), of i] assms(3) by simp
qed

lemma Record_cases:
  assumes "infChain inferenceGenesisPrevHash 1 (chainRows (inferenceT db))" "length (inferenceT db) < 2 ^ 63 - 1"
    "RecordInferenceEvent flt now db (Some e) = (db', err)"
  shows "if \<exists>k < 4. flt k \<noteq> None then err \<noteq> None \<and> db' = db
    else err = None \<and> (if recordable db e then \<exists>p. inferenceT db' = inferenceT db @
            [inferenceRow (nextInferenceID (inferenceT db)) (stamped now e) (1 + int (length (chainRows (inferenceT db)))) p] \<and>
            p = (if chainRows (inferenceT db) = [] then inferenceGenesisPrevHash else nullString (irHash (last (chainRows (inferenceT db)))))
          else db' = db)"
proof -
  let ?n = "1 + int (length (chainRows (inferenceT db)))"
  have "Some ?n \<notin> irSeq ` set (inferenceT db)"
    using chain_seq_fresh [OF assms(1), of _ ?n] by (metis add_le_same_cancel2 imageE not_one_le_zero)
  moreover have "ieRequestID (stamped now e) = ieRequestID e" by (simp add: stamped_def)
  moreover have "(\<exists>k < (4 :: nat). flt k \<noteq> None) \<longleftrightarrow> flt 0 \<noteq> None \<or> flt 1 \<noteq> None \<or> flt 2 \<noteq> None \<or> flt 3 \<noteq> None"
    by (auto simp: less_Suc_eq numeral_eq_Suc)
  ultimately show ?thesis
    using assms(3) unfolding RecordInferenceEvent_def stamped_def [symmetric] inferenceNext_chain [OF assms(1,2)] recordable_def
    by (auto simp: Let_def split: option.splits if_splits)
qed

lemma chainRows_snoc:
  assumes "infChain inferenceGenesisPrevHash 1 (chainRows t)" "irSeq r = Some (1 + int (length (chainRows t)))"
  shows "chainRows (t @ [r]) = chainRows t @ [r]"
proof -
  have "\<forall>x \<in> set (filter (\<lambda>r. irSeq r \<noteq> None) t). the (irSeq x) \<le> the (irSeq r)"
    using chain_seq_fresh [OF assms(1)] assms(2) by fastforce
  from sort_key_max [OF this] show ?thesis using assms(2) by (simp add: chainRows_def)
qed

text \<open>What verification says after a row is appended.\<close>

lemma verify_snoc:
  assumes "infChain inferenceGenesisPrevHash 1 (chainRows (inferenceT db))" "length (inferenceT db) < 2 ^ 63 - 2"
    "p = (if chainRows (inferenceT db) = [] then inferenceGenesisPrevHash else nullString (irHash (last (chainRows (inferenceT db)))))"
    "r = inferenceRow i e (1 + int (length (chainRows (inferenceT db)))) p" "inferenceT db' = inferenceT db @ [r]"
  shows "VerifyInferenceChain None db' =
    (let n = int (length (chainRows (inferenceT db))) in
     if inferenceHash (irEvent r) (1 + n) p = inferenceHash e (1 + n) p then Inr (n + 1, True, - 1) else Inr (n, False, n + 1))"
proof -
  let ?rs = "chainRows (inferenceT db)"
  have r: "irSeq r = Some (1 + int (length ?rs))" "irPrevHash r = Some p" "irHash r = Some (inferenceHash e (1 + int (length ?rs)) p)"
    by (simp_all add: assms(4) inferenceRow_def)
  have ch: "chainRows (inferenceT db') = ?rs @ [r]" unfolding assms(5) using chainRows_snoc [OF assms(1) r(1)] .
  have len: "int (length ?rs) < 2 ^ 63 - 2" using assms(2) length_chainRows [of "inferenceT db"] by simp
  show ?thesis
  proof (cases "inferenceHash (irEvent r) (1 + int (length ?rs)) p = inferenceHash e (1 + int (length ?rs)) p")
    case True
    then have c: "infChain inferenceGenesisPrevHash 1 (chainRows (inferenceT db'))"
      unfolding ch infChain_append using assms(1,3) r by (simp add: nullString_def)
    moreover have "length (inferenceT db') < 2 ^ 63 - 1" using assms(2,5) by simp
    from Verify_chain_iff [OF this, of "1 + int (length ?rs)" "- 1"] show ?thesis
      using c True ch by (simp add: Let_def add.commute)
  next
    case False
    let ?x = "r\<lparr>irEvent := e\<rparr>"
    have "infChain inferenceGenesisPrevHash 1 (?rs @ [?x])"
      unfolding infChain_append using assms(1,3) r by (simp add: nullString_def)
    from verifyRows_break [OF this, of r 0 "[]"] show ?thesis
      using r False len ch unfolding expected_next(3) by (simp add: VerifyInferenceChain_def exec_def Let_def nullString_def add.commute)
  qed
qed

section \<open>Pages\<close>

lemma eventMatches_token [simp]: "eventMatches (req\<lparr>lrPageToken := tok\<rparr>) = eventMatches req"
  by (simp add: eventMatches_def fun_eq_iff)

lemma rowsFrom_token [simp]: "rowsFrom db (req\<lparr>lrPageToken := tok\<rparr>) = rowsFrom db req"
  by (simp add: rowsFrom_def fun_eq_iff)

lemma pageLimit_range: "1 \<le> pageLimit w \<and> pageLimit w \<le> 1000"
  by (simp add: pageLimit_def defaultInferenceLimit_def maxInferenceLimit_def Let_def)

lemma ListInferenceEvents_page:
  assumes "cursorOf (lrPageToken req) = Some c" "limit = nat (pageLimit (lrLimit req))" "rs = rowsFrom db req c"
  shows "ListInferenceEvents None db (Some req) =
    Inr (if length rs > limit then \<lparr>lsEvents = take limit rs, lsNextPageToken = itoa (ieID (rs ! (limit - 1)))\<rparr>
         else \<lparr>lsEvents = rs, lsNextPageToken = ''''\<rparr>)"
proof -
  have "0 < limit" using pageLimit_range [of "lrLimit req"] assms(2) by linarith
  then show ?thesis using assms
    by (auto simp: ListInferenceEvents_def cursorOf_def rowsFrom_def exec_def Let_def split: if_splits)
qed

lemma filter_after:
  assumes "sorted_wrt (<) (map f xs)" "i < length xs"
  shows "filter (\<lambda>e. f (xs ! i) < (f e :: 'a :: linorder)) xs = drop (Suc i) xs"
proof -
  have "\<forall>e \<in> set (take (Suc i) xs). \<not> f (xs ! i) < f e"
  proof
    fix e assume "e \<in> set (take (Suc i) xs)"
    then obtain j where "j \<le> i" "e = xs ! j" by (auto simp: in_set_conv_nth less_Suc_eq_le)
    then show "\<not> f (xs ! i) < f e" using assms sorted_wrt_nth_less [OF assms(1), of j i] by (cases "j = i") auto
  qed
  moreover have "\<forall>e \<in> set (drop (Suc i) xs). f (xs ! i) < f e"
    using assms sorted_wrt_nth_less [OF assms(1), of i] by (auto simp: in_set_conv_nth)
  ultimately have "filter (\<lambda>e. f (xs ! i) < f e) (take (Suc i) xs @ drop (Suc i) xs) = drop (Suc i) xs"
    by (simp add: filter_empty_conv filter_id_conv del: append_take_drop_id)
  then show ?thesis by simp
qed

lemma rowsFrom_sorted:
  assumes "distinct (map (\<lambda>r. ieID (irEvent r)) (inferenceT db))"
  shows "sorted_wrt (<) (map ieID (rowsFrom db req c))"
proof -
  have "distinct (map ieID (sort_key ieID (map irEvent (inferenceT db))))"
    using assms by (auto simp: distinct_map inj_on_def)
  then have "sorted_wrt (<) (map ieID (sort_key ieID (map irEvent (inferenceT db))))"
    by (simp add: strict_sorted_iff)
  then show ?thesis unfolding rowsFrom_def by (simp add: sorted_wrt_map sorted_wrt_filter)
qed

lemma rowsFrom_filter:
  assumes "\<And>i. i > a \<Longrightarrow> c i"
  shows "rowsFrom db req (\<lambda>i. i > a) = filter (\<lambda>e. a < ieID e) (rowsFrom db req c)"
  unfolding rowsFrom_def filter_filter by (rule filter_cong) (auto simp: assms)

lemma rowsFrom_next:
  assumes "distinct (map (\<lambda>r. ieID (irEvent r)) (inferenceT db))" "\<And>i j. c i \<Longrightarrow> i \<le> j \<Longrightarrow> c j" "k < length (rowsFrom db req c)"
  shows "rowsFrom db req (\<lambda>i. i > ieID (rowsFrom db req c ! k)) = drop (Suc k) (rowsFrom db req c)"
proof -
  let ?a = "ieID (rowsFrom db req c ! k)"
  have "c ?a" using nth_mem [OF assms(3)] by (simp add: rowsFrom_def)
  then have "i > ?a \<Longrightarrow> c i" for i using assms(2) less_imp_le by blast
  then have "rowsFrom db req (\<lambda>i. i > ?a) = filter (\<lambda>e. ?a < ieID e) (rowsFrom db req c)" by (rule rowsFrom_filter)
  then show ?thesis using filter_after [OF rowsFrom_sorted [OF assms(1)] assms(3)] by simp
qed

lemma pageAll_from:
  assumes "distinct (map (\<lambda>r. ieID (irEvent r)) (inferenceT db))"
    "\<And>r. r \<in> set (inferenceT db) \<Longrightarrow> - (2 ^ 63) \<le> ieID (irEvent r) \<and> ieID (irEvent r) < 2 ^ 63"
    "cursorOf (lrPageToken req) = Some c" "\<And>i j. c i \<Longrightarrow> i \<le> j \<Longrightarrow> c j" "length (rowsFrom db req c) < n"
  shows "pageAll n db req = Some (rowsFrom db req c)"
  using assms(3-5)
proof (induction n arbitrary: req c)
  case (Suc n)
  let ?rs = "rowsFrom db req c"
  let ?l = "nat (pageLimit (lrLimit req))"
  have l: "0 < ?l" using pageLimit_range [of "lrLimit req"] by linarith
  show ?case
  proof (cases "length ?rs > ?l")
    case False
    then show ?thesis using ListInferenceEvents_page [OF Suc.prems(1) refl refl, of db] by simp
  next
    case True
    let ?k = "ieID (?rs ! (?l - 1))"
    have "?rs ! (?l - 1) \<in> set ?rs" using True l by (intro nth_mem) simp
    then have "- (2 ^ 63) \<le> ?k \<and> ?k < 2 ^ 63" using assms(2) by (auto simp: rowsFrom_def)
    then have cur: "cursorOf (itoa ?k) = Some (\<lambda>i. i > ?k)" by (simp add: cursorOf_def ParseInt_itoa)
    have "rowsFrom db req (\<lambda>i. i > ?k) = drop (Suc (?l - 1)) ?rs"
      by (rule rowsFrom_next [OF assms(1)]) (use Suc.prems(2) True l in auto)
    then have nxt: "rowsFrom db req (\<lambda>i. i > ?k) = drop ?l ?rs" using l by simp
    have "pageAll n db (req\<lparr>lrPageToken := itoa ?k\<rparr>) = Some (rowsFrom db (req\<lparr>lrPageToken := itoa ?k\<rparr>) (\<lambda>i. i > ?k))"
      by (rule Suc.IH) (use cur nxt True l Suc.prems(3) in auto)
    then show ?thesis using ListInferenceEvents_page [OF Suc.prems(1) refl refl, of db] True nxt by simp
  qed
qed simp

text \<open>The verdict after an event is recorded, by its offset.\<close>

lemma stored_event: "irEvent (inferenceRow i e s p) = (e\<lparr>ieTimestamp := UTC (ieTimestamp e)\<rparr>)\<lparr>ieID := i\<rparr>"
  by (simp add: inferenceRow_def)

lemma Record_utc:
  assumes "IsZero (ieTimestamp e) \<or> tOffset (ieTimestamp e) = 0"
  shows "inferenceHash (irEvent (inferenceRow i (stamped now e) s p)) s p = inferenceHash (stamped now e) s p"
proof -
  have "UTC (ieTimestamp (stamped now e)) = ieTimestamp (stamped now e)"
    using assms by (auto simp: stamped_def UTC_def)
  then have "(stamped now e)\<lparr>ieTimestamp := UTC (ieTimestamp (stamped now e))\<rparr> = stamped now e" by simp
  then show ?thesis unfolding stored_event by (simp only: inferenceHash_id)
qed

section \<open>Properties\<close>

text \<open>C28: Recording keeps the inference log verifiable: an error leaves the log as it was, a repeated request id is ignored,
  and any other event with no timestamp or one in UTC extends the verified chain by one.\<close>

theorem RecordInferenceEvent_chain:
  assumes "length (inferenceT db) < 2 ^ 63 - 2" "VerifyInferenceChain None db = Inr (n, True, - 1)"
    "RecordInferenceEvent flt now db (Some e) = (db', err)" "IsZero (ieTimestamp e) \<or> tOffset (ieTimestamp e) = 0"
  shows "(err = None \<longleftrightarrow> (\<forall>k < 4. flt k = None)) \<and>
    (if err \<noteq> None \<or> \<not> recordable db e then db' = db else VerifyInferenceChain None db' = Inr (n + 1, True, - 1))"
proof -
  have len: "length (inferenceT db) < 2 ^ 63 - 1" using assms(1) by simp
  have c: "infChain inferenceGenesisPrevHash 1 (chainRows (inferenceT db))" and n: "n = int (length (chainRows (inferenceT db)))"
    using Verify_chain_iff [OF len] assms(2) by auto
  show ?thesis
    using Record_cases [OF c len assms(3)] verify_snoc [OF c assms(1) refl refl, of db'] n
    by (auto simp: Let_def Record_utc [OF assms(4)] split: if_splits)
qed

theorem RecordInferenceEvent_chain_witness:
  "\<exists>db'. RecordInferenceEvent (\<lambda>_. None) zeroTime emptyDB (Some exInference) = (db', None) \<and>
     VerifyInferenceChain None db' = Inr (1, True, - 1)"
proof -
  obtain db' err where r: "RecordInferenceEvent (\<lambda>_. None) zeroTime emptyDB (Some exInference) = (db', err)" by fastforce
  have "VerifyInferenceChain None emptyDB = Inr (0, True, - 1)" "length (inferenceT emptyDB) < 2 ^ 63 - 2"
    by (simp_all add: VerifyInferenceChain_def exec_def emptyDB_def chainRows_def)
  from RecordInferenceEvent_chain [OF this(2,1) r] show ?thesis
    using r by (simp add: exInference_def zeroTime_def recordable_def emptyDB_def)
qed



text \<open>C29: Following the page tokens from the first page enumerates, for every limit and filter, exactly the matching events in
  the order of their ids: no event is skipped or repeated, and the last page has no token.\<close>

theorem ListInferenceEvents_pages:
  assumes "distinct (map (\<lambda>r. ieID (irEvent r)) (inferenceT db))"
    "\<And>r. r \<in> set (inferenceT db) \<Longrightarrow> - (2 ^ 63) \<le> ieID (irEvent r) \<and> ieID (irEvent r) < 2 ^ 63"
    "length (inferenceT db) < n"
  shows "pageAll n db (req\<lparr>lrPageToken := ''''\<rparr>) =
    Some (filter (eventMatches req) (sort_key ieID (map irEvent (inferenceT db))))"
proof -
  have "length (rowsFrom db req (\<lambda>_. True)) \<le> length (inferenceT db)"
    unfolding rowsFrom_def by (metis length_filter_le length_map length_sort)
  then have "pageAll n db (req\<lparr>lrPageToken := ''''\<rparr>) = Some (rowsFrom db (req\<lparr>lrPageToken := ''''\<rparr>) (\<lambda>_. True))"
    using assms(3) by (intro pageAll_from [OF assms(1,2)]) (simp_all add: cursorOf_def)
  then show ?thesis by (simp add: rowsFrom_def)
qed

lemma exInferenceLog_verified: "VerifyInferenceChain None exInferenceLog = Inr (1, True, - 1)"
proof -
  have "chainRows (inferenceT exInferenceLog) = [inferenceRow 1 exInference 1 inferenceGenesisPrevHash]"
    by (simp add: chainRows_def exInferenceLog_def inferenceRow_def)
  moreover have "irEvent (inferenceRow 1 exInference 1 p) = exInference\<lparr>ieID := 1\<rparr>" for p
    by (simp add: inferenceRow_def exInference_def UTC_def zeroTime_def)
  moreover have "irSeq (inferenceRow 1 exInference 1 p) = Some 1" "irPrevHash (inferenceRow 1 exInference 1 p) = Some p"
    "irHash (inferenceRow 1 exInference 1 p) = Some (inferenceHash exInference 1 p)" for p by (simp_all add: inferenceRow_def)
  ultimately have "infChain inferenceGenesisPrevHash 1 (chainRows (inferenceT exInferenceLog))"
    "length (chainRows (inferenceT exInferenceLog)) = 1" by (simp_all add: nullString_def)
  moreover have len: "length (inferenceT exInferenceLog) = 2" by (simp add: exInferenceLog_def)
  ultimately show ?thesis using Verify_chain_iff [of exInferenceLog 1 "- 1"] unfolding len by simp
qed

lemma Record_runs: "\<exists>db'. RecordInferenceEvent (\<lambda>_. None) now db (Some e) = (db', None)"
  by (cases "inferenceNext (inferenceT db)") (simp add: RecordInferenceEvent_def Let_def)

lemma erasedHash_example: "length (erasedHash zeroTime) = 15" "erasedHash zeroTime \<noteq> ''k1''"
proof -
  have d: "natDigits (Suc 0) = [char_of (49 :: nat)]" by (simp add: natDigits.simps)
  have p: "length (padDigits 4 1) = 4" "length (padDigits 2 1) = 2" by (simp_all add: padDigits_def d Let_def)
  have "civil (- 719162) = (1, 1, 1)" by code_simp
  then show "length (erasedHash zeroTime) = 15"
    using p by (simp add: erasedHash_def compactDate_def UTC_def zeroTime_def)
  show "erasedHash zeroTime \<noteq> ''k1''" by (simp add: erasedHash_def)
qed



theorem ListInferenceEvents_pages_witness:
  "pageAll 3 exInferenceLog (emptyRequest\<lparr>lrLimit := 1\<rparr>) =
     Some [exInference\<lparr>ieID := 1\<rparr>, exInference\<lparr>ieID := 2, ieRequestID := ''req-0''\<rparr>]"
proof -
  have d: "distinct (map (\<lambda>r. ieID (irEvent r)) (inferenceT exInferenceLog))" "length (inferenceT exInferenceLog) < 3"
    "map irEvent (inferenceT exInferenceLog) = [exInference\<lparr>ieID := 1\<rparr>, exInference\<lparr>ieID := 2, ieRequestID := ''req-0''\<rparr>]"
    by (simp_all add: exInferenceLog_def inferenceRow_def exInference_def zeroTime_def UTC_def)
  have "r \<in> set (inferenceT exInferenceLog) \<Longrightarrow> - (2 ^ 63) \<le> ieID (irEvent r) \<and> ieID (irEvent r) < 2 ^ 63" for r
    by (auto simp: exInferenceLog_def inferenceRow_def)
  from ListInferenceEvents_pages [OF d(1) this d(2), of "emptyRequest\<lparr>lrLimit := 1\<rparr>"] show ?thesis
    by (simp add: d(3)) (simp add: emptyRequest_def eventMatches_def zeroTime_def IsZero_def)
qed

end
