(* ===== verification/Tokens.thy ===== *)
theory Tokens
  imports Registry AuditLog
begin

text \<open>
  The signed tokens of the control plane: the browser session and the service-account token of
  \<^verbatim>\<open>src/go/controlplane/server/auth.go\<close> and \<^verbatim>\<open>service_accounts.go\<close>, the in-memory store of pending logins, and
  the licence keys of \<^verbatim>\<open>src/enterprise/license/license.go\<close>.

  \<^item> \<^verbatim>\<open>base64.RawURLEncoding\<close> and \<^verbatim>\<open>crypto/hmac\<close> over SHA-256 are given in full.
  \<^item> \<open>Codec\<close> is what the code uses of \<^verbatim>\<open>encoding/json\<close> for one struct: its text, and reading it back. \<open>codecOK\<close> says
    that a struct is read back from its own text, which is not empty.
  \<^item> \<open>Signer\<close> is an Ed25519 key pair of \<^verbatim>\<open>crypto/ed25519\<close>; \<open>signerOK\<close> says that it accepts its own signatures, which
    are 64 bytes long.
  \<^item> The clock is an argument; \<open>unix\<close> is \<^verbatim>\<open>Time.Unix\<close>.
\<close>

section \<open>Base64\<close>

text \<open>The alphabet of the URL-safe encoding: capitals, small letters, digits, minus and underscore.\<close>

definition b64Char :: "nat \<Rightarrow> char" where
  "b64Char n = char_of (if n < 26 then 65 + n else if n < 52 then 71 + n else if n < 62 then n - 4 else if n = 62 then 45 else 95 :: nat)"

fun b64Encode :: "string \<Rightarrow> string" where
  "b64Encode [] = []"
| "b64Encode [a] = (let x = of_char a :: nat in [b64Char (x div 4), b64Char (x mod 4 * 16)])"
| "b64Encode [a, b] =
     (let x = of_char a :: nat; y = of_char b :: nat
      in [b64Char (x div 4), b64Char (x mod 4 * 16 + y div 16), b64Char (y mod 16 * 4)])"
| "b64Encode (a # b # c # rest) =
     (let x = of_char a :: nat; y = of_char b :: nat; z = of_char c :: nat
      in [b64Char (x div 4), b64Char (x mod 4 * 16 + y div 16), b64Char (y mod 16 * 4 + z div 64), b64Char (z mod 64)] @
         b64Encode rest)"

definition b64Value :: "char \<Rightarrow> nat option" where
  "b64Value c =
     (let n = of_char c :: nat in
      if 65 \<le> n \<and> n \<le> 90 then Some (n - 65)
      else if 97 \<le> n \<and> n \<le> 122 then Some (n - 71)
      else if 48 \<le> n \<and> n \<le> 57 then Some (n + 4)
      else if n = 45 then Some 62
      else if n = 95 then Some 63
      else None)"

text \<open>The groups of four sextets; the last group may have two or three.\<close>

fun b64Groups :: "nat list \<Rightarrow> string option" where
  "b64Groups [] = Some []"
| "b64Groups [p] = None"
| "b64Groups [p, q] = Some [char_of (p * 4 + q div 16)]"
| "b64Groups [p, q, r] = Some [char_of (p * 4 + q div 16), char_of (q mod 16 * 16 + r div 4)]"
| "b64Groups (p # q # r # s # rest) =
     map_option (\<lambda>bs. [char_of (p * 4 + q div 16), char_of (q mod 16 * 16 + r div 4), char_of (r mod 4 * 64 + s)] @ bs)
       (b64Groups rest)"

definition b64Decode :: "string \<Rightarrow> string option" where
  "b64Decode s =
     (let vs = map b64Value (filter (\<lambda>c. c \<noteq> CHR 0x0A \<and> c \<noteq> CHR 0x0D) s)
      in if None \<in> set vs then None else b64Groups (map the vs))"

section \<open>HMAC\<close>

definition xorByte :: "nat \<Rightarrow> char \<Rightarrow> char" where
  "xorByte n c = char_of (xor (of_char c) n :: nat)"

definition hmacSHA256 :: "string \<Rightarrow> string \<Rightarrow> string" where
  "hmacSHA256 key msg =
     (let k = (if length key > 64 then sha256 key else key);
          block = k @ replicate (64 - length k) (char_of (0 :: nat))
      in sha256 (map (xorByte 92) block @ sha256 (map (xorByte 54) block @ msg)))"

section \<open>Clock and JSON\<close>

definition unix :: "Time \<Rightarrow> int" where
  "unix t = tNanos t div 1000000000"

definition addNanos :: "Time \<Rightarrow> int \<Rightarrow> Time" where
  "addNanos t d = t\<lparr>tNanos := tNanos t + d\<rparr>"

definition hours :: "int \<Rightarrow> int" where
  "hours n = n * 3600 * 1000000000"

definition minutes :: "int \<Rightarrow> int" where
  "minutes n = n * 60 * 1000000000"

record 'a Codec =
  marshal :: "'a \<Rightarrow> string"
  unmarshal :: "string \<Rightarrow> 'a option"

definition codecOK :: "'a Codec \<Rightarrow> 'a \<Rightarrow> bool" where
  "codecOK C x \<longleftrightarrow> unmarshal C (marshal C x) = Some x \<and> marshal C x \<noteq> ''''"

section \<open>Sessions\<close>

definition sha256HexOf :: "string \<Rightarrow> string" where
  "sha256HexOf s = EncodeToString (sha256 s)"

record SessionClaims =
  scSub :: string
  scEmail :: string
  scExp :: int

definition sessionTTL :: int where
  "sessionTTL = hours 8"

definition signSession :: "SessionClaims Codec \<Rightarrow> string \<Rightarrow> Time \<Rightarrow> string \<Rightarrow> string \<Rightarrow> string" where
  "signSession J secret now sub email =
     (let encoded = b64Encode (marshal J \<lparr>scSub = sub, scEmail = email, scExp = unix (addNanos now sessionTTL)\<rparr>)
      in encoded @ ''.'' @ b64Encode (hmacSHA256 secret encoded))"

datatype session_err = SessionFormat | SessionSignature | SessionPayload | SessionJSON | SessionExpired

definition verifySession :: "SessionClaims Codec \<Rightarrow> string \<Rightarrow> Time \<Rightarrow> string \<Rightarrow> session_err + (string \<times> string)" where
  "verifySession J secret now token =
     (if CHR ''.'' \<notin> set token then Inl SessionFormat
      else
        let sig = rev (takeWhile (\<lambda>c. c \<noteq> CHR ''.'') (rev token));
            encoded = rev (tl (dropWhile (\<lambda>c. c \<noteq> CHR ''.'') (rev token)))
        in if sig \<noteq> b64Encode (hmacSHA256 secret encoded) then Inl SessionSignature
           else case b64Decode encoded of
             None \<Rightarrow> Inl SessionPayload
           | Some payload \<Rightarrow>
               (case unmarshal J payload of
                  None \<Rightarrow> Inl SessionJSON
                | Some claims \<Rightarrow> if unix now > scExp claims then Inl SessionExpired else Inr (scSub claims, scEmail claims)))"

section \<open>Service-account tokens\<close>

record saTokenClaims =
  stSub :: string
  stIss :: string
  stAud :: string
  stIat :: int
  stExp :: int
  stRole :: string
  stTenant :: string
  stScopes :: "string list"
  stType :: string

text \<open>The claims and the token that \<^verbatim>\<open>handleTokenEndpoint\<close> issues for an account.\<close>

definition saClaims :: "Time \<Rightarrow> ServiceAccount \<Rightarrow> saTokenClaims" where
  "saClaims now sa = \<lparr>stSub = saID sa, stIss = ''purser-cp'', stAud = ''purser-api'', stIat = unix now,
     stExp = unix (addNanos now (minutes 15)), stRole = saRole sa, stTenant = saTenant sa, stScopes = saScopes sa,
     stType = ''service_account''\<rparr>"

definition saToken :: "saTokenClaims Codec \<Rightarrow> string \<Rightarrow> saTokenClaims \<Rightarrow> string" where
  "saToken J secret claims =
     (let payload = marshal J claims in b64Encode payload @ ''.'' @ b64Encode (hmacSHA256 secret payload))"

definition parseServiceAccountToken :: "saTokenClaims Codec \<Rightarrow> string \<Rightarrow> Time \<Rightarrow> string \<Rightarrow> saTokenClaims option" where
  "parseServiceAccountToken J secret now token =
     (if length secret = 0 \<or> token = '''' then None
      else
        let payloadEnc = takeWhile (\<lambda>c. c \<noteq> CHR ''.'') token;
            sigEnc = tl (dropWhile (\<lambda>c. c \<noteq> CHR ''.'') token)
        in if CHR ''.'' \<notin> set token \<or> payloadEnc = '''' \<or> sigEnc = '''' then None
           else if CHR ''.'' \<in> set sigEnc then None
           else case (b64Decode payloadEnc, b64Decode sigEnc) of
             (Some payload, Some sig) \<Rightarrow>
               (if sig \<noteq> hmacSHA256 secret payload then None
                else case unmarshal J payload of
                  None \<Rightarrow> None
                | Some claims \<Rightarrow>
                    if stType claims \<noteq> ''service_account'' then None
                    else if stExp claims < unix now then None
                    else Some claims)
           | _ \<Rightarrow> None)"

section \<open>Pending logins\<close>

type_synonym PKCEStore = "(string, string \<times> Time) fmap"

definition pkceMaxEntries :: nat where
  "pkceMaxEntries = 1000"

definition pkceTTL :: int where
  "pkceTTL = minutes 5"

definition pkceSet :: "Time \<Rightarrow> PKCEStore \<Rightarrow> string \<Rightarrow> string \<Rightarrow> PKCEStore" where
  "pkceSet now st state verifier =
     (let put = fmupd state (verifier, addNanos now pkceTTL) in
      if fcard (fmdom st) \<ge> pkceMaxEntries then
        (let swept = fmfilter (\<lambda>k. \<not> After now (snd (the (fmlookup st k)))) st
         in if fcard (fmdom swept) \<ge> pkceMaxEntries then swept else put swept)
      else put st)"

definition pkceGet :: "Time \<Rightarrow> PKCEStore \<Rightarrow> string \<Rightarrow> PKCEStore \<times> string option" where
  "pkceGet now st state =
     (case fmlookup st state of
        None \<Rightarrow> (st, None)
      | Some (verifier, expires) \<Rightarrow> (fmdrop state st, if After now expires then None else Some verifier))"

section \<open>Licences\<close>

record Payload =
  plLicensee :: string
  plFeatures :: "string list"
  plIssued :: Time
  plExpires :: Time

record License =
  Licensee :: string
  Features :: "string list"
  Issued :: Time
  Expires :: Time

record Signer =
  edSign :: "string \<Rightarrow> string"
  edVerify :: "string \<Rightarrow> string \<Rightarrow> bool"

definition signerOK :: "Signer \<Rightarrow> string \<Rightarrow> bool" where
  "signerOK K m \<longleftrightarrow> edVerify K m (edSign K m) \<and> length (edSign K m) = 64"

definition Community :: License where
  "Community = \<lparr>Licensee = '''', Features = [], Issued = zeroTime, Expires = zeroTime\<rparr>"

definition IsCommunity :: "License option \<Rightarrow> bool" where
  "IsCommunity l = (case l of None \<Rightarrow> True | Some l \<Rightarrow> Licensee l = '''' \<and> length (Features l) = 0)"

definition ValidAt :: "License option \<Rightarrow> Time \<Rightarrow> bool" where
  "ValidAt l t =
     (case l of None \<Rightarrow> False | Some l \<Rightarrow>
        if \<not> IsZero (Issued l) \<and> Before t (Issued l) then False
        else if \<not> IsZero (Expires l) \<and> \<not> Before t (Expires l) then False
        else True)"

definition HasFeature :: "License option \<Rightarrow> string \<Rightarrow> bool" where
  "HasFeature l name = (case l of None \<Rightarrow> False | Some l \<Rightarrow> name \<in> set (Features l))"

definition licenseAllows :: "Time \<Rightarrow> License option \<Rightarrow> string \<Rightarrow> bool" where
  "licenseAllows now l feature \<longleftrightarrow> ValidAt l now \<and> HasFeature l feature"

text \<open>The text of a signed key, for a private key of the right size.\<close>

definition Sign :: "Payload Codec \<Rightarrow> Signer \<Rightarrow> Payload \<Rightarrow> string" where
  "Sign J K p = (let payload = marshal J p in b64Encode payload @ ''.'' @ b64Encode (edSign K payload))"

datatype license_err = ErrMalformed | ErrBadSignature

text \<open>\<^verbatim>\<open>strings.Split\<close> at a one-byte separator, and \<^verbatim>\<open>strings.TrimSpace\<close> on ASCII.\<close>

fun SplitByte :: "char \<Rightarrow> string \<Rightarrow> string list" where
  "SplitByte d [] = [[]]"
| "SplitByte d (c # cs) =
     (if c = d then [] # SplitByte d cs
      else case SplitByte d cs of [] \<Rightarrow> [[c]] | p # ps \<Rightarrow> (c # p) # ps)"

definition isSpace :: "char \<Rightarrow> bool" where
  "isSpace c \<longleftrightarrow> c \<in> {CHR 0x09, CHR 0x0A, CHR 0x0B, CHR 0x0C, CHR 0x0D, CHR '' ''}"

definition TrimSpace :: "string \<Rightarrow> string" where
  "TrimSpace s = rev (dropWhile isSpace (rev (dropWhile isSpace s)))"

definition LicenseVerify :: "Payload Codec \<Rightarrow> Signer \<Rightarrow> string \<Rightarrow> license_err + License" where
  "LicenseVerify J K key =
     (case SplitByte (CHR ''.'') (TrimSpace key) of
        [p, s] \<Rightarrow>
          if p = '''' \<or> s = '''' then Inl ErrMalformed
          else (case b64Decode p of None \<Rightarrow> Inl ErrMalformed | Some payload \<Rightarrow>
                (case b64Decode s of None \<Rightarrow> Inl ErrMalformed | Some sig \<Rightarrow>
                 if length sig \<noteq> 64 \<or> \<not> edVerify K payload sig then Inl ErrBadSignature
                 else case unmarshal J payload of
                   None \<Rightarrow> Inl ErrMalformed
                 | Some p \<Rightarrow> Inr \<lparr>Licensee = plLicensee p, Features = plFeatures p, Issued = plIssued p, Expires = plExpires p\<rparr>))
      | _ \<Rightarrow> Inl ErrMalformed)"

definition FromEnv :: "Payload Codec \<Rightarrow> Signer \<Rightarrow> string \<Rightarrow> license_err + License" where
  "FromEnv J K env = (let key = TrimSpace env in if key = '''' then Inr Community else LicenseVerify J K key)"

section \<open>Reference notions\<close>

text \<open>The sextets of a byte string.\<close>

fun sextets :: "string \<Rightarrow> nat list" where
  "sextets [] = []"
| "sextets [a] = (let x = of_char a :: nat in [x div 4, x mod 4 * 16])"
| "sextets [a, b] = (let x = of_char a :: nat; y = of_char b :: nat in [x div 4, x mod 4 * 16 + y div 16, y mod 16 * 4])"
| "sextets (a # b # c # rest) =
     (let x = of_char a :: nat; y = of_char b :: nat; z = of_char c :: nat
      in [x div 4, x mod 4 * 16 + y div 16, y mod 16 * 4 + z div 64, z mod 64] @ sextets rest)"

text \<open>A codec and a key pair for one value, for the examples.\<close>

definition exCodec :: "'a \<Rightarrow> 'a Codec" where
  "exCodec x = \<lparr>marshal = (\<lambda>_. ''{}''), unmarshal = (\<lambda>s. if s = ''{}'' then Some x else None)\<rparr>"

definition exSigner :: Signer where
  "exSigner = \<lparr>edSign = (\<lambda>m. sha256 m @ sha256 m), edVerify = (\<lambda>m s. s = sha256 m @ sha256 m)\<rparr>"

definition exAccount :: ServiceAccount where
  "exAccount = \<lparr>saID = ''sa-1'', saName = ''ci'', saTenant = ''team-a'', saDescription = '''', saRole = ''viewer'', saScopes = [],
     saClientID = ''sa_1'', saClientSecretHash = ''h'', saEnabled = True, saExpiresAt = None, saLastUsedAt = None,
     saCreatedAt = zeroTime, saUpdatedAt = zeroTime\<rparr>"

section \<open>Base64\<close>

lemma of_char_256: "(of_char c :: nat) < 256"
  by (rule nat_of_char_less_256)

lemma b64Encode_sextets: "b64Encode s = map b64Char (sextets s)"
  by (induction s rule: b64Encode.induct) (simp_all add: Let_def)

lemma b64_range:
  assumes "x < (256 :: nat)" "y < (256 :: nat)" "z < (256 :: nat)"
  shows "x div 4 < 64" "x mod 4 * 16 < 64" "x mod 4 * 16 + y div 16 < 64" "y mod 16 * 4 < 64" "y mod 16 * 4 + z div 64 < 64" "z mod 64 < 64"
proof -
  have "x div 4 < 64" "y div 16 < 16" "z div 64 < 4" "x mod 4 < 4" "y mod 16 < 16" using assms by simp_all
  then show "x div 4 < 64" "x mod 4 * 16 < 64" "x mod 4 * 16 + y div 16 < 64" "y mod 16 * 4 < 64" "y mod 16 * 4 + z div 64 < 64" "z mod 64 < 64"
    by simp_all
qed

lemma sextets_range: "\<forall>v \<in> set (sextets s). v < 64"
  by (induction s rule: sextets.induct)
    (simp_all add: Let_def b64_range [OF of_char_256 of_char_256 of_char_256])

lemma b64_facts:
  assumes "x < (256 :: nat)" "y < (256 :: nat)" "z < (256 :: nat)"
  shows "x div 4 * 4 + x mod 4 * 16 div 16 = x" "x div 4 * 4 + (x mod 4 * 16 + y div 16) div 16 = x"
    "(x mod 4 * 16 + y div 16) mod 16 * 16 + y mod 16 * 4 div 4 = y"
    "(x mod 4 * 16 + y div 16) mod 16 * 16 + (y mod 16 * 4 + z div 64) div 4 = y"
    "(y mod 16 * 4 + z div 64) mod 4 * 64 + z mod 64 = z"
proof -
  have small: "y div 16 < 16" "z div 64 < 4" using assms by simp_all
  have div: "(k * 16 + y div 16) div 16 = k" "(k * 16 + y div 16) mod 16 = y div 16" "(k * 4 + z div 64) div 4 = k"
    "(k * 4 + z div 64) mod 4 = z div 64" for k
    using small by simp_all
  show "x div 4 * 4 + x mod 4 * 16 div 16 = x" "x div 4 * 4 + (x mod 4 * 16 + y div 16) div 16 = x"
    "(x mod 4 * 16 + y div 16) mod 16 * 16 + y mod 16 * 4 div 4 = y"
    "(x mod 4 * 16 + y div 16) mod 16 * 16 + (y mod 16 * 4 + z div 64) div 4 = y"
    "(y mod 16 * 4 + z div 64) mod 4 * 64 + z mod 64 = z"
    unfolding div by simp_all
qed

lemmas b64_char = b64_facts [OF of_char_256 of_char_256 of_char_256]

lemma b64Groups_sextets: "b64Groups (sextets s) = Some s"
  by (induction s rule: sextets.induct) (simp_all only: sextets.simps Let_def b64Groups.simps append.simps b64_char char_of_char option.map)

lemma b64Char_facts:
  "n < 64 \<Longrightarrow> b64Value (b64Char n) = Some n \<and> b64Char n \<notin> {CHR 0x0A, CHR 0x0D, CHR ''.''} \<and> \<not> isSpace (b64Char n)"
proof -
  assume "n < 64"
  let ?m = "if n < 26 then 65 + n else if n < 52 then 71 + n else if n < 62 then n - 4 else if n = 62 then 45 else 95 :: nat"
  have "?m < 256" using \<open>n < 64\<close> by auto
  then have m: "of_char (b64Char n) = ?m" unfolding b64Char_def by (simp only: of_char_of mod_less)
  have "b64Value (b64Char n) = Some n" using \<open>n < 64\<close> unfolding b64Value_def m by (auto simp: Let_def)
  moreover have "c = b64Char n \<Longrightarrow> of_char c = ?m" for c using m by simp
  then have "b64Char n \<noteq> CHR 0x0A" "b64Char n \<noteq> CHR 0x0D" "b64Char n \<noteq> CHR ''.''" "b64Char n \<noteq> CHR 0x09" "b64Char n \<noteq> CHR 0x0B"
    "b64Char n \<noteq> CHR 0x0C" "b64Char n \<noteq> CHR '' ''"
    using \<open>n < 64\<close> by (fastforce split: if_splits)+
  ultimately show ?thesis by (simp add: isSpace_def)
qed

lemma b64Encode_chars: "c \<in> set (b64Encode s) \<Longrightarrow> c \<notin> {CHR 0x0A, CHR 0x0D, CHR ''.''} \<and> \<not> isSpace c"
  using sextets_range [of s] b64Char_facts by (auto simp: b64Encode_sextets)

lemma b64Decode_Encode [simp]: "b64Decode (b64Encode s) = Some s"
proof -
  have "filter (\<lambda>c. c \<noteq> CHR 0x0A \<and> c \<noteq> CHR 0x0D) (b64Encode s) = b64Encode s"
    using b64Encode_chars [of _ s] by (auto simp: filter_id_conv)
  moreover have "map b64Value (b64Encode s) = map Some (sextets s)"
    using sextets_range [of s] b64Char_facts by (auto simp: b64Encode_sextets)
  ultimately show ?thesis by (simp add: b64Decode_def Let_def b64Groups_sextets o_def)
qed

lemma b64Encode_inj: "b64Encode a = b64Encode b \<longleftrightarrow> a = b"
  using b64Decode_Encode by (metis option.inject)

lemma b64Encode_empty [simp]: "b64Encode s = [] \<longleftrightarrow> s = []"
  using b64Encode_inj [of s "[]"] by simp

section \<open>Signed pairs\<close>

lemma no_dot: "CHR ''.'' \<notin> set (b64Encode s)"
  using b64Encode_chars by blast

lemma split_first:
  assumes "d \<notin> set a"
  shows "takeWhile (\<lambda>c. c \<noteq> d) (a @ [d] @ b) = a" "tl (dropWhile (\<lambda>c. c \<noteq> d) (a @ [d] @ b)) = b"
proof -
  have "\<forall>x \<in> set a. x \<noteq> d" using assms by blast
  then show "takeWhile (\<lambda>c. c \<noteq> d) (a @ [d] @ b) = a" "tl (dropWhile (\<lambda>c. c \<noteq> d) (a @ [d] @ b)) = b"
    by (simp_all add: takeWhile_append2 dropWhile_append2)
qed

lemma split_last:
  assumes "d \<notin> set b"
  shows "rev (takeWhile (\<lambda>c. c \<noteq> d) (rev (a @ [d] @ b))) = b" "rev (tl (dropWhile (\<lambda>c. c \<noteq> d) (rev (a @ [d] @ b)))) = a"
  using split_first [of d "rev b" "rev a"] assms by simp_all

lemma SplitByte_pair: "d \<notin> set a \<Longrightarrow> d \<notin> set b \<Longrightarrow> SplitByte d (a @ [d] @ b) = [a, b]"
proof -
  have one: "d \<notin> set b \<Longrightarrow> SplitByte d b = [b]" for b by (induction b) auto
  show "d \<notin> set a \<Longrightarrow> d \<notin> set b \<Longrightarrow> SplitByte d (a @ [d] @ b) = [a, b]"
    by (induction a) (auto simp: one)
qed

lemma TrimSpace_id:
  assumes "\<And>c. c \<in> set s \<Longrightarrow> \<not> isSpace c"
  shows "TrimSpace s = s"
proof -
  have "dropWhile isSpace t = t" if "\<And>c. c \<in> set t \<Longrightarrow> \<not> isSpace c" for t
    using that by (cases t) auto
  from this [of s] this [of "rev s"] show ?thesis using assms by (simp add: TrimSpace_def)
qed

lemma length_hmac [simp]: "length (hmacSHA256 k m) = 32"
  by (simp add: hmacSHA256_def Let_def)

lemma hmac_nonempty [simp]: "hmacSHA256 k m \<noteq> []"
  by (metis length_hmac list.size(3) zero_neq_numeral)


section \<open>Properties\<close>

text \<open>C32: A session token that the server signed is accepted with its subject and address until eight hours have passed, and then
  refused as expired.\<close>

theorem verifySession_signSession:
  assumes "codecOK J \<lparr>scSub = sub, scEmail = email, scExp = unix (addNanos now sessionTTL)\<rparr>"
  shows "verifySession J secret t (signSession J secret now sub email) =
    (if unix t > unix (addNanos now sessionTTL) then Inl SessionExpired else Inr (sub, email))"
proof -
  let ?claims = "\<lparr>scSub = sub, scEmail = email, scExp = unix (addNanos now sessionTTL)\<rparr>"
  let ?e = "b64Encode (marshal J ?claims)"
  have "unmarshal J (marshal J ?claims) = Some ?claims" using assms by (simp add: codecOK_def)
  moreover have "signSession J secret now sub email = ?e @ [CHR ''.''] @ b64Encode (hmacSHA256 secret ?e)"
    by (simp add: signSession_def Let_def)
  ultimately show ?thesis
    unfolding verifySession_def using split_last [OF no_dot] by (simp add: Let_def)
qed

text \<open>C33: A service-account token that the server issued is accepted with all its claims for fifteen minutes, and then refused.\<close>

theorem parse_saToken:
  assumes "codecOK J (saClaims now sa)" "secret \<noteq> ''''"
  shows "parseServiceAccountToken J secret t (saToken J secret (saClaims now sa)) =
    (if unix (addNanos now (minutes 15)) < unix t then None else Some (saClaims now sa))"
proof -
  let ?p = "marshal J (saClaims now sa)"
  have p: "unmarshal J ?p = Some (saClaims now sa)" "?p \<noteq> []" using assms(1) by (simp_all add: codecOK_def)
  have t: "saToken J secret (saClaims now sa) = b64Encode ?p @ [CHR ''.''] @ b64Encode (hmacSHA256 secret ?p)"
    by (simp add: saToken_def Let_def)
  have c: "stType (saClaims now sa) = ''service_account''" "stExp (saClaims now sa) = unix (addNanos now (minutes 15))"
    by (simp_all add: saClaims_def)
  show ?thesis
    unfolding parseServiceAccountToken_def t using split_first [OF no_dot] p c assms(2) no_dot by (simp add: Let_def)
qed

text \<open>C34: A licence key signed for a payload verifies to exactly that payload; and it entitles
  a feature at an instant exactly when the feature is listed and the instant is within the term.\<close>

theorem LicenseVerify_Sign:
  assumes "codecOK J p" "signerOK K (marshal J p)"
  shows "\<exists>l. FromEnv J K (Sign J K p) = Inr l \<and> Licensee l = plLicensee p \<and> Features l = plFeatures p \<and>
    (licenseAllows t (Some l) f \<longleftrightarrow> f \<in> set (plFeatures p) \<and> (IsZero (plIssued p) \<or> tNanos (plIssued p) \<le> tNanos t) \<and>
       (IsZero (plExpires p) \<or> tNanos t < tNanos (plExpires p)))"
proof -
  let ?m = "marshal J p"
  have m: "unmarshal J ?m = Some p" "?m \<noteq> []" using assms(1) by (simp_all add: codecOK_def)
  have k: "edVerify K ?m (edSign K ?m)" "length (edSign K ?m) = 64" using assms(2) by (simp_all add: signerOK_def)
  then have "edSign K ?m \<noteq> []" by auto
  have s: "Sign J K p = b64Encode ?m @ [CHR ''.''] @ b64Encode (edSign K ?m)" by (simp add: Sign_def Let_def)
  have trim: "TrimSpace (Sign J K p) = Sign J K p"
    unfolding s by (rule TrimSpace_id) (use b64Encode_chars in \<open>auto simp: isSpace_def\<close>)
  have "LicenseVerify J K (Sign J K p) = Inr \<lparr>Licensee = plLicensee p, Features = plFeatures p, Issued = plIssued p, Expires = plExpires p\<rparr>"
    unfolding LicenseVerify_def trim unfolding s SplitByte_pair [OF no_dot no_dot] using m k \<open>edSign K ?m \<noteq> []\<close> by simp
  moreover have "Sign J K p \<noteq> []" by (simp add: s)
  ultimately show ?thesis
    by (auto simp: FromEnv_def trim Let_def licenseAllows_def ValidAt_def HasFeature_def Before_def not_less)
qed


lemma exCodec_ok: "codecOK (exCodec x) x"
  by (simp add: codecOK_def exCodec_def)

theorem verifySession_signSession_witness:
  "\<exists>J. verifySession J ''secret'' zeroTime (signSession J ''secret'' zeroTime ''alice'' ''a@x'') = Inr (''alice'', ''a@x'')"
  using verifySession_signSession [OF exCodec_ok, where secret = "''secret''" and t = zeroTime and now = zeroTime and sub = "''alice''" and email = "''a@x''"]
  by (auto simp: unix_def addNanos_def sessionTTL_def hours_def zeroTime_def)

theorem parse_saToken_witness:
  "\<exists>J. parseServiceAccountToken J ''secret'' zeroTime (saToken J ''secret'' (saClaims zeroTime exAccount)) = Some (saClaims zeroTime exAccount)"
  using parse_saToken [OF exCodec_ok, where secret = "''secret''" and t = zeroTime and now = zeroTime and sa = exAccount]
  by (auto simp: unix_def addNanos_def minutes_def zeroTime_def)

theorem LicenseVerify_Sign_witness:
  "\<exists>J l. FromEnv J exSigner (Sign J exSigner \<lparr>plLicensee = ''Acme'', plFeatures = [''audit''], plIssued = zeroTime, plExpires = zeroTime\<rparr>) = Inr l \<and>
     licenseAllows zeroTime (Some l) ''audit'' \<and> \<not> licenseAllows zeroTime (Some l) ''billing''"
proof -
  let ?p = "\<lparr>plLicensee = ''Acme'', plFeatures = [''audit''], plIssued = zeroTime, plExpires = zeroTime\<rparr>"
  have k: "signerOK exSigner (marshal (exCodec ?p) ?p)" by (simp add: signerOK_def exSigner_def)
  have "IsZero zeroTime" by (simp add: IsZero_def zeroTime_def)
  then show ?thesis
    using LicenseVerify_Sign [OF exCodec_ok k, where t = zeroTime and f = "''audit''"] LicenseVerify_Sign [OF exCodec_ok k, where t = zeroTime and f = "''billing''"]
    by (intro exI [of _ "exCodec ?p"]) auto
qed


end
