(* ===== verification/Platform.thy ===== *)
theory Platform
  imports Registry Permissions
begin

text \<open>
  The tables of the multi-tenant platform, \<^verbatim>\<open>src/go/controlplane/registry/platform_sqlite.go\<close>: organizations, teams,
  users, memberships, custom roles, node pools and their quotas, and the permissions and the nodes that follow
  from them.

  \<^item> The constraints are those of \<^verbatim>\<open>schema.sql\<close>, with foreign keys enforced as \<^verbatim>\<open>db.go\<close> opens the database: primary keys,
    unique columns, references with their \<^verbatim>\<open>ON DELETE\<close> action, and the \<^verbatim>\<open>CHECK\<close> on the policy of a pool.
  \<^item> \<open>runOp\<close> is one operation of this file as a step on the database; \<open>wfPlatform\<close> says that every constraint holds.
  \<^item> An operation of several statements takes the fault of each of them, numbered from 0. \<open>iter\<close> is the order in
    which a Go map yields its keys.
\<close>

section \<open>Statements with constraints\<close>

definition fkFault :: db_err where
  "fkFault = DBFault ''FOREIGN KEY constraint failed''"

definition checkFault :: db_err where
  "checkFault = DBFault ''CHECK constraint failed''"

text \<open>\<^verbatim>\<open>INSERT ... ON CONFLICT(key) DO UPDATE\<close>: the row that is there is merged with the new one.\<close>

definition upsertRow :: "('r \<Rightarrow> 'k) \<Rightarrow> 'r \<Rightarrow> ('r \<Rightarrow> 'r) \<Rightarrow> 'r list \<Rightarrow> 'r list" where
  "upsertRow key row upd t =
     (if key row \<in> key ` set t then map (\<lambda>r. if key r = key row then upd r else r) t else t @ [row])"

text \<open>Another row has the same value in a unique column.\<close>

definition taken :: "('r \<Rightarrow> 'k) \<Rightarrow> ('r \<Rightarrow> 'u) \<Rightarrow> 'r \<Rightarrow> 'r list \<Rightarrow> bool" where
  "taken key uniq row t \<longleftrightarrow> (\<exists>r \<in> set t. key r \<noteq> key row \<and> uniq r = uniq row)"

definition isUniqueViolation :: "db_err \<Rightarrow> bool" where
  "isUniqueViolation e =
     (case e of
       UniqueViolation _ \<Rightarrow> True
     | DBFault s \<Rightarrow> (let msg = ToLower s in Contains msg ''unique constraint failed'' \<or>
                       (Contains msg ''unique'' \<and> Contains msg ''constraint'')))"

text \<open>The result of a statement whose unique violations are reported as \<^verbatim>\<open>ErrConflict\<close>.\<close>

definition execConflict :: "string option \<Rightarrow> string \<Rightarrow> string \<Rightarrow> db_err + 'a \<Rightarrow> reg_err + 'a" where
  "execConflict flt what i r =
     (case (case flt of Some e \<Rightarrow> Inl (DBFault e) | None \<Rightarrow> r) of
       Inl e \<Rightarrow> Inl (if isUniqueViolation e then ErrConflict else RegFailure what i e)
     | Inr x \<Rightarrow> Inr x)"

section \<open>Organizations\<close>

definition orgRow :: "Organization \<Rightarrow> Organization" where
  "orgRow o1 = o1\<lparr>ogCreatedAt := UTC (ogCreatedAt o1), ogUpdatedAt := UTC (ogUpdatedAt o1)\<rparr>"

definition CreateOrganization :: "string option \<Rightarrow> Time \<Rightarrow> DB \<Rightarrow> Organization \<Rightarrow> DB \<times> Organization \<times> reg_err option" where
  "CreateOrganization flt now db org =
     (let o1 = (if IsZero (ogCreatedAt org) then org\<lparr>ogCreatedAt := now\<rparr> else org);
          o2 = o1\<lparr>ogUpdatedAt := now\<rparr>
      in case exec flt ''create organization'' (ogID o2)
                (if ogSlug o2 \<in> ogSlug ` set (orgsT db) then Inl (UniqueViolation ''organizations.slug'')
                 else insertRow ogID ''organizations.id'' (orgRow o2) (orgsT db)) of
           Inl err \<Rightarrow> (db, o2, Some err)
         | Inr t \<Rightarrow> (db\<lparr>orgsT := t\<rparr>, o2, None))"

definition GetOrganization :: "string option \<Rightarrow> DB \<Rightarrow> string \<Rightarrow> reg_err + Organization" where
  "GetOrganization flt db i =
     (case exec flt ''get organization'' i (Inr (selectRow ogID i (orgsT db))) of
       Inl err \<Rightarrow> Inl err
     | Inr None \<Rightarrow> Inl ErrNotFound
     | Inr (Some r) \<Rightarrow> Inr r)"

definition GetOrganizationBySlug :: "string option \<Rightarrow> DB \<Rightarrow> string \<Rightarrow> reg_err + Organization" where
  "GetOrganizationBySlug flt db slug =
     (case exec flt ''get organization by slug'' slug (Inr (selectRow ogSlug slug (orgsT db))) of
       Inl err \<Rightarrow> Inl err
     | Inr None \<Rightarrow> Inl ErrNotFound
     | Inr (Some r) \<Rightarrow> Inr r)"

definition ListOrganizations :: "string option \<Rightarrow> DB \<Rightarrow> reg_err + Organization list" where
  "ListOrganizations flt db = exec flt ''list organizations'' '''' (Inr (sort_key ogName (orgsT db)))"

definition UpdateOrganization :: "string option \<Rightarrow> Time \<Rightarrow> DB \<Rightarrow> Organization \<Rightarrow> DB \<times> Organization \<times> reg_err option" where
  "UpdateOrganization flt now db org =
     (let o1 = org\<lparr>ogUpdatedAt := now\<rparr>;
          upd = (\<lambda>r. (orgRow o1)\<lparr>ogCreatedAt := ogCreatedAt r\<rparr>)
      in case exec flt ''update organization'' (ogID o1)
                (if taken ogID ogSlug o1 (orgsT db) \<and> ogID o1 \<in> ogID ` set (orgsT db)
                 then Inl (UniqueViolation ''organizations.slug'')
                 else Inr (updateRows ogID (ogID o1) upd (orgsT db))) of
           Inl err \<Rightarrow> (db, o1, Some err)
         | Inr (t, k) \<Rightarrow> (db\<lparr>orgsT := t\<rparr>, o1, mustAffect k))"

text \<open>Deleting an organization deletes its teams, and with them their quotas.\<close>

definition DeleteOrganization :: "string option \<Rightarrow> DB \<Rightarrow> string \<Rightarrow> DB \<times> reg_err option" where
  "DeleteOrganization flt db i =
     (let gone = teID ` set (filter (\<lambda>t. teOrgID t = i) (teamsT db))
      in case exec flt ''delete organization'' i (Inr (deleteRows ogID i (orgsT db))) of
           Inl err \<Rightarrow> (db, Some err)
         | Inr (t, k) \<Rightarrow>
             (db\<lparr>orgsT := t, teamsT := filter (\<lambda>t. teOrgID t \<noteq> i) (teamsT db),
                poolQuotasT := filter (\<lambda>q. ptqTeamID q \<notin> gone) (poolQuotasT db)\<rparr>, mustAffect k))"

definition UpsertPlatformOrg :: "string option \<Rightarrow> Time \<Rightarrow> DB \<Rightarrow> PlatformOrg \<Rightarrow> DB \<times> PlatformOrg \<times> reg_err option" where
  "UpsertPlatformOrg flt now db org =
     (let o1 = (if IsZero (poCreatedAt org) then org\<lparr>poCreatedAt := now\<rparr> else org);
          o2 = o1\<lparr>poUpdatedAt := now\<rparr>;
          row = o2\<lparr>poCreatedAt := UTC (poCreatedAt o2), poUpdatedAt := UTC (poUpdatedAt o2)\<rparr>
      in case exec flt ''upsert platform org'' (poID o2)
                (if taken poID poName row (platformOrgsT db) then Inl (UniqueViolation ''platform_orgs.name'')
                 else Inr (upsertRow poID row (\<lambda>r. row\<lparr>poCreatedAt := poCreatedAt r\<rparr>) (platformOrgsT db))) of
           Inl err \<Rightarrow> (db, o2, Some err)
         | Inr t \<Rightarrow> (db\<lparr>platformOrgsT := t\<rparr>, o2, None))"

definition GetPlatformOrg :: "string option \<Rightarrow> DB \<Rightarrow> string \<Rightarrow> reg_err + PlatformOrg" where
  "GetPlatformOrg flt db i =
     (case exec flt ''get platform org'' i (Inr (selectRow poID i (platformOrgsT db))) of
       Inl err \<Rightarrow> Inl err
     | Inr None \<Rightarrow> Inl ErrNotFound
     | Inr (Some r) \<Rightarrow> Inr r)"

section \<open>Teams\<close>

definition teamRow :: "Team \<Rightarrow> Team" where
  "teamRow t = t\<lparr>teCreatedAt := UTC (teCreatedAt t), teUpdatedAt := UTC (teUpdatedAt t)\<rparr>"

definition teamSlug :: "Team \<Rightarrow> string \<times> string" where
  "teamSlug t = (teOrgID t, teSlug t)"

definition CreateTeam :: "string option \<Rightarrow> Time \<Rightarrow> DB \<Rightarrow> Team \<Rightarrow> DB \<times> Team \<times> reg_err option" where
  "CreateTeam flt now db team =
     (let t1 = (if IsZero (teCreatedAt team) then team\<lparr>teCreatedAt := now\<rparr> else team);
          t2 = t1\<lparr>teUpdatedAt := now\<rparr>
      in case exec flt ''create team'' (teID t2)
                (if teamSlug t2 \<in> teamSlug ` set (teamsT db) then Inl (UniqueViolation ''teams.org_id, teams.slug'')
                 else if teOrgID t2 \<notin> ogID ` set (orgsT db) then Inl fkFault
                 else insertRow teID ''teams.id'' (teamRow t2) (teamsT db)) of
           Inl err \<Rightarrow> (db, t2, Some err)
         | Inr t \<Rightarrow> (db\<lparr>teamsT := t\<rparr>, t2, None))"

definition GetTeam :: "string option \<Rightarrow> DB \<Rightarrow> string \<Rightarrow> reg_err + Team" where
  "GetTeam flt db i =
     (case exec flt ''get team'' i (Inr (selectRow teID i (teamsT db))) of
       Inl err \<Rightarrow> Inl err
     | Inr None \<Rightarrow> Inl ErrNotFound
     | Inr (Some r) \<Rightarrow> Inr r)"

definition GetTeamBySlug :: "string option \<Rightarrow> DB \<Rightarrow> string \<Rightarrow> string \<Rightarrow> reg_err + Team" where
  "GetTeamBySlug flt db orgID slug =
     (case exec flt ''get team by slug'' slug (Inr (selectRow teamSlug (orgID, slug) (teamsT db))) of
       Inl err \<Rightarrow> Inl err
     | Inr None \<Rightarrow> Inl ErrNotFound
     | Inr (Some r) \<Rightarrow> Inr r)"

definition ListTeamsByOrg :: "string option \<Rightarrow> DB \<Rightarrow> string \<Rightarrow> reg_err + Team list" where
  "ListTeamsByOrg flt db orgID =
     exec flt ''list teams by org'' orgID (Inr (sort_key teName (filter (\<lambda>t. teOrgID t = orgID) (teamsT db))))"

text \<open>The \<^verbatim>\<open>SET\<close> clause of the update; it does not move a team to another organization.\<close>

definition updatedTeam :: "Time \<Rightarrow> Team \<Rightarrow> Team \<Rightarrow> Team" where
  "updatedTeam now team r = r\<lparr>teName := teName team, teSlug := teSlug team, teDescription := teDescription team, teUpdatedAt := UTC now\<rparr>"

definition teamClash :: "Time \<Rightarrow> Team \<Rightarrow> Team list \<Rightarrow> bool" where
  "teamClash now team t \<longleftrightarrow>
     (case selectRow teID (teID team) t of None \<Rightarrow> False | Some r \<Rightarrow> taken teID teamSlug (updatedTeam now team r) t)"

definition UpdateTeam :: "string option \<Rightarrow> Time \<Rightarrow> DB \<Rightarrow> Team \<Rightarrow> DB \<times> Team \<times> reg_err option" where
  "UpdateTeam flt now db team =
     (let t1 = team\<lparr>teUpdatedAt := now\<rparr>
      in case exec flt ''update team'' (teID t1)
                (if teamClash now team (teamsT db) then Inl (UniqueViolation ''teams.org_id, teams.slug'')
                 else Inr (updateRows teID (teID t1) (updatedTeam now team) (teamsT db))) of
           Inl err \<Rightarrow> (db, t1, Some err)
         | Inr (t, k) \<Rightarrow> (db\<lparr>teamsT := t\<rparr>, t1, mustAffect k))"

definition DeleteTeam :: "string option \<Rightarrow> DB \<Rightarrow> string \<Rightarrow> DB \<times> reg_err option" where
  "DeleteTeam flt db i =
     (case exec flt ''delete team'' i (Inr (deleteRows teID i (teamsT db))) of
       Inl err \<Rightarrow> (db, Some err)
     | Inr (t, k) \<Rightarrow> (db\<lparr>teamsT := t, poolQuotasT := filter (\<lambda>q. ptqTeamID q \<noteq> i) (poolQuotasT db)\<rparr>, mustAffect k))"

definition platformTeamName :: "PlatformTeam \<Rightarrow> string \<times> string" where
  "platformTeamName t = (plOrgID t, plName t)"

definition UpsertPlatformTeam :: "string option \<Rightarrow> Time \<Rightarrow> DB \<Rightarrow> PlatformTeam \<Rightarrow> DB \<times> PlatformTeam \<times> reg_err option" where
  "UpsertPlatformTeam flt now db team =
     (let t1 = (if IsZero (plCreatedAt team) then team\<lparr>plCreatedAt := now\<rparr> else team);
          t2 = t1\<lparr>plUpdatedAt := now\<rparr>;
          row = t2\<lparr>plCreatedAt := UTC (plCreatedAt t2), plUpdatedAt := UTC (plUpdatedAt t2)\<rparr>
      in case exec flt ''upsert platform team'' (plID t2)
                (if taken plID platformTeamName row (platformTeamsT db)
                 then Inl (UniqueViolation ''platform_teams.org_id, platform_teams.name'')
                 else Inr (upsertRow plID row (\<lambda>r. row\<lparr>plCreatedAt := plCreatedAt r\<rparr>) (platformTeamsT db))) of
           Inl err \<Rightarrow> (db, t2, Some err)
         | Inr t \<Rightarrow> (db\<lparr>platformTeamsT := t\<rparr>, t2, None))"

definition GetPlatformTeam :: "string option \<Rightarrow> DB \<Rightarrow> string \<Rightarrow> reg_err + PlatformTeam" where
  "GetPlatformTeam flt db i =
     (case exec flt ''get platform team'' i (Inr (selectRow plID i (platformTeamsT db))) of
       Inl err \<Rightarrow> Inl err
     | Inr None \<Rightarrow> Inl ErrNotFound
     | Inr (Some r) \<Rightarrow> Inr r)"

section \<open>Users\<close>

text \<open>\<open>last_seen_at\<close> is \<^verbatim>\<open>NULL\<close> for no time and for the zero time.\<close>

definition userRow :: "PlatformUser \<Rightarrow> PlatformUser" where
  "userRow u = u\<lparr>usrCreatedAt := UTC (usrCreatedAt u),
     usrLastSeenAt := (case usrLastSeenAt u of None \<Rightarrow> None | Some t \<Rightarrow> if IsZero t then None else Some (UTC t))\<rparr>"

definition UpsertPlatformUser :: "string option \<Rightarrow> Time \<Rightarrow> DB \<Rightarrow> PlatformUser \<Rightarrow> DB \<times> PlatformUser \<times> reg_err option" where
  "UpsertPlatformUser flt now db u =
     (let u1 = (if IsZero (usrCreatedAt u) then u\<lparr>usrCreatedAt := now\<rparr> else u);
          row = userRow u1;
          upd = (\<lambda>r. r\<lparr>usrEmail := usrEmail row, usrDisplayName := usrDisplayName row, usrAuthMethod := usrAuthMethod row\<rparr>)
      in case exec flt ''upsert platform user'' (usrID u1)
                (if taken usrID usrEmail row (usersT db) then Inl (UniqueViolation ''users.email'')
                 else Inr (upsertRow usrID row upd (usersT db))) of
           Inl err \<Rightarrow> (db, u1, Some err)
         | Inr t \<Rightarrow> (db\<lparr>usersT := t\<rparr>, u1, None))"

definition GetPlatformUser :: "string option \<Rightarrow> DB \<Rightarrow> string \<Rightarrow> reg_err + PlatformUser" where
  "GetPlatformUser flt db i =
     (case exec flt ''get platform user'' i (Inr (selectRow usrID i (usersT db))) of
       Inl err \<Rightarrow> Inl err
     | Inr None \<Rightarrow> Inl ErrNotFound
     | Inr (Some r) \<Rightarrow> Inr r)"

definition GetPlatformUserByEmail :: "string option \<Rightarrow> DB \<Rightarrow> string \<Rightarrow> reg_err + PlatformUser" where
  "GetPlatformUserByEmail flt db email =
     (case exec flt ''get platform user by email'' email (Inr (selectRow usrEmail email (usersT db))) of
       Inl err \<Rightarrow> Inl err
     | Inr None \<Rightarrow> Inl ErrNotFound
     | Inr (Some r) \<Rightarrow> Inr r)"

definition ListPlatformUsers :: "string option \<Rightarrow> DB \<Rightarrow> reg_err + PlatformUser list" where
  "ListPlatformUsers flt db = exec flt ''list platform users'' '''' (Inr (sort_key usrEmail (usersT db)))"

definition UpdatePlatformUserLastSeen :: "string option \<Rightarrow> DB \<Rightarrow> string \<Rightarrow> Time \<Rightarrow> DB \<times> reg_err option" where
  "UpdatePlatformUserLastSeen flt db i t0 =
     (let seen = (if IsZero t0 then None else Some (UTC t0))
      in case exec flt ''update user last_seen'' i (Inr (updateRows usrID i (\<lambda>r. r\<lparr>usrLastSeenAt := seen\<rparr>) (usersT db))) of
           Inl err \<Rightarrow> (db, Some err)
         | Inr (t, k) \<Rightarrow> (db\<lparr>usersT := t\<rparr>, mustAffect k))"

section \<open>Organization members\<close>

definition orgMemberKey :: "OrgMember \<Rightarrow> string \<times> string" where
  "orgMemberKey m = (omOrgID m, omUserSub m)"

definition userSubFromMember :: "OrgMember \<Rightarrow> string" where
  "userSubFromMember m = (if omUserSub m \<noteq> '''' then omUserSub m else omUserID m)"

definition joinedAtFromMember :: "OrgMember \<Rightarrow> Time" where
  "joinedAtFromMember m = (if \<not> IsZero (omJoinedAt m) then omJoinedAt m else omCreatedAt m)"

text \<open>The struct with both aliases set, which is also what a scan fills in.\<close>

definition filledOrgMember :: "Time \<Rightarrow> OrgMember \<Rightarrow> OrgMember" where
  "filledOrgMember now m =
     (let t = joinedAtFromMember m; t = (if IsZero t then now else t); sub = userSubFromMember m
      in m\<lparr>omUserSub := sub, omUserID := sub, omJoinedAt := t, omCreatedAt := t\<rparr>)"

definition orgMemberRow :: "OrgMember \<Rightarrow> OrgMember" where
  "orgMemberRow m = m\<lparr>omJoinedAt := UTC (omJoinedAt m), omCreatedAt := UTC (omCreatedAt m)\<rparr>"

definition AddOrgMember :: "string option \<Rightarrow> Time \<Rightarrow> DB \<Rightarrow> OrgMember \<Rightarrow> DB \<times> OrgMember \<times> reg_err option" where
  "AddOrgMember flt now db m =
     (let m1 = filledOrgMember now m
      in case exec flt ''add org member'' (omOrgID m1) (Inr (upsertRow orgMemberKey (orgMemberRow m1) (\<lambda>r. r) (orgMembersT db))) of
           Inl err \<Rightarrow> (db, m, Some err)
         | Inr t \<Rightarrow> (db\<lparr>orgMembersT := t\<rparr>, m1, None))"

definition UpsertOrgMember :: "string option \<Rightarrow> Time \<Rightarrow> DB \<Rightarrow> OrgMember \<Rightarrow> DB \<times> OrgMember \<times> reg_err option" where
  "UpsertOrgMember flt now db m =
     (let m1 = filledOrgMember now m
      in case exec flt ''upsert org member'' (omOrgID m1)
                (Inr (upsertRow orgMemberKey (orgMemberRow m1) (\<lambda>r. r\<lparr>omRole := omRole m1\<rparr>) (orgMembersT db))) of
           Inl err \<Rightarrow> (db, m, Some err)
         | Inr t \<Rightarrow> (db\<lparr>orgMembersT := t\<rparr>, m1, None))"

definition RemoveOrgMember :: "string option \<Rightarrow> DB \<Rightarrow> string \<Rightarrow> string \<Rightarrow> DB \<times> reg_err option" where
  "RemoveOrgMember flt db orgID userID =
     (case exec flt ''remove org member'' orgID (Inr (deleteRows orgMemberKey (orgID, userID) (orgMembersT db))) of
       Inl err \<Rightarrow> (db, Some err)
     | Inr (t, k) \<Rightarrow> (db\<lparr>orgMembersT := t\<rparr>, mustAffect k))"

definition GetOrgMember :: "string option \<Rightarrow> DB \<Rightarrow> string \<Rightarrow> string \<Rightarrow> reg_err + OrgMember" where
  "GetOrgMember flt db orgID userID =
     (case exec flt ''get org member'' orgID (Inr (selectRow orgMemberKey (orgID, userID) (orgMembersT db))) of
       Inl err \<Rightarrow> Inl err
     | Inr None \<Rightarrow> Inl ErrNotFound
     | Inr (Some r) \<Rightarrow> Inr r)"

definition ListOrgMembers :: "string option \<Rightarrow> DB \<Rightarrow> string \<Rightarrow> reg_err + OrgMember list" where
  "ListOrgMembers flt db orgID =
     exec flt ''list org members'' orgID
       (Inr (sort_key (\<lambda>m. rfc3339Nano (omJoinedAt m)) (filter (\<lambda>m. omOrgID m = orgID) (orgMembersT db))))"

definition ListUserOrgs :: "string option \<Rightarrow> DB \<Rightarrow> string \<Rightarrow> reg_err + OrgMember list" where
  "ListUserOrgs flt db userID =
     exec flt ''list user orgs'' userID
       (Inr (sort_key (\<lambda>m. rfc3339Nano (omJoinedAt m)) (filter (\<lambda>m. omUserSub m = userID) (orgMembersT db))))"

definition GetOrgMembershipsByUser :: "string option \<Rightarrow> DB \<Rightarrow> string \<Rightarrow> reg_err + OrgMember list" where
  "GetOrgMembershipsByUser flt db userSub =
     exec flt ''get org memberships by user'' userSub (Inr (filter (\<lambda>m. omUserSub m = userSub) (orgMembersT db)))"

section \<open>Team members\<close>

definition teamMemberKey :: "TeamMember \<Rightarrow> string \<times> string" where
  "teamMemberKey m = (tmTeamID m, tmUserSub m)"

definition userSubFromTeamMember :: "TeamMember \<Rightarrow> string" where
  "userSubFromTeamMember m = (if tmUserSub m \<noteq> '''' then tmUserSub m else tmUserID m)"

definition filledTeamMember :: "Time \<Rightarrow> TeamMember \<Rightarrow> TeamMember" where
  "filledTeamMember now m =
     (let t = tmJoinedAt m; t = (if IsZero t then tmCreatedAt m else t); t = (if IsZero t then now else t);
          sub = userSubFromTeamMember m
      in m\<lparr>tmUserSub := sub, tmUserID := sub, tmJoinedAt := t, tmCreatedAt := t\<rparr>)"

definition teamMemberRow :: "TeamMember \<Rightarrow> TeamMember" where
  "teamMemberRow m = m\<lparr>tmJoinedAt := UTC (tmJoinedAt m), tmCreatedAt := UTC (tmCreatedAt m)\<rparr>"

definition AddTeamMember :: "string option \<Rightarrow> Time \<Rightarrow> DB \<Rightarrow> TeamMember \<Rightarrow> DB \<times> TeamMember \<times> reg_err option" where
  "AddTeamMember flt now db m =
     (let m1 = filledTeamMember now m
      in case exec flt ''add team member'' (tmTeamID m1)
                (Inr (upsertRow teamMemberKey (teamMemberRow m1) (\<lambda>r. r\<lparr>tmRoleID := tmRoleID m1\<rparr>) (teamMembersT db))) of
           Inl err \<Rightarrow> (db, m, Some err)
         | Inr t \<Rightarrow> (db\<lparr>teamMembersT := t\<rparr>, m1, None))"

definition UpsertTeamMember :: "string option \<Rightarrow> Time \<Rightarrow> DB \<Rightarrow> TeamMember \<Rightarrow> DB \<times> TeamMember \<times> reg_err option" where
  "UpsertTeamMember flt now db m =
     (let m1 = filledTeamMember now m
      in case exec flt ''upsert team member'' (tmTeamID m1)
                (Inr (upsertRow teamMemberKey (teamMemberRow m1) (\<lambda>r. r\<lparr>tmRoleID := tmRoleID m1\<rparr>) (teamMembersT db))) of
           Inl err \<Rightarrow> (db, m, Some err)
         | Inr t \<Rightarrow> (db\<lparr>teamMembersT := t\<rparr>, m1, None))"

definition RemoveTeamMember :: "string option \<Rightarrow> DB \<Rightarrow> string \<Rightarrow> string \<Rightarrow> DB \<times> reg_err option" where
  "RemoveTeamMember flt db teamID userID =
     (case exec flt ''remove team member'' teamID (Inr (deleteRows teamMemberKey (teamID, userID) (teamMembersT db))) of
       Inl err \<Rightarrow> (db, Some err)
     | Inr (t, k) \<Rightarrow> (db\<lparr>teamMembersT := t\<rparr>, mustAffect k))"

definition GetTeamMember :: "string option \<Rightarrow> DB \<Rightarrow> string \<Rightarrow> string \<Rightarrow> reg_err + TeamMember" where
  "GetTeamMember flt db teamID userID =
     (case exec flt ''get team member'' teamID (Inr (selectRow teamMemberKey (teamID, userID) (teamMembersT db))) of
       Inl err \<Rightarrow> Inl err
     | Inr None \<Rightarrow> Inl ErrNotFound
     | Inr (Some r) \<Rightarrow> Inr r)"

definition ListTeamMembers :: "string option \<Rightarrow> DB \<Rightarrow> string \<Rightarrow> reg_err + TeamMember list" where
  "ListTeamMembers flt db teamID =
     exec flt ''list team members'' teamID
       (Inr (sort_key (\<lambda>m. rfc3339Nano (tmJoinedAt m)) (filter (\<lambda>m. tmTeamID m = teamID) (teamMembersT db))))"

definition ListUserTeams :: "string option \<Rightarrow> DB \<Rightarrow> string \<Rightarrow> reg_err + TeamMember list" where
  "ListUserTeams flt db userID =
     exec flt ''list user teams'' userID
       (Inr (sort_key (\<lambda>m. rfc3339Nano (tmJoinedAt m)) (filter (\<lambda>m. tmUserSub m = userID) (teamMembersT db))))"

definition GetTeamMembershipsByUser :: "string option \<Rightarrow> DB \<Rightarrow> string \<Rightarrow> reg_err + TeamMember list" where
  "GetTeamMembershipsByUser flt db userSub =
     exec flt ''get team memberships by user'' userSub (Inr (filter (\<lambda>m. tmUserSub m = userSub) (teamMembersT db)))"

section \<open>Custom roles\<close>

definition roleRow :: "CustomRole \<Rightarrow> CustomRole" where
  "roleRow r = r\<lparr>crCreatedAt := UTC (crCreatedAt r), crUpdatedAt := UTC (crUpdatedAt r)\<rparr>"

text \<open>The rows with a given organization and id; \<^verbatim>\<open>org_id IS NULL\<close> is the empty organization.\<close>

definition roleAt :: "string \<Rightarrow> string \<Rightarrow> CustomRole \<Rightarrow> bool" where
  "roleAt orgID roleID r \<longleftrightarrow> crOrgID r = orgID \<and> crID r = roleID"

text \<open>\<^verbatim>\<open>UNIQUE (org_id, name)\<close>, where two \<^verbatim>\<open>NULL\<close>s are different.\<close>

definition roleNameTaken :: "CustomRole \<Rightarrow> CustomRole list \<Rightarrow> bool" where
  "roleNameTaken role t \<longleftrightarrow> crOrgID role \<noteq> '''' \<and>
     (\<exists>r \<in> set t. crID r \<noteq> crID role \<and> crOrgID r = crOrgID role \<and> crName r = crName role)"

definition CreateCustomRole :: "string option \<Rightarrow> Time \<Rightarrow> DB \<Rightarrow> CustomRole \<Rightarrow> DB \<times> CustomRole \<times> reg_err option" where
  "CreateCustomRole flt now db role =
     (let r1 = (if IsZero (crCreatedAt role) then role\<lparr>crCreatedAt := now\<rparr> else role);
          r2 = r1\<lparr>crUpdatedAt := crCreatedAt r1\<rparr>
      in case execConflict flt ''create custom role'' (crID r2)
                (if roleNameTaken r2 (rolesT db) then Inl (UniqueViolation ''custom_roles.org_id, custom_roles.name'')
                 else insertRow crID ''custom_roles.id'' (roleRow r2) (rolesT db)) of
           Inl err \<Rightarrow> (db, r2, Some err)
         | Inr t \<Rightarrow> (db\<lparr>rolesT := t\<rparr>, r2, None))"

definition GetCustomRole :: "string option \<Rightarrow> DB \<Rightarrow> string \<Rightarrow> string \<Rightarrow> reg_err + CustomRole" where
  "GetCustomRole flt db orgID roleID =
     (case exec flt ''get custom role'' roleID (Inr (find (roleAt orgID roleID) (rolesT db))) of
       Inl err \<Rightarrow> Inl err
     | Inr None \<Rightarrow> Inl ErrNotFound
     | Inr (Some r) \<Rightarrow> Inr r)"

definition ListCustomRoles :: "string option \<Rightarrow> DB \<Rightarrow> string \<Rightarrow> reg_err + CustomRole list" where
  "ListCustomRoles flt db orgID =
     exec flt ''list custom roles'' ''''
       (Inr (if orgID = '''' then sort_key crName (filter (\<lambda>r. crOrgID r = '''') (rolesT db))
             else sort_key (\<lambda>r. (\<not> crIsSystem r, crName r)) (filter (\<lambda>r. crOrgID r = orgID \<or> crOrgID r = '''') (rolesT db))))"

text \<open>The \<^verbatim>\<open>SET\<close> clause of the update.\<close>

definition updatedRole :: "Time \<Rightarrow> CustomRole \<Rightarrow> CustomRole \<Rightarrow> CustomRole" where
  "updatedRole now role r = r\<lparr>crName := crName role, crDescription := crDescription role,
     crPermissions := crPermissions role, crUpdatedAt := UTC now\<rparr>"

definition UpdateCustomRole :: "string option \<Rightarrow> Time \<Rightarrow> DB \<Rightarrow> CustomRole \<Rightarrow> DB \<times> CustomRole \<times> reg_err option" where
  "UpdateCustomRole flt now db role =
     (let r1 = role\<lparr>crUpdatedAt := now\<rparr>;
          hit = roleAt (crOrgID role) (crID role)
      in case execConflict flt ''update custom role'' (crID r1)
                (if roleNameTaken r1 (rolesT db) \<and> (\<exists>r \<in> set (rolesT db). hit r)
                 then Inl (UniqueViolation ''custom_roles.org_id, custom_roles.name'')
                 else Inr (map (\<lambda>r. if hit r then updatedRole now role r else r) (rolesT db), length (filter hit (rolesT db)))) of
           Inl err \<Rightarrow> (db, r1, Some err)
         | Inr (t, k) \<Rightarrow> (db\<lparr>rolesT := t\<rparr>, r1, mustAffect k))"

text \<open>When no row was deleted, a second query tells a missing role from a system role; any other outcome of that
  query counts as a system role.\<close>

definition DeleteCustomRole :: "(nat \<Rightarrow> string option) \<Rightarrow> DB \<Rightarrow> string \<Rightarrow> string \<Rightarrow> DB \<times> reg_err option" where
  "DeleteCustomRole flt db orgID roleID =
     (let hit = (\<lambda>r. roleAt orgID roleID r \<and> \<not> crIsSystem r);
          failure = (\<lambda>e. Some (RegFailure ''delete custom role'' roleID (DBFault e)))
      in case flt 0 of
           Some e \<Rightarrow> (db, failure e)
         | None \<Rightarrow>
             let t = filter (\<lambda>r. \<not> hit r) (rolesT db)
             in if length (filter hit (rolesT db)) = 0
                then (db\<lparr>rolesT := t\<rparr>,
                      if flt 1 = None \<and> \<not> (\<exists>r \<in> set t. roleAt orgID roleID r) then Some ErrNotFound
                      else failure ''cannot delete system role'')
                else (db\<lparr>rolesT := t\<rparr>, None))"

definition IsCustomRoleInUse :: "string option \<Rightarrow> DB \<Rightarrow> string \<Rightarrow> reg_err + bool" where
  "IsCustomRoleInUse flt db roleID =
     exec flt ''is custom role in use'' roleID (Inr (0 < length (filter (\<lambda>m. tmRoleID m = roleID) (teamMembersT db))))"

text \<open>The loop over the built-in roles; \<open>k\<close> counts its statements.\<close>

fun seedLoop :: "(nat \<Rightarrow> string option) \<Rightarrow> Time \<Rightarrow> nat \<Rightarrow> BuiltinRole list \<Rightarrow> CustomRole list \<Rightarrow> CustomRole list \<times> reg_err option" where
  "seedLoop flt now k [] t = (t, None)"
| "seedLoop flt now k (b # bs) t =
     (let row = \<lparr>crID = brID b, crOrgID = '''', crName = brName b, crDescription = '''', crPermissions = brPermissions b,
            crIsSystem = True, crCreatedAt = UTC now, crUpdatedAt = UTC now\<rparr>
      in case exec (flt k) ''seed system role'' (brID b) (Inr (upsertRow crID row (\<lambda>r. r) t)) of
           Inl err \<Rightarrow> (t, Some err)
         | Inr t \<Rightarrow> seedLoop flt now (Suc k) bs t)"

definition SeedSystemRoles :: "(nat \<Rightarrow> string option) \<Rightarrow> Time \<Rightarrow> DB \<Rightarrow> DB \<times> reg_err option" where
  "SeedSystemRoles flt now db = (case seedLoop flt now 0 SystemRoles (rolesT db) of (t, e) \<Rightarrow> (db\<lparr>rolesT := t\<rparr>, e))"

section \<open>Node pools\<close>

definition poolRow :: "NodePool \<Rightarrow> NodePool" where
  "poolRow p = p\<lparr>npCreatedAt := UTC (npCreatedAt p), npUpdatedAt := UTC (npUpdatedAt p)\<rparr>"

definition policyOK :: "NodePool \<Rightarrow> bool" where
  "policyOK p \<longleftrightarrow> npPolicy p = ''exclusive'' \<or> npPolicy p = ''shared''"

definition CreateNodePool :: "string option \<Rightarrow> Time \<Rightarrow> DB \<Rightarrow> NodePool \<Rightarrow> DB \<times> NodePool \<times> reg_err option" where
  "CreateNodePool flt now db p =
     (let p1 = (if IsZero (npCreatedAt p) then p\<lparr>npCreatedAt := now\<rparr> else p);
          p2 = p1\<lparr>npUpdatedAt := now\<rparr>
      in case exec flt ''create node pool'' (npID p2)
                (if \<not> policyOK p2 then Inl checkFault else insertRow npID ''node_pools.id'' (poolRow p2) (poolsT db)) of
           Inl err \<Rightarrow> (db, p2, Some err)
         | Inr t \<Rightarrow> (db\<lparr>poolsT := t\<rparr>, p2, None))"

definition GetNodePool :: "string option \<Rightarrow> DB \<Rightarrow> string \<Rightarrow> reg_err + NodePool" where
  "GetNodePool flt db i =
     (case exec flt ''get node pool'' i (Inr (selectRow npID i (poolsT db))) of
       Inl err \<Rightarrow> Inl err
     | Inr None \<Rightarrow> Inl ErrNotFound
     | Inr (Some r) \<Rightarrow> Inr r)"

definition ListNodePools :: "string option \<Rightarrow> DB \<Rightarrow> reg_err + NodePool list" where
  "ListNodePools flt db = exec flt ''list node pools'' '''' (Inr (sort_key npName (poolsT db)))"

definition UpdateNodePool :: "string option \<Rightarrow> Time \<Rightarrow> DB \<Rightarrow> NodePool \<Rightarrow> DB \<times> NodePool \<times> reg_err option" where
  "UpdateNodePool flt now db p =
     (let p1 = p\<lparr>npUpdatedAt := now\<rparr>;
          upd = (\<lambda>r. (poolRow p1)\<lparr>npCreatedAt := npCreatedAt r\<rparr>)
      in case exec flt ''update node pool'' (npID p1)
                (if \<not> policyOK p1 \<and> npID p1 \<in> npID ` set (poolsT db) then Inl checkFault
                 else Inr (updateRows npID (npID p1) upd (poolsT db))) of
           Inl err \<Rightarrow> (db, p1, Some err)
         | Inr (t, k) \<Rightarrow> (db\<lparr>poolsT := t\<rparr>, p1, mustAffect k))"

text \<open>A pool with nodes cannot be deleted (\<^verbatim>\<open>ON DELETE RESTRICT\<close>); its quotas go with it.\<close>

definition DeleteNodePool :: "string option \<Rightarrow> DB \<Rightarrow> string \<Rightarrow> DB \<times> reg_err option" where
  "DeleteNodePool flt db i =
     (case exec flt ''delete node pool'' i
             (if i \<in> pmPoolID ` set (poolMembersT db) then Inl fkFault else Inr (deleteRows npID i (poolsT db))) of
       Inl err \<Rightarrow> (db, Some err)
     | Inr (t, k) \<Rightarrow> (db\<lparr>poolsT := t, poolQuotasT := filter (\<lambda>q. ptqPoolID q \<noteq> i) (poolQuotasT db)\<rparr>, mustAffect k))"

definition AddNodeToPool :: "string option \<Rightarrow> DB \<Rightarrow> string \<Rightarrow> string \<Rightarrow> DB \<times> reg_err option" where
  "AddNodeToPool flt db nID poolID =
     (let row = \<lparr>pmNodeID = nID, pmPoolID = poolID\<rparr>
      in case exec flt ''add node to pool'' nID
                (if nID \<notin> rnID ` set (nodesT db) \<or> poolID \<notin> npID ` set (poolsT db) then Inl fkFault
                 else Inr (upsertRow pmNodeID row (\<lambda>_. row) (poolMembersT db))) of
           Inl err \<Rightarrow> (db, Some err)
         | Inr t \<Rightarrow> (db\<lparr>poolMembersT := t\<rparr>, None))"

definition RemoveNodeFromPool :: "string option \<Rightarrow> DB \<Rightarrow> string \<Rightarrow> DB \<times> reg_err option" where
  "RemoveNodeFromPool flt db nID =
     (case exec flt ''remove node from pool'' nID (Inr (deleteRows pmNodeID nID (poolMembersT db))) of
       Inl err \<Rightarrow> (db, Some err)
     | Inr (t, k) \<Rightarrow> (db\<lparr>poolMembersT := t\<rparr>, mustAffect k))"

text \<open>The rows of the join of members and pools.\<close>

definition poolJoin :: "DB \<Rightarrow> (PoolMember \<times> NodePool) list" where
  "poolJoin db = concat (map (\<lambda>m. map (Pair m) (filter (\<lambda>p. npID p = pmPoolID m) (poolsT db))) (poolMembersT db))"

definition GetNodePool_ByNode :: "string option \<Rightarrow> DB \<Rightarrow> string \<Rightarrow> reg_err + NodePool" where
  "GetNodePool_ByNode flt db nID =
     (case exec flt ''get pool by node'' nID (Inr (find (\<lambda>(m, p). pmNodeID m = nID) (poolJoin db))) of
       Inl err \<Rightarrow> Inl err
     | Inr None \<Rightarrow> Inl ErrNotFound
     | Inr (Some (m, p)) \<Rightarrow> Inr p)"

definition ListNodesInPool :: "string option \<Rightarrow> DB \<Rightarrow> string \<Rightarrow> reg_err + string list" where
  "ListNodesInPool flt db poolID =
     exec flt ''list nodes in pool'' poolID (Inr (sort (map pmNodeID (filter (\<lambda>m. pmPoolID m = poolID) (poolMembersT db)))))"

definition ownRows :: "DB \<Rightarrow> string \<Rightarrow> string list" where
  "ownRows db teamID = map (\<lambda>(m, p). pmNodeID m)
     (filter (\<lambda>(m, p). npOwnerType p = ''team'' \<and> npOwnerID p = teamID \<and> npPolicy p = ''exclusive'') (poolJoin db))"

definition sharedRows :: "DB \<Rightarrow> string \<Rightarrow> string list" where
  "sharedRows db teamID = concat (map (\<lambda>(m, p).
       map (\<lambda>q. pmNodeID m) (filter (\<lambda>q. ptqPoolID q = npID p \<and> npPolicy p = ''shared'' \<and> ptqTeamID q = teamID) (poolQuotasT db)))
     (poolJoin db))"

definition GetAllowedNodeIDs :: "(nat \<Rightarrow> string option) \<Rightarrow> DB \<Rightarrow> string \<Rightarrow> reg_err + string list" where
  "GetAllowedNodeIDs flt db teamID =
     (case exec (flt 0) ''get allowed nodes (exclusive) for team'' teamID (Inr (ownRows db teamID)) of
       Inl err \<Rightarrow> Inl err
     | Inr own \<Rightarrow>
         let ids = appendNew [] own
         in case exec (flt 1) ''get allowed nodes (shared) for team'' teamID (Inr (sharedRows db teamID)) of
              Inl err \<Rightarrow> Inl err
            | Inr shared \<Rightarrow> Inr (appendNew ids shared))"

section \<open>Quotas of teams on pools\<close>

definition quotaKey :: "PoolTeamQuota \<Rightarrow> string \<times> string" where
  "quotaKey q = (ptqPoolID q, ptqTeamID q)"

definition UpsertPoolTeamQuota :: "string option \<Rightarrow> Time \<Rightarrow> DB \<Rightarrow> PoolTeamQuota \<Rightarrow> DB \<times> PoolTeamQuota \<times> reg_err option" where
  "UpsertPoolTeamQuota flt now db q =
     (let q1 = (if IsZero (ptqCreatedAt q) then q\<lparr>ptqCreatedAt := now\<rparr> else q);
          q2 = q1\<lparr>ptqUpdatedAt := now\<rparr>;
          row = q2\<lparr>ptqCreatedAt := UTC (ptqCreatedAt q2), ptqUpdatedAt := UTC (ptqUpdatedAt q2)\<rparr>
      in case exec flt ''upsert pool team quota'' (ptqPoolID q2)
                (if ptqPoolID q2 \<notin> npID ` set (poolsT db) \<or> ptqTeamID q2 \<notin> teID ` set (teamsT db) then Inl fkFault
                 else Inr (upsertRow quotaKey row (\<lambda>r. row\<lparr>ptqCreatedAt := ptqCreatedAt r\<rparr>) (poolQuotasT db))) of
           Inl err \<Rightarrow> (db, q2, Some err)
         | Inr t \<Rightarrow> (db\<lparr>poolQuotasT := t\<rparr>, q2, None))"

definition GetPoolTeamQuota :: "string option \<Rightarrow> DB \<Rightarrow> string \<Rightarrow> string \<Rightarrow> reg_err + PoolTeamQuota" where
  "GetPoolTeamQuota flt db poolID teamID =
     (case exec flt ''get pool team quota'' poolID (Inr (selectRow quotaKey (poolID, teamID) (poolQuotasT db))) of
       Inl err \<Rightarrow> Inl err
     | Inr None \<Rightarrow> Inl ErrNotFound
     | Inr (Some r) \<Rightarrow> Inr r)"

definition ListPoolTeamQuotas :: "string option \<Rightarrow> DB \<Rightarrow> string \<Rightarrow> reg_err + PoolTeamQuota list" where
  "ListPoolTeamQuotas flt db poolID =
     exec flt ''list pool team quotas'' poolID
       (Inr (sort_key (\<lambda>q. (ptqPriority q, ptqTeamID q)) (filter (\<lambda>q. ptqPoolID q = poolID) (poolQuotasT db))))"

definition DeletePoolTeamQuota :: "string option \<Rightarrow> DB \<Rightarrow> string \<Rightarrow> string \<Rightarrow> DB \<times> reg_err option" where
  "DeletePoolTeamQuota flt db poolID teamID =
     (case exec flt ''delete pool team quota'' poolID (Inr (deleteRows quotaKey (poolID, teamID) (poolQuotasT db))) of
       Inl err \<Rightarrow> (db, Some err)
     | Inr (t, k) \<Rightarrow> (db\<lparr>poolQuotasT := t\<rparr>, mustAffect k))"

section \<open>Effective permissions\<close>

record EffectivePermissions =
  epTeamID :: string
  epOrgID :: string
  epUserID :: string
  epUserSub :: string
  epRoleID :: string
  epRoleName :: string
  epPermissions :: "string list"
  epIsOrgAdmin :: bool

text \<open>The inner loop of the insertion sort, from position \<open>i\<close> down, and the outer loop.\<close>

fun shiftDown :: "string list \<Rightarrow> string \<Rightarrow> nat \<Rightarrow> string list" where
  "shiftDown ss key 0 = ss[0 := key]"
| "shiftDown ss key (Suc j) = (if ss ! j > key then shiftDown (ss[Suc j := ss ! j]) key j else ss[Suc j := key])"

definition sortStrings :: "string list \<Rightarrow> string list" where
  "sortStrings ss = foldl (\<lambda>ss i. shiftDown ss (ss ! i) i) ss [1..<length ss]"

text \<open>The two layers of permissions: the built-in role of an organization admin, and the role in the team, which is
  looked up in the organization and then among the built-in ones.\<close>

definition adminPerms :: "(nat \<Rightarrow> string option) \<Rightarrow> DB \<Rightarrow> bool \<Rightarrow> string list" where
  "adminPerms flt db isOrgAdmin =
     (if isOrgAdmin then (case GetCustomRole (flt 2) db '''' ''org_admin'' of Inl _ \<Rightarrow> [] | Inr r \<Rightarrow> crPermissions r) else [])"

definition teamRole :: "(nat \<Rightarrow> string option) \<Rightarrow> DB \<Rightarrow> string \<Rightarrow> string \<Rightarrow> string \<Rightarrow> CustomRole option" where
  "teamRole flt db orgID teamID userID =
     (case GetTeamMember (flt 3) db teamID userID of
       Inl _ \<Rightarrow> None
     | Inr m \<Rightarrow>
         if tmRoleID m = '''' then None
         else case (case GetCustomRole (flt 4) db orgID (tmRoleID m) of
                      Inl err \<Rightarrow> if err = ErrNotFound then GetCustomRole (flt 5) db '''' (tmRoleID m) else Inl err
                    | Inr r \<Rightarrow> Inr r) of
                Inl _ \<Rightarrow> None
              | Inr r \<Rightarrow> Some r)"

definition GetEffectivePermissions ::
  "(string list \<Rightarrow> string list) \<Rightarrow> (nat \<Rightarrow> string option) \<Rightarrow> DB \<Rightarrow> string \<Rightarrow> string \<Rightarrow> reg_err + EffectivePermissions" where
  "GetEffectivePermissions iter flt db userID teamID =
     (case GetTeam (flt 0) db teamID of
       Inl err \<Rightarrow> Inl err
     | Inr team \<Rightarrow>
         let isOrgAdmin = (case GetOrgMember (flt 1) db (teOrgID team) userID of Inl _ \<Rightarrow> False | Inr m \<Rightarrow> omRole m = ''org_admin'');
             perms = appendNew [] (adminPerms flt db isOrgAdmin);
             role = teamRole flt db (teOrgID team) teamID userID;
             perms = appendNew perms (case role of None \<Rightarrow> [] | Some r \<Rightarrow> crPermissions r)
         in Inr \<lparr>epTeamID = teamID, epOrgID = teOrgID team, epUserID = userID, epUserSub = userID,
              epRoleID = (case role of None \<Rightarrow> '''' | Some r \<Rightarrow> crID r), epRoleName = (case role of None \<Rightarrow> '''' | Some r \<Rightarrow> crName r),
              epPermissions = sortStrings (iter perms), epIsOrgAdmin = isOrgAdmin\<rparr>)"

section \<open>Reference notions\<close>

text \<open>The operations of this file that write, and those on nodes, which the pools refer to.\<close>

datatype platform_op =
    OpCreateOrganization Organization | OpUpdateOrganization Organization | OpDeleteOrganization string
  | OpUpsertPlatformOrg PlatformOrg
  | OpCreateTeam Team | OpUpdateTeam Team | OpDeleteTeam string | OpUpsertPlatformTeam PlatformTeam
  | OpUpsertPlatformUser PlatformUser | OpUpdatePlatformUserLastSeen string Time
  | OpAddOrgMember OrgMember | OpUpsertOrgMember OrgMember | OpRemoveOrgMember string string
  | OpAddTeamMember TeamMember | OpUpsertTeamMember TeamMember | OpRemoveTeamMember string string
  | OpCreateCustomRole CustomRole | OpUpdateCustomRole CustomRole | OpDeleteCustomRole string string | OpSeedSystemRoles
  | OpCreateNodePool NodePool | OpUpdateNodePool NodePool | OpDeleteNodePool string
  | OpAddNodeToPool string string | OpRemoveNodeFromPool string
  | OpUpsertPoolTeamQuota PoolTeamQuota | OpDeletePoolTeamQuota string string
  | OpCreateNode RNode | OpUpdateNode RNode | OpDeleteNode string

primrec apply_op :: "platform_op \<Rightarrow> (nat \<Rightarrow> string option) \<Rightarrow> Time \<Rightarrow> DB \<Rightarrow> DB" where
  "apply_op (OpCreateOrganization x) flt now db = fst (CreateOrganization (flt 0) now db x)"
| "apply_op (OpUpdateOrganization x) flt now db = fst (UpdateOrganization (flt 0) now db x)"
| "apply_op (OpDeleteOrganization i) flt now db = fst (DeleteOrganization (flt 0) db i)"
| "apply_op (OpUpsertPlatformOrg x) flt now db = fst (UpsertPlatformOrg (flt 0) now db x)"
| "apply_op (OpCreateTeam x) flt now db = fst (CreateTeam (flt 0) now db x)"
| "apply_op (OpUpdateTeam x) flt now db = fst (UpdateTeam (flt 0) now db x)"
| "apply_op (OpDeleteTeam i) flt now db = fst (DeleteTeam (flt 0) db i)"
| "apply_op (OpUpsertPlatformTeam x) flt now db = fst (UpsertPlatformTeam (flt 0) now db x)"
| "apply_op (OpUpsertPlatformUser x) flt now db = fst (UpsertPlatformUser (flt 0) now db x)"
| "apply_op (OpUpdatePlatformUserLastSeen i t) flt now db = fst (UpdatePlatformUserLastSeen (flt 0) db i t)"
| "apply_op (OpAddOrgMember x) flt now db = fst (AddOrgMember (flt 0) now db x)"
| "apply_op (OpUpsertOrgMember x) flt now db = fst (UpsertOrgMember (flt 0) now db x)"
| "apply_op (OpRemoveOrgMember i u) flt now db = fst (RemoveOrgMember (flt 0) db i u)"
| "apply_op (OpAddTeamMember x) flt now db = fst (AddTeamMember (flt 0) now db x)"
| "apply_op (OpUpsertTeamMember x) flt now db = fst (UpsertTeamMember (flt 0) now db x)"
| "apply_op (OpRemoveTeamMember i u) flt now db = fst (RemoveTeamMember (flt 0) db i u)"
| "apply_op (OpCreateCustomRole x) flt now db = fst (CreateCustomRole (flt 0) now db x)"
| "apply_op (OpUpdateCustomRole x) flt now db = fst (UpdateCustomRole (flt 0) now db x)"
| "apply_op (OpDeleteCustomRole i u) flt now db = fst (DeleteCustomRole flt db i u)"
| "apply_op OpSeedSystemRoles flt now db = fst (SeedSystemRoles flt now db)"
| "apply_op (OpCreateNodePool x) flt now db = fst (CreateNodePool (flt 0) now db x)"
| "apply_op (OpUpdateNodePool x) flt now db = fst (UpdateNodePool (flt 0) now db x)"
| "apply_op (OpDeleteNodePool i) flt now db = fst (DeleteNodePool (flt 0) db i)"
| "apply_op (OpAddNodeToPool n p) flt now db = fst (AddNodeToPool (flt 0) db n p)"
| "apply_op (OpRemoveNodeFromPool n) flt now db = fst (RemoveNodeFromPool (flt 0) db n)"
| "apply_op (OpUpsertPoolTeamQuota x) flt now db = fst (UpsertPoolTeamQuota (flt 0) now db x)"
| "apply_op (OpDeletePoolTeamQuota p t) flt now db = fst (DeletePoolTeamQuota (flt 0) db p t)"
| "apply_op (OpCreateNode n) flt now db = fst (CreateNode (flt 0) now db n)"
| "apply_op (OpUpdateNode n) flt now db = fst (UpdateNode (flt 0) now db n)"
| "apply_op (OpDeleteNode i) flt now db = fst (DeleteNode (flt 0) db i)"

definition runOp :: "DB \<Rightarrow> (nat \<Rightarrow> string option) \<times> Time \<times> platform_op \<Rightarrow> DB" where
  "runOp db step = (case step of (flt, now, oper) \<Rightarrow> apply_op oper flt now db)"

text \<open>The constraints of the schema, table by table: keys and unique columns, references, and the check.\<close>

definition roleName :: "CustomRole \<Rightarrow> string \<times> string" where
  "roleName r = (crOrgID r, crName r)"

definition uniqueOK :: "('r \<Rightarrow> 'k) \<Rightarrow> ('r \<Rightarrow> 'u) \<Rightarrow> 'r list \<Rightarrow> bool" where
  "uniqueOK key uniq t \<longleftrightarrow> distinct (map key t) \<and> distinct (map uniq t)"

definition wfOrgs :: "DB \<Rightarrow> bool" where
  "wfOrgs db \<longleftrightarrow> uniqueOK ogID ogSlug (orgsT db) \<and> uniqueOK poID poName (platformOrgsT db) \<and>
     distinct (map orgMemberKey (orgMembersT db)) \<and> uniqueOK usrID usrEmail (usersT db)"

definition wfTeams :: "DB \<Rightarrow> bool" where
  "wfTeams db \<longleftrightarrow> uniqueOK teID teamSlug (teamsT db) \<and> uniqueOK plID platformTeamName (platformTeamsT db) \<and>
     distinct (map teamMemberKey (teamMembersT db)) \<and> teOrgID ` set (teamsT db) \<subseteq> ogID ` set (orgsT db)"

definition wfRoles :: "DB \<Rightarrow> bool" where
  "wfRoles db \<longleftrightarrow> distinct (map crID (rolesT db)) \<and> distinct (map roleName (filter (\<lambda>r. crOrgID r \<noteq> '''') (rolesT db)))"

definition wfPools :: "DB \<Rightarrow> bool" where
  "wfPools db \<longleftrightarrow> distinct (map npID (poolsT db)) \<and> list_all policyOK (poolsT db) \<and>
     distinct (map rnID (nodesT db)) \<and> distinct (map pmNodeID (poolMembersT db)) \<and> distinct (map quotaKey (poolQuotasT db)) \<and>
     pmNodeID ` set (poolMembersT db) \<subseteq> rnID ` set (nodesT db) \<and> pmPoolID ` set (poolMembersT db) \<subseteq> npID ` set (poolsT db) \<and>
     ptqPoolID ` set (poolQuotasT db) \<subseteq> npID ` set (poolsT db) \<and> ptqTeamID ` set (poolQuotasT db) \<subseteq> teID ` set (teamsT db)"

definition wfPlatform :: "DB \<Rightarrow> bool" where
  "wfPlatform db \<longleftrightarrow> wfOrgs db \<and> wfTeams db \<and> wfRoles db \<and> wfPools db"

section \<open>Tables with a unique column\<close>

lemma update_unique:
  assumes "uniqueOK key uniq t" "\<And>r. r \<in> set t \<Longrightarrow> key r \<noteq> i \<Longrightarrow> uniq r \<noteq> u"
    "\<And>r. r \<in> set t \<Longrightarrow> key r = i \<Longrightarrow> key (f r) = i \<and> uniq (f r) = u"
  shows "uniqueOK key uniq (map (\<lambda>r. if key r = i then f r else r) t)"
proof -
  let ?g = "\<lambda>r. if key r = i then f r else r"
  have inj: "inj_on key (set t)" "inj_on uniq (set t)" "distinct t"
    using assms(1) by (simp_all add: uniqueOK_def distinct_map)
  have k: "map key (map ?g t) = map key t" using assms(3) by auto
  have "inj_on (\<lambda>r. uniq (?g r)) (set t)"
  proof (rule inj_onI)
    fix a b
    assume ab: "a \<in> set t" "b \<in> set t" "uniq (?g a) = uniq (?g b)"
    have "key a = i \<longleftrightarrow> key b = i" using ab assms(2,3) by (auto split: if_splits)
    then have "key a = key b \<or> uniq a = uniq b" using ab(3) by (auto split: if_splits)
    then show "a = b" using ab(1,2) inj by (auto dest: inj_onD)
  qed
  then have "distinct (map uniq (map ?g t))" using inj(3) by (simp add: distinct_map o_def)
  then show ?thesis using assms(1) k by (metis uniqueOK_def)
qed

lemma updateRows_unique:
  assumes "updateRows key (key row) f t = (t', n)" "uniqueOK key uniq t" "taken key uniq row t \<Longrightarrow> key row \<notin> key ` set t"
    "\<And>r. r \<in> set t \<Longrightarrow> key r = key row \<Longrightarrow> key (f r) = key row \<and> uniq (f r) = uniq row"
  shows "uniqueOK key uniq t'"
proof (cases "key row \<in> key ` set t")
  case True
  then have "\<not> taken key uniq row t" using assms(3) by blast
  then have "uniqueOK key uniq (map (\<lambda>r. if key r = key row then f r else r) t)"
    using assms(2,4) by (intro update_unique [where u = "uniq row"]) (auto simp: taken_def)
  then show ?thesis using assms(1) by (simp add: updateRows_def)
next
  case False
  then have "map (\<lambda>r. if key r = key row then f r else r) t = t" by (intro map_idI) (metis image_eqI)
  then show ?thesis using assms(1,2) by (simp add: updateRows_def)
qed

lemma upsertRow_unique:
  assumes "uniqueOK key uniq t" "\<not> taken key uniq row t" "\<And>r. key r = key row \<Longrightarrow> key (upd r) = key row \<and> uniq (upd r) = uniq row"
  shows "uniqueOK key uniq (upsertRow key row upd t)"
proof (cases "key row \<in> key ` set t")
  case True
  moreover have "uniqueOK key uniq (map (\<lambda>r. if key r = key row then upd r else r) t)"
    using assms by (intro update_unique [where u = "uniq row"]) (auto simp: taken_def)
  ultimately show ?thesis by (simp add: upsertRow_def)
next
  case False
  have "uniq row \<notin> uniq ` set t"
  proof
    assume "uniq row \<in> uniq ` set t"
    then obtain r where r: "r \<in> set t" "uniq r = uniq row" by (metis image_iff)
    then have "key r \<noteq> key row" using False by (metis image_eqI)
    then show False using r assms(2) unfolding taken_def by blast
  qed
  then show ?thesis using assms(1) False by (simp add: upsertRow_def uniqueOK_def)
qed

lemma upsertRow_distinct:
  assumes "distinct (map key t)" "\<And>r. key r = key row \<Longrightarrow> key (upd r) = key row"
  shows "distinct (map key (upsertRow key row upd t))"
  using upsertRow_unique [of key key t row upd] assms by (auto simp: uniqueOK_def taken_def)

lemma insertRow_unique:
  assumes "insertRow key col row t = Inr t'" "uniqueOK key uniq t" "uniq row \<notin> uniq ` set t"
  shows "uniqueOK key uniq t'"
  using assms by (auto simp: insertRow_Inr uniqueOK_def)

lemma filter_unique: "uniqueOK key uniq t \<Longrightarrow> uniqueOK key uniq (filter P t)"
  by (simp add: uniqueOK_def distinct_map_filter)

lemma set_upsertRow: "set (upsertRow key row upd t) \<subseteq> insert row (upd ` set t \<union> set t)"
  by (auto simp: upsertRow_def)

lemma keys_upsertRow: "(\<And>r. key r = key row \<Longrightarrow> key (upd r) = key row) \<Longrightarrow> key ` set (upsertRow key row upd t) = insert (key row) (key ` set t)"
proof (cases "key row \<in> key ` set t")
  case True
  assume k: "\<And>r. key r = key row \<Longrightarrow> key (upd r) = key row"
  have "key ` set (map (\<lambda>r. if key r = key row then upd r else r) t) = key ` set t"
    unfolding set_map image_image using k by (intro image_cong) auto
  then show ?thesis using True by (simp add: upsertRow_def insert_absorb del: set_map)
qed (simp add: upsertRow_def)

section \<open>The constraints are kept\<close>

lemma execConflict_Inr: "execConflict flt what i r = Inr x \<longleftrightarrow> flt = None \<and> r = Inr x"
  by (auto simp: execConflict_def split: option.splits sum.splits)

lemmas wfp_defs = wfPlatform_def wfOrgs_def wfTeams_def wfRoles_def wfPools_def
lemmas wfp_simps = exec_Inr execConflict_Inr Let_def

lemma wfPlatform_empty [simp]: "wfPlatform emptyDB"
  by (simp add: wfp_defs emptyDB_def uniqueOK_def)

text \<open>What one table has to satisfy when it is replaced.\<close>

lemma wf_put:
  assumes "wfPlatform db"
  shows "uniqueOK ogID ogSlug orgs \<Longrightarrow> ogID ` set (orgsT db) \<subseteq> ogID ` set orgs \<Longrightarrow> wfPlatform (db\<lparr>orgsT := orgs\<rparr>)"
    "uniqueOK poID poName porgs \<Longrightarrow> wfPlatform (db\<lparr>platformOrgsT := porgs\<rparr>)"
    "uniqueOK usrID usrEmail us \<Longrightarrow> wfPlatform (db\<lparr>usersT := us\<rparr>)"
    "distinct (map orgMemberKey oms) \<Longrightarrow> wfPlatform (db\<lparr>orgMembersT := oms\<rparr>)"
    "uniqueOK teID teamSlug ts \<Longrightarrow> teID ` set (teamsT db) \<subseteq> teID ` set ts \<Longrightarrow> teOrgID ` set ts \<subseteq> ogID ` set (orgsT db) \<Longrightarrow>
       wfPlatform (db\<lparr>teamsT := ts\<rparr>)"
    "uniqueOK plID platformTeamName pts \<Longrightarrow> wfPlatform (db\<lparr>platformTeamsT := pts\<rparr>)"
    "distinct (map teamMemberKey tms) \<Longrightarrow> wfPlatform (db\<lparr>teamMembersT := tms\<rparr>)"
    "distinct (map crID rs) \<Longrightarrow> distinct (map roleName (filter (\<lambda>r. crOrgID r \<noteq> '''') rs)) \<Longrightarrow> wfPlatform (db\<lparr>rolesT := rs\<rparr>)"
    "distinct (map npID ps) \<Longrightarrow> list_all policyOK ps \<Longrightarrow> npID ` set (poolsT db) \<subseteq> npID ` set ps \<Longrightarrow> wfPlatform (db\<lparr>poolsT := ps\<rparr>)"
    "distinct (map pmNodeID ms) \<Longrightarrow> pmNodeID ` set ms \<subseteq> rnID ` set (nodesT db) \<Longrightarrow> pmPoolID ` set ms \<subseteq> npID ` set (poolsT db) \<Longrightarrow>
       wfPlatform (db\<lparr>poolMembersT := ms\<rparr>)"
    "distinct (map quotaKey qs) \<Longrightarrow> ptqPoolID ` set qs \<subseteq> npID ` set (poolsT db) \<Longrightarrow> ptqTeamID ` set qs \<subseteq> teID ` set (teamsT db) \<Longrightarrow>
       wfPlatform (db\<lparr>poolQuotasT := qs\<rparr>)"
    "distinct (map rnID ns) \<Longrightarrow> rnID ` set (nodesT db) \<subseteq> rnID ` set ns \<Longrightarrow> wfPlatform (db\<lparr>nodesT := ns\<rparr>)"
  using assms by (simp_all add: wfp_defs) (meson order_trans)+

lemma wf_get:
  assumes "wfPlatform db"
  shows "uniqueOK ogID ogSlug (orgsT db)" "uniqueOK poID poName (platformOrgsT db)" "uniqueOK usrID usrEmail (usersT db)"
    "distinct (map orgMemberKey (orgMembersT db))" "uniqueOK teID teamSlug (teamsT db)" "teOrgID ` set (teamsT db) \<subseteq> ogID ` set (orgsT db)"
    "uniqueOK plID platformTeamName (platformTeamsT db)" "distinct (map teamMemberKey (teamMembersT db))"
    "distinct (map crID (rolesT db))" "distinct (map roleName (filter (\<lambda>r. crOrgID r \<noteq> '''') (rolesT db)))"
    "distinct (map npID (poolsT db))" "list_all policyOK (poolsT db)" "distinct (map pmNodeID (poolMembersT db))"
    "pmNodeID ` set (poolMembersT db) \<subseteq> rnID ` set (nodesT db)" "pmPoolID ` set (poolMembersT db) \<subseteq> npID ` set (poolsT db)"
    "distinct (map quotaKey (poolQuotasT db))" "ptqPoolID ` set (poolQuotasT db) \<subseteq> npID ` set (poolsT db)"
    "ptqTeamID ` set (poolQuotasT db) \<subseteq> teID ` set (teamsT db)" "distinct (map rnID (nodesT db))"
  using assms by (simp_all add: wfp_defs)

lemma keys_updateRows:
  assumes "updateRows key k f t = (t', n)" "\<And>r. key r = k \<Longrightarrow> key (f r) = k"
  shows "key ` set t' = key ` set t"
proof -
  have "key ` set (map (\<lambda>r. if key r = k then f r else r) t) = key ` set t"
    unfolding set_map image_image using assms(2) by (intro image_cong) auto
  then show ?thesis using assms(1) by (simp add: updateRows_def del: set_map)
qed

lemma updateRows_keep:
  assumes "updateRows key k f t = (t', n)" "uniqueOK key uniq t" "\<And>r. key (f r) = key r \<and> uniq (f r) = uniq r"
  shows "uniqueOK key uniq t'"
proof -
  have "map key t' = map key t" "map uniq t' = map uniq t" using assms(1,3) by (auto simp: updateRows_def)
  then show ?thesis using assms(2) by (simp add: uniqueOK_def)
qed

lemma orgs_create_wf:
  assumes "wfPlatform db"
  shows "wfPlatform (fst (CreateOrganization flt now db x))"
  using assms
  by (auto simp: CreateOrganization_def insertRow_Inr orgRow_def wfp_simps uniqueOK_def wf_get [unfolded uniqueOK_def]
      split: wf_splits if_splits intro!: wf_put)

lemma orgs_update_wf:
  assumes "wfPlatform db"
  shows "wfPlatform (fst (UpdateOrganization flt now db x))"
proof -
  let ?f = "\<lambda>r. (orgRow (x\<lparr>ogUpdatedAt := now\<rparr>))\<lparr>ogCreatedAt := ogCreatedAt r\<rparr>"
  have "wfPlatform (db\<lparr>orgsT := t\<rparr>)" if t: "updateRows ogID (ogID x) ?f (orgsT db) = (t, n)"
      "taken ogID ogSlug (x\<lparr>ogUpdatedAt := now\<rparr>) (orgsT db) \<Longrightarrow> ogID x \<notin> ogID ` set (orgsT db)" for t n
  proof (rule wf_put(1) [OF assms])
    show "uniqueOK ogID ogSlug t"
      by (rule updateRows_unique [where row = "x\<lparr>ogUpdatedAt := now\<rparr>" and f = ?f])
        (use wf_get [OF assms] t in \<open>auto simp: orgRow_def\<close>)
    show "ogID ` set (orgsT db) \<subseteq> ogID ` set t" using keys_updateRows [OF t(1)] by (simp add: orgRow_def)
  qed
  then show ?thesis using assms by (auto simp: UpdateOrganization_def wfp_simps split: wf_splits if_splits)
qed

lemma image_filter_rest:
  assumes "f ` set qs \<subseteq> g ` set ts"
  shows "f ` set (filter (\<lambda>q. f q \<notin> g ` set (filter P ts)) qs) \<subseteq> g ` set (filter (\<lambda>t. \<not> P t) ts)"
  using assms by (auto simp: image_iff)

lemma orgs_delete_wf:
  assumes "wfPlatform db"
  shows "wfPlatform (fst (DeleteOrganization flt db i))"
proof (cases flt)
  case None
  let ?g = "teID ` set (filter (\<lambda>t. teOrgID t = i) (teamsT db))"
  have "ptqTeamID ` set (filter (\<lambda>q. ptqTeamID q \<notin> ?g) (poolQuotasT db)) \<subseteq> teID ` set (filter (\<lambda>t. teOrgID t \<noteq> i) (teamsT db))"
    using wf_get [OF assms] by (intro image_filter_rest)
  moreover have "ptqPoolID ` set (filter (\<lambda>q. ptqTeamID q \<notin> ?g) (poolQuotasT db)) \<subseteq> npID ` set (poolsT db)"
    using wf_get(17) [OF assms] by auto
  moreover have "teOrgID ` set (filter (\<lambda>t. teOrgID t \<noteq> i) (teamsT db)) \<subseteq> ogID ` set (filter (\<lambda>t. ogID t \<noteq> i) (orgsT db))"
    using wf_get(6) [OF assms] by auto
  ultimately show ?thesis using assms
    by (simp add: DeleteOrganization_def deleteRows_def exec_def None wfp_defs Let_def filter_unique distinct_map_filter del: set_filter)
qed (use assms in \<open>simp add: DeleteOrganization_def exec_def Let_def\<close>)

lemma platform_rows_wf:
  assumes "wfPlatform db"
  shows "wfPlatform (fst (UpsertPlatformOrg flt now db x))" "wfPlatform (fst (UpsertPlatformTeam flt now db y))"
    "wfPlatform (fst (UpsertPlatformUser flt now db u))"
  using assms
  by (auto simp: UpsertPlatformOrg_def UpsertPlatformTeam_def UpsertPlatformUser_def userRow_def
      platformTeamName_def wfp_simps wf_get split: wf_splits if_splits intro!: wf_put upsertRow_unique)

lemma last_seen_wf:
  assumes "wfPlatform db"
  shows "wfPlatform (fst (UpdatePlatformUserLastSeen flt db i t))"
  using assms
  by (auto simp: UpdatePlatformUserLastSeen_def exec_Inr Let_def wf_get simp del: split_paired_Ex split: sum.split prod.split
      intro!: wf_put elim!: updateRows_keep)

lemma members_wf:
  assumes "wfPlatform db"
  shows "wfPlatform (fst (AddOrgMember flt now db x))" "wfPlatform (fst (UpsertOrgMember flt now db x))"
    "wfPlatform (fst (RemoveOrgMember flt db i u))" "wfPlatform (fst (AddTeamMember flt now db y))"
    "wfPlatform (fst (UpsertTeamMember flt now db y))" "wfPlatform (fst (RemoveTeamMember flt db i u))"
  using assms
  by (auto simp: AddOrgMember_def UpsertOrgMember_def RemoveOrgMember_def AddTeamMember_def UpsertTeamMember_def RemoveTeamMember_def
      orgMemberKey_def teamMemberKey_def deleteRows_def distinct_map_filter wf_get wfp_simps
      split: wf_splits if_splits intro!: wf_put upsertRow_distinct)

lemma teams_create_wf:
  assumes "wfPlatform db"
  shows "wfPlatform (fst (CreateTeam flt now db x))"
proof -
  have "wfPlatform (db\<lparr>teamsT := t\<rparr>)" if t: "insertRow teID col (teamRow y) (teamsT db) = Inr t"
    "teamSlug y \<notin> teamSlug ` set (teamsT db)" "teOrgID y \<in> ogID ` set (orgsT db)" for t y col
  proof (rule wf_put(5) [OF assms])
    show "uniqueOK teID teamSlug t"
      using insertRow_unique [OF t(1) wf_get(5) [OF assms]] t(2) by (simp add: teamSlug_def teamRow_def)
    show "teID ` set (teamsT db) \<subseteq> teID ` set t" "teOrgID ` set t \<subseteq> ogID ` set (orgsT db)"
      using t wf_get(6) [OF assms] by (auto simp: insertRow_Inr teamRow_def)
  qed
  then show ?thesis using assms by (auto simp: CreateTeam_def wfp_simps split: sum.split)
qed

lemma teams_update_wf:
  assumes "wfPlatform db"
  shows "wfPlatform (fst (UpdateTeam flt now db x))"
proof -
  let ?t = "map (\<lambda>r. if teID r = teID x then updatedTeam now x r else r) (teamsT db)"
  have "wfPlatform (db\<lparr>teamsT := ?t\<rparr>)" if free: "\<not> teamClash now x (teamsT db)"
  proof (rule wf_put(5) [OF assms])
    show "uniqueOK teID teamSlug ?t"
    proof (cases "selectRow teID (teID x) (teamsT db)")
      case None
      then have "?t = teamsT db" by (intro map_idI) (metis image_eqI selectRow_None)
      then show ?thesis using wf_get [OF assms] by metis
    next
      case (Some r)
      have same: "q = r" if "q \<in> set (teamsT db)" "teID q = teID x" for q
        using wf_get(5) [OF assms] that selectRow_Some [OF Some] by (metis uniqueOK_def distinct_map inj_onD)
      show ?thesis
        by (rule update_unique [where u = "teamSlug (updatedTeam now x r)"])
          (use wf_get(5) [OF assms] free Some same selectRow_Some [OF Some] in \<open>auto simp: teamClash_def taken_def updatedTeam_def teamSlug_def\<close>)
    qed
    have "teID ` set ?t = teID ` set (teamsT db)" unfolding set_map image_image by (intro image_cong) (auto simp: updatedTeam_def)
    then show "teID ` set (teamsT db) \<subseteq> teID ` set ?t" by simp
    have "teOrgID ` set ?t = teOrgID ` set (teamsT db)" unfolding set_map image_image by (intro image_cong) (auto simp: updatedTeam_def)
    then show "teOrgID ` set ?t \<subseteq> ogID ` set (orgsT db)" using wf_get(6) [OF assms] by simp
  qed
  then show ?thesis using assms by (auto simp: UpdateTeam_def updateRows_def wfp_simps split: wf_splits if_splits)
qed

lemma teams_delete_wf:
  assumes "wfPlatform db"
  shows "wfPlatform (fst (DeleteTeam flt db i))"
proof (cases flt)
  case None
  have "ptqTeamID ` set (filter (\<lambda>q. ptqTeamID q \<noteq> i) (poolQuotasT db)) \<subseteq> teID ` set (filter (\<lambda>t. teID t \<noteq> i) (teamsT db))"
    using wf_get(18) [OF assms] by auto
  moreover have "ptqPoolID ` set (filter (\<lambda>q. ptqTeamID q \<noteq> i) (poolQuotasT db)) \<subseteq> npID ` set (poolsT db)"
    "teOrgID ` set (filter (\<lambda>t. teID t \<noteq> i) (teamsT db)) \<subseteq> ogID ` set (orgsT db)"
    using wf_get(6,17) [OF assms] by auto
  ultimately show ?thesis using assms
    by (simp add: DeleteTeam_def deleteRows_def exec_def None wfp_defs Let_def filter_unique distinct_map_filter del: set_filter)
qed (use assms in \<open>simp add: DeleteTeam_def exec_def Let_def\<close>)

lemma pools_create_wf:
  assumes "wfPlatform db"
  shows "wfPlatform (fst (CreateNodePool flt now db x))"
proof -
  have "wfPlatform (db\<lparr>poolsT := t\<rparr>)" if "insertRow npID col (poolRow y) (poolsT db) = Inr t" "policyOK y" for t y col
    using that wf_get(11,12) [OF assms]
    by (intro wf_put(9) [OF assms]) (auto simp: insertRow_Inr poolRow_def policyOK_def)
  then show ?thesis using assms by (auto simp: CreateNodePool_def wfp_simps split: sum.split)
qed

lemma pools_update_wf:
  assumes "wfPlatform db"
  shows "wfPlatform (fst (UpdateNodePool flt now db x))"
proof -
  let ?f = "\<lambda>r. (poolRow (x\<lparr>npUpdatedAt := now\<rparr>))\<lparr>npCreatedAt := npCreatedAt r\<rparr>"
  have "wfPlatform (db\<lparr>poolsT := t\<rparr>)" if t: "updateRows npID (npID x) ?f (poolsT db) = (t, n)"
      "\<not> policyOK (x\<lparr>npUpdatedAt := now\<rparr>) \<Longrightarrow> npID x \<notin> npID ` set (poolsT db)" for t n
  proof (rule wf_put(9) [OF assms])
    show "distinct (map npID t)" using updateRows_distinct [OF t(1)] wf_get(11) [OF assms] by (simp add: poolRow_def)
    have "policyOK (?f r)" if "r \<in> set (poolsT db)" "npID r = npID x" for r
    proof -
      have "npID x \<in> npID ` set (poolsT db)" using that by (metis image_eqI)
      then have "policyOK (x\<lparr>npUpdatedAt := now\<rparr>)" using t(2) by blast
      then show ?thesis by (simp add: policyOK_def poolRow_def)
    qed
    then show "list_all policyOK t" using t(1) wf_get(12) [OF assms] by (auto simp: updateRows_def list_all_iff)
    show "npID ` set (poolsT db) \<subseteq> npID ` set t" using keys_updateRows [OF t(1)] by (simp add: poolRow_def)
  qed
  then show ?thesis using assms by (auto simp: UpdateNodePool_def wfp_simps split: wf_splits if_splits)
qed

lemma pools_delete_wf:
  assumes "wfPlatform db"
  shows "wfPlatform (fst (DeleteNodePool flt db i))"
proof (cases "flt = None \<and> i \<notin> pmPoolID ` set (poolMembersT db)")
  case True
  have "ptqPoolID ` set (filter (\<lambda>q. ptqPoolID q \<noteq> i) (poolQuotasT db)) \<subseteq> npID ` set (filter (\<lambda>p. npID p \<noteq> i) (poolsT db))"
    "ptqTeamID ` set (filter (\<lambda>q. ptqPoolID q \<noteq> i) (poolQuotasT db)) \<subseteq> teID ` set (teamsT db)"
    "list_all policyOK (filter (\<lambda>p. npID p \<noteq> i) (poolsT db))"
    using wf_get(12,17,18) [OF assms] by (auto simp: list_all_iff)
  moreover have "pmPoolID ` set (poolMembersT db) \<subseteq> npID ` set (filter (\<lambda>p. npID p \<noteq> i) (poolsT db))"
  proof
    fix k
    assume k: "k \<in> pmPoolID ` set (poolMembersT db)"
    then have "k \<in> npID ` set (poolsT db)" "k \<noteq> i" using wf_get(15) [OF assms] True by blast+
    then show "k \<in> npID ` set (filter (\<lambda>p. npID p \<noteq> i) (poolsT db))" by auto
  qed
  ultimately show ?thesis using assms True
    by (simp add: DeleteNodePool_def deleteRows_def exec_def wfp_defs Let_def distinct_map_filter del: set_filter)
qed (use assms in \<open>auto simp: DeleteNodePool_def exec_def Let_def split: option.split\<close>)

lemma column_upsertRow:
  assumes "col ` set t \<subseteq> S" "col row \<in> S" "\<And>r. col (upd r) = col row"
  shows "col ` set (upsertRow key row upd t) \<subseteq> S"
  using assms by (auto simp: upsertRow_def)

lemma pool_members_wf:
  assumes "wfPlatform db"
  shows "wfPlatform (fst (AddNodeToPool flt db n p))" "wfPlatform (fst (RemoveNodeFromPool flt db n))"
    "wfPlatform (fst (UpsertPoolTeamQuota flt now db q))" "wfPlatform (fst (DeletePoolTeamQuota flt db i u))"
proof -
  let ?row = "\<lparr>pmNodeID = n, pmPoolID = p\<rparr>"
  have "wfPlatform (db\<lparr>poolMembersT := upsertRow pmNodeID ?row (\<lambda>_. ?row) (poolMembersT db)\<rparr>)"
    if "n \<in> rnID ` set (nodesT db)" "p \<in> npID ` set (poolsT db)"
    using that wf_get(13-15) [OF assms] by (intro wf_put(10) [OF assms] upsertRow_distinct column_upsertRow) simp_all
  then show "wfPlatform (fst (AddNodeToPool flt db n p))"
    using assms by (auto simp: AddNodeToPool_def wfp_simps split: wf_splits if_splits)
  have "wfPlatform (db\<lparr>poolQuotasT := upsertRow quotaKey row upd (poolQuotasT db)\<rparr>)"
    if "ptqPoolID row \<in> npID ` set (poolsT db)" "ptqTeamID row \<in> teID ` set (teamsT db)"
      "\<And>r. ptqPoolID (upd r) = ptqPoolID row \<and> ptqTeamID (upd r) = ptqTeamID row" for row upd
    using that wf_get(16-18) [OF assms] by (intro wf_put(11) [OF assms] upsertRow_distinct column_upsertRow) (simp_all add: quotaKey_def)
  then show "wfPlatform (fst (UpsertPoolTeamQuota flt now db q))"
    using assms by (auto simp: UpsertPoolTeamQuota_def wfp_simps split: wf_splits if_splits)
  show "wfPlatform (fst (RemoveNodeFromPool flt db n))" "wfPlatform (fst (DeletePoolTeamQuota flt db i u))"
    using assms wf_get(13-18) [OF assms]
    by (auto simp: RemoveNodeFromPool_def DeletePoolTeamQuota_def deleteRows_def distinct_map_filter wfp_simps
        split: wf_splits intro!: wf_put)
qed

lemma pool_create_node_wf:
  assumes "wfPlatform db"
  shows "wfPlatform (fst (CreateNode flt now db n))"
  using assms
  by (auto simp: CreateNode_def nodeRow_def insertRow_Inr wf_get wfp_simps split: wf_splits if_splits intro!: wf_put)

lemma pool_update_node_wf:
  assumes "wfPlatform db"
  shows "wfPlatform (fst (UpdateNode flt now db n))"
proof -
  have "wfPlatform (db\<lparr>nodesT := t\<rparr>)" if t: "updateRows rnID (rnID n) f (nodesT db) = (t, k)" "\<And>r. rnID (f r) = rnID n" for t f k
    using keys_updateRows [OF t(1)] updateRows_distinct [OF t(1)] t(2) wf_get(19) [OF assms]
    by (intro wf_put(12) [OF assms]) simp_all
  then show ?thesis using assms by (auto simp: UpdateNode_def nodeRow_def wfp_simps split: wf_splits)
qed

lemma pool_delete_node_wf:
  assumes "wfPlatform db"
  shows "wfPlatform (fst (DeleteNode flt db i))"
proof (cases flt)
  case None
  have "pmNodeID ` set (filter (\<lambda>m. pmNodeID m \<noteq> i) (poolMembersT db)) \<subseteq> rnID ` set (filter (\<lambda>n. rnID n \<noteq> i) (nodesT db))"
    "pmPoolID ` set (filter (\<lambda>m. pmNodeID m \<noteq> i) (poolMembersT db)) \<subseteq> npID ` set (poolsT db)"
    using wf_get(14,15) [OF assms] by auto
  then show ?thesis using assms
    by (simp add: DeleteNode_def deleteRows_def exec_def None wfp_defs Let_def distinct_map_filter del: set_filter)
qed (use assms in \<open>simp add: DeleteNode_def exec_def Let_def\<close>)

lemma distinct_roleName_snoc:
  assumes "\<not> roleNameTaken r t" "crID r \<notin> crID ` set t" "distinct (map roleName (filter (\<lambda>r. crOrgID r \<noteq> '''') t))"
  shows "distinct (map roleName (filter (\<lambda>r. crOrgID r \<noteq> '''') (t @ [r])))"
proof -
  have "roleName r \<noteq> roleName q" if "q \<in> set t" "crOrgID r \<noteq> ''''" for q
  proof -
    have "crID q \<noteq> crID r" using that(1) assms(2) by (metis image_eqI)
    then show ?thesis using assms(1) that by (auto simp: roleNameTaken_def roleName_def)
  qed
  then show ?thesis using assms(3) by auto
qed

lemma roles_create_wf:
  assumes "wfPlatform db"
  shows "wfPlatform (fst (CreateCustomRole flt now db x))"
proof -
  have "wfPlatform (db\<lparr>rolesT := t\<rparr>)" if t: "insertRow crID col (roleRow y) (rolesT db) = Inr t" "\<not> roleNameTaken y (rolesT db)" for t y col
  proof (rule wf_put(8) [OF assms])
    show "distinct (map crID t)" using t wf_get(9) [OF assms] by (auto simp: insertRow_Inr)
    have "\<not> roleNameTaken (roleRow y) (rolesT db)" using t(2) by (simp add: roleNameTaken_def roleRow_def)
    then show "distinct (map roleName (filter (\<lambda>r. crOrgID r \<noteq> '''') t))"
      using distinct_roleName_snoc [of "roleRow y" "rolesT db"] t(1) wf_get(10) [OF assms] by (simp add: insertRow_Inr)
  qed
  then show ?thesis using assms by (auto simp: CreateCustomRole_def wfp_simps split: sum.split)
qed

lemma filter_filter_comm: "filter P (filter Q t) = filter Q (filter P t)"
  by (metis (mono_tags, lifting) conj_commute filter_cong filter_filter)

lemma roles_delete_wf:
  assumes "wfPlatform db"
  shows "wfPlatform (fst (DeleteCustomRole flt db i u))"
proof -
  have "wfPlatform (db\<lparr>rolesT := filter P (rolesT db)\<rparr>)" for P
    using wf_get(9,10) [OF assms]
    by (intro wf_put(8) [OF assms]) (simp_all only: distinct_map_filter filter_filter_comm [of _ P])
  then show ?thesis using assms by (auto simp: DeleteCustomRole_def Let_def split: option.split)
qed

lemma filter_map_same: "(\<And>x. P (f x) = P x) \<Longrightarrow> filter P (map f xs) = map f (filter P xs)"
  by (induction xs) auto

lemma roles_update_wf:
  assumes "wfPlatform db"
  shows "wfPlatform (fst (UpdateCustomRole flt now db x))"
proof -
  let ?hit = "roleAt (crOrgID x) (crID x)"
  let ?g = "\<lambda>r. if ?hit r then updatedRole now x r else r"
  let ?named = "filter (\<lambda>r. crOrgID r \<noteq> '''')"
  have "wfPlatform (db\<lparr>rolesT := map ?g (rolesT db)\<rparr>)"
    if free: "roleNameTaken (x\<lparr>crUpdatedAt := now\<rparr>) (rolesT db) \<Longrightarrow> \<not> (\<exists>r \<in> set (rolesT db). ?hit r)"
  proof (rule wf_put(8) [OF assms])
    have "map crID (map ?g (rolesT db)) = map crID (rolesT db)" by (auto simp: updatedRole_def)
    then show "distinct (map crID (map ?g (rolesT db)))" using wf_get(9) [OF assms] by metis
    have inj: "inj_on crID (set (rolesT db))" "inj_on roleName (set (?named (rolesT db)))" "distinct (?named (rolesT db))"
      using wf_get(9,10) [OF assms] unfolding distinct_map by blast+
    have "inj_on (\<lambda>r. roleName (?g r)) (set (?named (rolesT db)))"
    proof (rule inj_onI)
      fix a b
      assume ab: "a \<in> set (?named (rolesT db))" "b \<in> set (?named (rolesT db))" "roleName (?g a) = roleName (?g b)"
      have clash: False if "?hit r" "\<not> ?hit q" "r \<in> set (?named (rolesT db))" "q \<in> set (?named (rolesT db))" "roleName (?g r) = roleName (?g q)" for r q
      proof -
        have r: "r \<in> set (rolesT db)" "crOrgID x \<noteq> ''''" "roleName (?g r) = (crOrgID x, crName x)"
          using that(1,3) by (auto simp: roleAt_def roleName_def updatedRole_def)
        then have q: "q \<in> set (rolesT db)" "crOrgID q = crOrgID x" "crName q = crName x" using that(2,4,5) by (auto simp: roleName_def)
        then have "crID q \<noteq> crID x" using that(2) by (simp add: roleAt_def)
        then have "roleNameTaken (x\<lparr>crUpdatedAt := now\<rparr>) (rolesT db)" using q r(2) by (auto simp: roleNameTaken_def)
        then show False using free r(1) that(1) by blast
      qed
      have "?hit a = ?hit b" using clash [of a b] clash [of b a] ab by metis
      then have "crID a = crID b \<or> roleName a = roleName b" using ab(3) by (auto simp: roleAt_def split: if_splits)
      then show "a = b" using ab(1,2) inj(1,2) by (metis filter_is_subset inj_onD subsetD)
    qed
    then show "distinct (map roleName (?named (map ?g (rolesT db))))"
      using inj(3) by (subst filter_map_same) (auto simp: updatedRole_def distinct_map o_def)
  qed
  then show ?thesis using assms by (auto simp: UpdateCustomRole_def wfp_simps split: sum.split)
qed

lemma seedLoop_wf:
  assumes "distinct (map crID t)" "distinct (map roleName (filter (\<lambda>r. crOrgID r \<noteq> '''') t))"
  shows "distinct (map crID (fst (seedLoop flt now k bs t))) \<and>
    distinct (map roleName (filter (\<lambda>r. crOrgID r \<noteq> '''') (fst (seedLoop flt now k bs t))))"
  using assms
proof (induction bs arbitrary: k t)
  case (Cons b bs)
  let ?row = "\<lparr>crID = brID b, crOrgID = '''', crName = brName b, crDescription = '''', crPermissions = brPermissions b,
    crIsSystem = True, crCreatedAt = UTC now, crUpdatedAt = UTC now\<rparr>"
  let ?t = "upsertRow crID ?row (\<lambda>r. r) t"
  have "distinct (map crID ?t)" using Cons.prems(1) by (intro upsertRow_distinct) simp_all
  moreover have "filter (\<lambda>r. crOrgID r \<noteq> '''') ?t = filter (\<lambda>r. crOrgID r \<noteq> '''') t" by (simp add: upsertRow_def)
  ultimately show ?case using Cons.IH [of ?t "Suc k"] Cons.prems by (cases "flt k") (simp_all add: exec_def Let_def)
qed simp

lemma seed_wf:
  assumes "wfPlatform db"
  shows "wfPlatform (fst (SeedSystemRoles flt now db))"
  using wf_put(8) [OF assms] seedLoop_wf [OF wf_get(9,10) [OF assms], of flt now 0 SystemRoles]
  by (auto simp: SeedSystemRoles_def split: prod.split)

lemmas platform_wf = orgs_create_wf orgs_update_wf orgs_delete_wf platform_rows_wf last_seen_wf members_wf teams_create_wf teams_update_wf
  teams_delete_wf pools_create_wf pools_update_wf pools_delete_wf pool_members_wf pool_create_node_wf pool_update_node_wf pool_delete_node_wf
  roles_create_wf roles_update_wf roles_delete_wf seed_wf

lemma runOp_wf: "wfPlatform db \<Longrightarrow> wfPlatform (runOp db step)"
  by (cases step; cases "snd (snd step)") (auto simp: runOp_def intro: platform_wf)


end
