(* ===== verification/Spec2Isabelle.thy ===== *)
theory Spec2Isabelle
  imports Replica Planning Permissions InferenceAudit Tokens Platform
begin

text \<open>
  A verification library for the planner and control plane of the repository.
\<close>

end
